theory Spec2Isabelle
  imports Complex_Main "HOL-Library.Multiset"
begin

section \<open>JavaScript values\<close>

text \<open>
  A value that is thrown, or that a promise is rejected with. The code tells an
  \<open>Error\<close> object (which has a message) from any other thrown value
  (\<open>error instanceof Error\<close>); for the latter only its \<open>String(...)\<close> rendering is kept.
\<close>

datatype thrown = JsError (message: string) | NonError (rendered: string)

text \<open>
  The result of \<open>JSON.parse\<close>. A number is a real here: \<open>JSON.parse\<close> never yields
  NaN, and an overflowing literal (plus or minus Infinity) is clamped by the code exactly
  as any number beyond 0-100 is. An object is the list of its own properties.
  \<open>undefined\<close> (an absent property) is \<open>None\<close> of \<open>json option\<close>.
\<close>

datatype json =
    JNull
  | JBool bool
  | JNum real
  | JStr string
  | JArr "json list"
  | JObj "(string \<times> json) list"

text \<open>Property read \<open>v.k\<close>: a TypeError on \<open>null\<close>, \<open>undefined\<close> where \<open>v\<close> has no such property.\<close>

definition typeErrorNull :: thrown where
  "typeErrorNull = JsError ''Cannot read properties of null''"

fun getProp :: "json \<Rightarrow> string \<Rightarrow> thrown + json option" where
  "getProp JNull k = Inl typeErrorNull"
| "getProp (JObj kvs) k = Inr (map_of kvs k)"
| "getProp v k = Inr None"

text \<open>Optional chaining \<open>v?.k\<close> on a value that may be \<open>undefined\<close> or \<open>null\<close>.\<close>

fun getPropOpt :: "json option \<Rightarrow> string \<Rightarrow> json option" where
  "getPropOpt None k = None"
| "getPropOpt (Some JNull) k = None"
| "getPropOpt (Some (JObj kvs)) k = map_of kvs k"
| "getPropOpt (Some v) k = None"

text \<open>Truthiness, as \<open>||\<close>, \<open>&&\<close>, \<open>!\<close> and \<open>if\<close> test it.\<close>

fun truthy :: "json option \<Rightarrow> bool" where
  "truthy None = False"
| "truthy (Some JNull) = False"
| "truthy (Some (JBool b)) = b"
| "truthy (Some (JNum x)) = (x \<noteq> 0)"
| "truthy (Some (JStr s)) = (s \<noteq> [])"
| "truthy (Some (JArr xs)) = True"
| "truthy (Some (JObj kvs)) = True"

text \<open>
  \<open>raw.match(/\{[\s\S]*\}/)\<close>: the match starts at the first opening brace and, the star
  being greedy over every character, ends at the last closing brace after it; there is no
  match when the text has no opening brace or no closing brace after the first opening one.
\<close>

definition matchBraces :: "string \<Rightarrow> string option" where
  "matchBraces raw =
     (case dropWhile (\<lambda>c. c \<noteq> CHR ''{'') raw of
        [] \<Rightarrow> None
      | c # rest \<Rightarrow>
          (case dropWhile (\<lambda>d. d \<noteq> CHR ''}'') (rev rest) of
             [] \<Rightarrow> None
           | d # ds \<Rightarrow> Some (c # rev (d # ds))))"

text \<open>
  What the JavaScript runtime contributes: when the callback of \<open>setTimeout(f, delay)\<close>
  runs (milliseconds after the call, if the timer is not cleared before), and how numbers
  are rendered in template strings and by \<open>toFixed\<close>.
\<close>

record runtime =
  timerFiresAt :: "nat \<Rightarrow> nat"
  numToString :: "nat \<Rightarrow> string"
  toFixed0 :: "nat \<Rightarrow> string"
  toFixed1 :: "nat \<Rightarrow> string"

section \<open>Data model (types/oracles.ts)\<close>

text \<open>
  Of each interface the fields that the modelled code reads or writes are kept. A
  repository or an idea is what an oracle returns or what the code casts, unchecked, from
  the output of \<open>JSON.parse\<close>. A field on which the modelled code calls a method
  (\<open>topics.join\<close>, \<open>coreFeatures.map\<close>, \<open>dependencies.join\<close>) is therefore kept as the value
  found there, \<open>undefined\<close> being \<open>None\<close>: the call throws when that value is no array.
  The other fields are only written into texts, which no parsed value makes throw.
\<close>

datatype IdeaStrategy = Adjacent | Complementary | Abstraction | Inverse | Transfer | Niche

record TrendingRepo =
  url :: string
  name :: string
  owner :: string
  description :: string
  topics :: "json option"

record GeneratedIdea =
  name :: string
  tagline :: string
  description :: string
  originalRepo :: string
  strategy :: IdeaStrategy
  dependencies :: "json option"
  coreFeatures :: "json option"
  mvpDefinition :: string

section \<open>Verdicts of the judge\<close>

datatype level = LNone | Low | Medium | High

record axes =
  problemDivergence :: level
  technicalNovelty :: level
  audienceShift :: level
  addedValue :: level
  runnability :: level

record JudgeVerdict =
  approved :: bool
  differentiationScore :: real
  axes :: axes
  reasoning :: json
  suggestions :: "json list"

section \<open>The coding-agent service (PiAgent.execute)\<close>

text \<open>
  The instructions of a task are a template text filled with the values below; the
  collaborator sees these values only through that text.
\<close>

datatype prompt =
    JudgePrompt GeneratedIdea TrendingRepo
  | RegeneratePrompt string TrendingRepo "(GeneratedIdea \<times> JudgeVerdict) list"

record PiTask =
  task :: string
  instructions :: prompt
  timeout :: nat

record PiResult =
  success :: bool
  exitCode :: nat
  outputText :: string
  errors :: "string list"

text \<open>
  \<open>outputText\<close> is the field \<open>output\<close> of the result (which \<open>execute\<close> always sets);
  of the errors only the messages are kept, and the duration is left out. The tasks of the
  modelled callers set \<open>timeout\<close> and no \<open>timeLimit\<close>.

  What happens inside \<open>execute\<close> once the session is asked: creating the session throws;
  the prompt, or a later call on the session, throws after some text was streamed; the
  task's own timeout wins the race (and aborting and disposing of the session returns or
  throws); or the prompt completes, the agent state holding an error text or none.
\<close>

datatype session_run =
    CreateThrows thrown
  | PromptThrows string thrown
  | PromptTimesOut string "thrown option"
  | PromptDone string "string option"

fun errorText :: "thrown \<Rightarrow> string" where
  "errorText (JsError m) = m"
| "errorText (NonError r) = r"

definition timeoutMs :: "PiTask \<Rightarrow> nat" where
  "timeoutMs t = (if timeout t \<noteq> 0 then timeout t else 3600000)"

fun execute :: "runtime \<Rightarrow> PiTask \<Rightarrow> session_run \<Rightarrow> PiResult" where
  "execute rt t (CreateThrows e) =
     \<lparr>success = False, exitCode = 1, outputText = [], errors = [errorText e]\<rparr>"
| "execute rt t (PromptThrows out e) =
     \<lparr>success = False, exitCode = 1, outputText = out, errors = [errorText e]\<rparr>"
| "execute rt t (PromptTimesOut out None) =
     \<lparr>success = False, exitCode = 124, outputText = out,
      errors = [''Task timed out after '' @ toFixed0 rt (timeoutMs t) @ ''s'']\<rparr>"
| "execute rt t (PromptTimesOut out (Some e)) =
     \<lparr>success = False, exitCode = 1, outputText = out, errors = [errorText e]\<rparr>"
| "execute rt t (PromptDone out agentError) =
     (let errs = (case agentError of
                    None \<Rightarrow> []
                  | Some m \<Rightarrow> if m \<noteq> [] then [m] else [])
      in \<lparr>success = (length errs = 0),
          exitCode = (if length errs = 0 then 0 else 1),
          outputText = out, errors = errs\<rparr>)"

section \<open>The idea judge (oracles/idea-judge.ts)\<close>

definition MIN_DIFFERENTIATION_SCORE :: real where
  "MIN_DIFFERENTIATION_SCORE = 50"

definition MIN_STRONG_AXES :: nat where
  "MIN_STRONG_AXES = 2"

definition emDash :: string where
  "emDash = [CHR 0xE2, CHR 0x80, CHR 0x94]"

definition failedVerdict :: "string \<Rightarrow> JudgeVerdict" where
  "failedVerdict reason =
     \<lparr>approved = False, differentiationScore = 0,
      axes = \<lparr>problemDivergence = LNone, technicalNovelty = LNone, audienceShift = LNone,
              addedValue = LNone, runnability = LNone\<rparr>,
      reasoning = JStr reason, suggestions = []\<rparr>"

fun parseLevel :: "json option \<Rightarrow> level" where
  "parseLevel (Some (JStr s)) =
     (if s = ''none'' then LNone
      else if s = ''low'' then Low
      else if s = ''medium'' then Medium
      else if s = ''high'' then High
      else LNone)"
| "parseLevel v = LNone"

definition axisValues :: "axes \<Rightarrow> level list" where
  "axisValues a =
     [problemDivergence a, technicalNovelty a, audienceShift a, addedValue a, runnability a]"

definition strongAxes :: "axes \<Rightarrow> nat" where
  "strongAxes a = length (filter (\<lambda>v. v = Medium \<or> v = High) (axisValues a))"

definition runnabilityBonus :: "axes \<Rightarrow> real" where
  "runnabilityBonus a =
     (if runnability a = High then 10 else if runnability a = Medium then 5 else 0)"

text \<open>
  Comparing the sum below with 50 comes out the same in double precision: rounding is
  monotone and 50 is a double, and a sum below 50 of a score of at least 32 lies in the
  binade of the score, so it is exact.
\<close>

definition adjustedScore :: "real \<Rightarrow> axes \<Rightarrow> real" where
  "adjustedScore score a = min 100 (score + runnabilityBonus a)"

fun clampScore :: "json option \<Rightarrow> real" where
  "clampScore (Some (JNum x)) = max 0 (min 100 x)"
| "clampScore v = 0"

fun suggestionList :: "json option \<Rightarrow> json list" where
  "suggestionList (Some (JArr xs)) = xs"
| "suggestionList v = []"

text \<open>
  The statements of \<open>parseVerdict\<close> after \<open>JSON.parse\<close> has returned \<open>parsed\<close>. The first
  property read throws a TypeError when \<open>parsed\<close> is \<open>null\<close>; the other reads are of the
  same value and cannot throw after it.
\<close>

definition verdictOf :: "json \<Rightarrow> thrown + JudgeVerdict" where
  "verdictOf parsed =
     (case getProp parsed ''differentiationScore'' of
        Inl e \<Rightarrow> Inl e
      | Inr rawScore \<Rightarrow>
          (let score = clampScore rawScore;
               parsedAxes = getPropOpt (Some parsed) ''axes'';
               ax = \<lparr>problemDivergence = parseLevel (getPropOpt parsedAxes ''problemDivergence''),
                     technicalNovelty = parseLevel (getPropOpt parsedAxes ''technicalNovelty''),
                     audienceShift = parseLevel (getPropOpt parsedAxes ''audienceShift''),
                     addedValue = parseLevel (getPropOpt parsedAxes ''addedValue''),
                     runnability = parseLevel (getPropOpt parsedAxes ''runnability'')\<rparr>;
               isApproved = (adjustedScore score ax \<ge> MIN_DIFFERENTIATION_SCORE
                             \<and> strongAxes ax \<ge> MIN_STRONG_AXES);
               parsedReasoning = getPropOpt (Some parsed) ''reasoning''
           in Inr \<lparr>approved = isApproved, differentiationScore = score, axes = ax,
                   reasoning = (case parsedReasoning of
                                  Some r \<Rightarrow> if truthy parsedReasoning then r
                                            else JStr ''No reasoning provided''
                                | None \<Rightarrow> JStr ''No reasoning provided''),
                   suggestions = suggestionList (getPropOpt (Some parsed) ''suggestions'')\<rparr>))"

text \<open>
  \<open>parseVerdict\<close>: the body of the \<open>try\<close> block and its \<open>catch\<close>. \<open>jsonParse\<close> is
  \<open>JSON.parse\<close>, \<open>None\<close> where it throws a SyntaxError.
\<close>

definition parseVerdictTry :: "(string \<Rightarrow> json option) \<Rightarrow> string \<Rightarrow> thrown + JudgeVerdict" where
  "parseVerdictTry jsonParse raw =
     (case matchBraces raw of
        None \<Rightarrow> Inr (failedVerdict ''Could not parse LLM response'')
      | Some jsonMatch \<Rightarrow>
          (case jsonParse jsonMatch of
             None \<Rightarrow> Inl (JsError ''Unexpected token in JSON'')
           | Some parsed \<Rightarrow> verdictOf parsed))"

definition parseVerdict :: "(string \<Rightarrow> json option) \<Rightarrow> string \<Rightarrow> JudgeVerdict" where
  "parseVerdict jsonParse raw =
     (case parseVerdictTry jsonParse raw of
        Inr verdict \<Rightarrow> verdict
      | Inl e \<Rightarrow> failedVerdict ''JSON parse error'')"

text \<open>
  A method call \<open>v.map(...)\<close> or \<open>v.join(...)\<close>: a TypeError when \<open>v\<close> is \<open>undefined\<close> or
  \<open>null\<close>, and when \<open>v\<close> has no such method. Of the values that \<open>JSON.parse\<close> yields only
  an array has one, and no property of a parsed object is a function.
\<close>

definition typeErrorUndefined :: thrown where
  "typeErrorUndefined = JsError ''Cannot read properties of undefined''"

definition typeErrorNotFunction :: thrown where
  "typeErrorNotFunction = JsError ''is not a function''"

fun arrayReceiver :: "json option \<Rightarrow> thrown + json list" where
  "arrayReceiver None = Inl typeErrorUndefined"
| "arrayReceiver (Some JNull) = Inl typeErrorNull"
| "arrayReceiver (Some (JArr xs)) = Inr xs"
| "arrayReceiver (Some v) = Inl typeErrorNotFunction"

text \<open>
  The callback of \<open>coreFeatures.map\<close> reads \<open>f.name\<close> and \<open>f.description\<close> of each element
  in turn; \<open>featureTexts\<close> gives the values read, or the first error.
\<close>

fun featureTexts :: "json list \<Rightarrow> thrown + (json option \<times> json option) list" where
  "featureTexts [] = Inr []"
| "featureTexts (f # fs) =
     (case getProp f ''name'' of
        Inl e \<Rightarrow> Inl e
      | Inr featureName \<Rightarrow>
          (case getProp f ''description'' of
             Inl e \<Rightarrow> Inl e
           | Inr featureDescription \<Rightarrow>
               (case featureTexts fs of
                  Inl e \<Rightarrow> Inl e
                | Inr texts \<Rightarrow> Inr ((featureName, featureDescription) # texts))))"

text \<open>
  \<open>buildJudgePrompt\<close>: the template is filled from top to bottom, so the repository's
  topics are joined first, then the core features are mapped, then the dependencies are
  joined. Joining an array of parsed values does not throw.
\<close>

definition buildJudgePrompt :: "GeneratedIdea \<Rightarrow> TrendingRepo \<Rightarrow> thrown + prompt" where
  "buildJudgePrompt idea source =
     (case arrayReceiver (topics source) of
        Inl e \<Rightarrow> Inl e
      | Inr sourceTopics \<Rightarrow>
          (case arrayReceiver (coreFeatures idea) of
             Inl e \<Rightarrow> Inl e
           | Inr features \<Rightarrow>
               (case featureTexts features of
                  Inl e \<Rightarrow> Inl e
                | Inr texts \<Rightarrow>
                    (case arrayReceiver (dependencies idea) of
                       Inl e \<Rightarrow> Inl e
                     | Inr deps \<Rightarrow> Inr (JudgePrompt idea source)))))"

text \<open>
  The collaborators of the judge: \<open>JSON.parse\<close>, the runtime, and what the agent session
  does on the \<open>n\<close>th call with a given task.
\<close>

record judgeEnv =
  jsonParse :: "string \<Rightarrow> json option"
  jsRuntime :: runtime
  session :: "nat \<Rightarrow> PiTask \<Rightarrow> session_run"

definition judgeTask :: "prompt \<Rightarrow> PiTask" where
  "judgeTask judgePrompt =
     \<lparr>task = ''judge-idea-differentiation'',
      instructions = judgePrompt,
      timeout = 60000\<rparr>"

text \<open>
  \<open>judge\<close>, as the \<open>n\<close>th call of the collaborator. The left summand is a rejection of
  its promise: the prompt is built outside any \<open>try\<close>, so an error of building it leaves
  \<open>judge\<close> before the collaborator is called. \<open>execute\<close> catches every error of the
  session itself and always resolves.
\<close>

definition judge :: "judgeEnv \<Rightarrow> nat \<Rightarrow> GeneratedIdea \<Rightarrow> TrendingRepo \<Rightarrow> thrown + JudgeVerdict" where
  "judge env n idea sourceRepo =
     (case buildJudgePrompt idea sourceRepo of
        Inl e \<Rightarrow> Inl e
      | Inr judgePrompt \<Rightarrow>
          (let t = judgeTask judgePrompt;
               result = execute (jsRuntime env) t (session env n t)
           in if \<not> PiResult.success result \<or> outputText result = []
              then Inr (failedVerdict
                     (''LLM evaluation failed '' @ emDash @ '' erring on the side of rejection''))
              else Inr (parseVerdict (jsonParse env) (outputText result))))"

text \<open>
  \<open>filterIdeas\<close>: the loop over the ideas, in order. Besides the two lists that the code
  returns, \<open>judged\<close> records the \<open>judge\<close> calls that returned. The collaborator calls are
  numbered from \<open>n0\<close>, the number of calls this judge has made before. The \<open>await\<close> of
  \<open>judge\<close> is in no \<open>try\<close>: a rejection of \<open>judge\<close> rejects \<open>filterIdeas\<close>.
\<close>

record FilterResult =
  approved :: "GeneratedIdea list"
  rejected :: "(GeneratedIdea \<times> JudgeVerdict) list"
  judged :: "(GeneratedIdea \<times> TrendingRepo) list"

fun filterLoop :: "judgeEnv \<Rightarrow> nat \<Rightarrow> (string \<rightharpoonup> TrendingRepo) \<Rightarrow> GeneratedIdea list
    \<Rightarrow> FilterResult \<Rightarrow> thrown + FilterResult" where
  "filterLoop env n0 sourceRepos [] acc = Inr acc"
| "filterLoop env n0 sourceRepos (idea # rest) acc =
     (case sourceRepos (originalRepo idea) of
        None \<Rightarrow> filterLoop env n0 sourceRepos rest (acc\<lparr>approved := approved acc @ [idea]\<rparr>)
      | Some repo \<Rightarrow>
          (case judge env (n0 + length (judged acc)) idea repo of
             Inl e \<Rightarrow> Inl e
           | Inr verdict \<Rightarrow>
               (let acc1 = acc\<lparr>judged := judged acc @ [(idea, repo)]\<rparr>
                in if JudgeVerdict.approved verdict
                   then filterLoop env n0 sourceRepos rest
                          (acc1\<lparr>approved := approved acc1 @ [idea]\<rparr>)
                   else filterLoop env n0 sourceRepos rest
                          (acc1\<lparr>rejected := rejected acc1 @ [(idea, verdict)]\<rparr>))))"

definition filterIdeas :: "judgeEnv \<Rightarrow> nat \<Rightarrow> GeneratedIdea list \<Rightarrow> (string \<rightharpoonup> TrendingRepo)
    \<Rightarrow> thrown + FilterResult" where
  "filterIdeas env n0 ideas sourceRepos =
     filterLoop env n0 sourceRepos ideas \<lparr>approved = [], rejected = [], judged = []\<rparr>"

section \<open>The time budget (utils/time-budget.ts)\<close>

text \<open>
  The operation \<open>fn\<close> handed to \<open>TimeBudget.run\<close>, as far as the race sees it: its promise
  settles some milliseconds after the start, fulfilled with a value or rejected with an
  error, or it never settles.
\<close>

datatype 'a behaviour = Settles nat "thrown + 'a" | NeverSettles

text \<open>
  The promise that \<open>run\<close> returns, and the timer. A promise settles once: \<open>resolve\<close> and
  \<open>reject\<close> on a settled promise do nothing. A cleared timer does not run its callback.
\<close>

datatype 'a promise = Pending | Fulfilled 'a | Rejected thrown

record 'a race =
  promise :: "'a promise"
  timerArmed :: bool

definition resolve :: "'a \<Rightarrow> 'a race \<Rightarrow> 'a race" where
  "resolve v r = (if promise r = Pending then r\<lparr>promise := Fulfilled v\<rparr> else r)"

definition reject :: "thrown \<Rightarrow> 'a race \<Rightarrow> 'a race" where
  "reject e r = (if promise r = Pending then r\<lparr>promise := Rejected e\<rparr> else r)"

definition clearTimeout :: "'a race \<Rightarrow> 'a race" where
  "clearTimeout r = r\<lparr>timerArmed := False\<rparr>"

definition dquote :: string where
  "dquote = [CHR 0x22]"

text \<open>The error of the timer callback; \<open>elapsed\<close> is the clock reading, in milliseconds.\<close>

definition timeoutError :: "runtime \<Rightarrow> string \<Rightarrow> nat \<Rightarrow> nat \<Rightarrow> thrown" where
  "timeoutError rt label elapsed budgetSeconds =
     JsError (''TimeBudget exceeded for '' @ dquote @ label @ dquote @ '': ''
              @ toFixed1 rt elapsed @ ''s / '' @ numToString rt budgetSeconds @ ''s'')"

text \<open>
  The three callbacks that \<open>run\<close> registers: the one of \<open>setTimeout\<close>, and the \<open>then\<close> and
  \<open>catch\<close> handlers on \<open>fn()\<close>.
\<close>

datatype 'a callback = TimerCallback nat | ThenCallback 'a | CatchCallback thrown

fun runCallback :: "runtime \<Rightarrow> string \<Rightarrow> nat \<Rightarrow> 'a callback \<Rightarrow> 'a race \<Rightarrow> 'a race" where
  "runCallback rt label budgetSeconds (TimerCallback elapsed) r =
     (if timerArmed r then reject (timeoutError rt label elapsed budgetSeconds) r else r)"
| "runCallback rt label budgetSeconds (ThenCallback result) r = resolve result (clearTimeout r)"
| "runCallback rt label budgetSeconds (CatchCallback error) r = reject error (clearTimeout r)"

text \<open>
  The order in which the event loop reaches the callbacks. The timer is set for
  \<open>budgetSeconds * 1000\<close> milliseconds and its callback is due at \<open>timerFiresAt\<close> of that
  delay; a handler of \<open>fn()\<close> is due when \<open>fn\<close> settles, and at equal times the timer, which
  was registered first, comes first.
\<close>

definition callbacks :: "runtime \<Rightarrow> nat \<Rightarrow> 'a behaviour \<Rightarrow> 'a callback list" where
  "callbacks rt budgetSeconds fn =
     (let fires = timerFiresAt rt (budgetSeconds * 1000)
      in case fn of
           NeverSettles \<Rightarrow> [TimerCallback fires]
         | Settles t outcome \<Rightarrow>
             (let handler = (case outcome of Inr v \<Rightarrow> ThenCallback v | Inl e \<Rightarrow> CatchCallback e)
              in if t < fires then [handler, TimerCallback fires]
                 else [TimerCallback fires, handler]))"

definition TimeBudget_run :: "runtime \<Rightarrow> string \<Rightarrow> nat \<Rightarrow> 'a behaviour \<Rightarrow> 'a promise" where
  "TimeBudget_run rt label budgetSeconds fn =
     promise (foldl (\<lambda>r cb. runCallback rt label budgetSeconds cb r)
                \<lparr>promise = Pending, timerArmed = True\<rparr>
                (callbacks rt budgetSeconds fn))"

text \<open>
  \<open>await TimeBudget.run(...)\<close>: the value, or the error thrown at the \<open>await\<close>. An
  \<open>await\<close> of a pending promise does not return; the promise of \<open>run\<close> is never left
  pending (\<open>TimeBudget_run_settles\<close> below), so the last case does not arise.
\<close>

definition awaitBudget :: "runtime \<Rightarrow> string \<Rightarrow> nat \<Rightarrow> 'a behaviour \<Rightarrow> thrown + 'a" where
  "awaitBudget rt label budgetSeconds fn =
     (case TimeBudget_run rt label budgetSeconds fn of
        Fulfilled v \<Rightarrow> Inr v
      | Rejected e \<Rightarrow> Inl e
      | Pending \<Rightarrow> Inl (JsError ''pending''))"

section \<open>Results and pipeline state (types/oracles.ts, types/results.ts)\<close>

datatype Period = Daily | Weekly | Monthly

record ScoutOptions =
  period :: Period
  language :: "string list option"
  minStars :: "nat option"

datatype Recommendation = SHIP | PIVOT | ABORT

record ResearchReport =
  recommendation :: Recommendation
  visitedUrls :: "string list"

datatype ImplementationStatus = Complete | Partial | Failed

record ImplementationResult =
  status :: ImplementationStatus
  repoPath :: string

record DeploymentResult =
  success :: bool
  repoUrl :: string
  errors :: "string list"

record TweetResult =
  success :: bool
  tweetUrl :: "string option"

record ErrorRecord =
  phase :: string
  error :: string
  timestamp :: nat

record OrchestratorState =
  runId :: string
  startTime :: nat
  trends :: "TrendingRepo list option"
  ideas :: "GeneratedIdea list option"
  selectedIdea :: "GeneratedIdea option"
  research :: "ResearchReport option"
  implementation :: "ImplementationResult option"
  deployment :: "DeploymentResult option"
  announcement :: "TweetResult option"
  currentPhase :: string
  errors :: "ErrorRecord list"

record RunResult =
  success :: bool
  idea :: "GeneratedIdea option"
  repoUrl :: "string option"
  tweetUrl :: "string option"
  totalTime :: real
  state :: OrchestratorState
  error :: "string option"

section \<open>State persistence (utils/state-manager.ts)\<close>

text \<open>
  What the file system and \<open>JSON.stringify\<close> do during one \<open>save\<close>: each of \<open>fs.mkdir\<close>,
  \<open>JSON.stringify\<close> and \<open>fs.writeFile\<close> returns or throws. The snapshot file holds the
  serialised state; the model keeps the state itself. A file is named by its path below
  the working directory.
\<close>

record fsRun =
  mkdirThrows :: "thrown option"
  stringifyThrows :: "thrown option"
  writeFileThrows :: "thrown option"

datatype logLine = LogDebug string | LogWarn string | LogError string thrown

type_synonym disk = "string \<rightharpoonup> OrchestratorState"

definition stateFile :: "string \<Rightarrow> string" where
  "stateFile rid = ''logs/state-'' @ rid @ ''.json''"

text \<open>The body of the \<open>try\<close> block of \<open>save\<close>.\<close>

definition saveTry :: "fsRun \<Rightarrow> string \<Rightarrow> OrchestratorState \<Rightarrow> disk \<Rightarrow> thrown + disk" where
  "saveTry run file st d =
     (case mkdirThrows run of
        Some e \<Rightarrow> Inl e
      | None \<Rightarrow>
          (case stringifyThrows run of
             Some e \<Rightarrow> Inl e
           | None \<Rightarrow>
               (case writeFileThrows run of
                  Some e \<Rightarrow> Inl e
                | None \<Rightarrow> Inr (d(file \<mapsto> st)))))"

text \<open>
  \<open>save\<close>: the left summand is a rejection of its promise; the function yields the disk
  and the line it logs.
\<close>

definition StateManager_save :: "fsRun \<Rightarrow> string \<Rightarrow> OrchestratorState \<Rightarrow> disk
    \<Rightarrow> thrown + (disk \<times> logLine)" where
  "StateManager_save run file st d =
     (case saveTry run file st d of
        Inr d1 \<Rightarrow> Inr (d1, LogDebug (''State saved to '' @ file))
      | Inl e \<Rightarrow> Inr (d, LogError ''Failed to save state'' e))"

section \<open>Configuration (utils/config.ts)\<close>

record SystemConfig =
  dryRun :: bool
  skipGithub :: bool
  skipTwitter :: bool

record TimeBudgets =
  trendScout :: nat
  ideaGenerator :: nat
  ideaJudge :: nat
  researcher :: nat
  implementer :: nat
  deployer :: nat
  announcer :: nat

definition timeBudgets :: TimeBudgets where
  "timeBudgets = \<lparr>trendScout = 900, ideaGenerator = 1200, ideaJudge = 600, researcher = 1800,
     implementer = 28800, deployer = 1200, announcer = 600\<rparr>"

section \<open>The orchestrator (orchestrator.ts)\<close>

text \<open>
  The collaborators of a run. The oracles are named as the orchestrator's members are;
  each call of an oracle is given by how the returned promise behaves. The \<open>n\<close>th
  \<open>research\<close> call and the \<open>n\<close>th session of an agent may differ from the earlier ones.
  \<open>filterSettles\<close> is the time after which \<open>filterIdeas\<close> settles in a round, \<open>castIdea\<close>
  gives the fields of a parsed object that are only written into texts (the cast of the
  code checks nothing), \<open>fs\<close> is the file system during the \<open>n\<close>th save and \<open>dateNow\<close> the
  clock when the run ends. The runtime is that of the judge.
\<close>

record env =
  system :: SystemConfig
  trendScout :: "ScoutOptions \<Rightarrow> TrendingRepo list behaviour"
  ideaGenerator :: "TrendingRepo list option \<Rightarrow> GeneratedIdea list behaviour"
  ideaJudge :: judgeEnv
  filterSettles :: "nat \<Rightarrow> nat"
  regenSession :: "nat \<Rightarrow> PiTask \<Rightarrow> session_run"
  castIdea :: "json \<Rightarrow> GeneratedIdea"
  researcher :: "nat \<Rightarrow> GeneratedIdea \<Rightarrow> ResearchReport behaviour"
  implementer :: "GeneratedIdea option \<Rightarrow> ResearchReport option \<Rightarrow> ImplementationResult behaviour"
  deployer :: "ImplementationResult option \<Rightarrow> GeneratedIdea option \<Rightarrow> DeploymentResult behaviour"
  announcer :: "DeploymentResult option \<Rightarrow> GeneratedIdea option \<Rightarrow> ImplementationResult option
                \<Rightarrow> TweetResult behaviour"
  fs :: "nat \<Rightarrow> fsRun"
  dateNow :: nat

text \<open>
  What a run leaves behind besides its state: the trace of phase banners, oracle calls,
  saves and log lines, in order, and the disk. Of the log lines the warnings of the
  phases and the line of each save are kept. An oracle call is traced when it is made;
  what an operation abandoned by its time budget does later is not.
\<close>

datatype event =
    PhaseStarted string
  | ScoutCalled ScoutOptions
  | GenerateCalled "TrendingRepo list option"
  | FilterCalled nat "GeneratedIdea list option"
  | RegenerateCalled "(GeneratedIdea \<times> JudgeVerdict) list"
  | ResearchCalled GeneratedIdea
  | ImplementCalled "GeneratedIdea option" "ResearchReport option"
  | DeployCalled "ImplementationResult option" "GeneratedIdea option"
  | AnnounceCalled "DeploymentResult option" "GeneratedIdea option" "ImplementationResult option"
  | SaveCalled OrchestratorState
  | Logged logLine

record world =
  state :: OrchestratorState
  trace :: "event list"
  disk :: disk

text \<open>
  A statement either completes in a new world or throws, in the world it has reached.
\<close>

type_synonym step = "(thrown \<times> world) + world"

fun block :: "(world \<Rightarrow> step) list \<Rightarrow> world \<Rightarrow> step" where
  "block [] w = Inr w"
| "block (s # ss) w = (case s w of Inl x \<Rightarrow> Inl x | Inr w1 \<Rightarrow> block ss w1)"

definition newOrchestrator :: "string \<Rightarrow> nat \<Rightarrow> world" where
  "newOrchestrator rid now =
     \<lparr>state = \<lparr>runId = rid, startTime = now, trends = None, ideas = None,
                selectedIdea = None, research = None, implementation = None,
                deployment = None, announcement = None,
                currentPhase = ''initialization'', errors = []\<rparr>,
      trace = [], disk = Map.empty\<rparr>"

definition enterPhase :: "string \<Rightarrow> world \<Rightarrow> world" where
  "enterPhase tag w =
     w\<lparr>state := (state w)\<lparr>currentPhase := tag\<rparr>, trace := trace w @ [PhaseStarted tag]\<rparr>"

definition record_event :: "event \<Rightarrow> world \<Rightarrow> world" where
  "record_event ev w = w\<lparr>trace := trace w @ [ev]\<rparr>"

definition typeErrorNotIterable :: thrown where
  "typeErrorNotIterable = JsError ''undefined is not iterable''"

definition saveCount :: "event list \<Rightarrow> nat" where
  "saveCount tr = length (filter (\<lambda>ev. case ev of SaveCalled st \<Rightarrow> True | _ \<Rightarrow> False) tr)"

definition saveState :: "env \<Rightarrow> world \<Rightarrow> step" where
  "saveState env w =
     (let st = world.state w;
          w1 = record_event (SaveCalled st) w
      in case StateManager_save (fs env (saveCount (trace w))) (stateFile (runId st)) st (disk w) of
           Inl e \<Rightarrow> Inl (e, w1)
         | Inr (d, line) \<Rightarrow> Inr (record_event (Logged line) (w1\<lparr>disk := d\<rparr>)))"

definition phase1_ScoutTrends :: "env \<Rightarrow> world \<Rightarrow> step" where
  "phase1_ScoutTrends env w =
     (let options = \<lparr>period = Daily, language = Some [''TypeScript'', ''JavaScript''],
                     minStars = Some 100\<rparr>;
          w1 = record_event (ScoutCalled options) (enterPhase ''scout-trends'' w)
      in case awaitBudget (jsRuntime (ideaJudge env)) ''scout-trends'' (TimeBudgets.trendScout timeBudgets)
                (trendScout env options) of
           Inl e \<Rightarrow> Inl (e, w1)
         | Inr found \<Rightarrow>
             if length found = 0 then Inl (JsError ''No suitable trends found'', w1)
             else Inr (w1\<lparr>state := (state w1)\<lparr>trends := Some found\<rparr>\<rparr>))"

definition phase2_GenerateIdeas :: "env \<Rightarrow> world \<Rightarrow> step" where
  "phase2_GenerateIdeas env w =
     (let w0 = enterPhase ''generate-ideas'' w;
          w1 = record_event (GenerateCalled (trends (state w0))) w0
      in case awaitBudget (jsRuntime (ideaJudge env)) ''generate-ideas''
                (TimeBudgets.ideaGenerator timeBudgets)
                (ideaGenerator env (trends (state w0))) of
           Inl e \<Rightarrow> Inl (e, w1)
         | Inr allIdeas \<Rightarrow>
             if length allIdeas = 0 then Inl (JsError ''No viable ideas generated'', w1)
             else Inr (w1\<lparr>state := (state w1)\<lparr>ideas := Some allIdeas\<rparr>\<rparr>))"

text \<open>
  \<open>regenerateFromFeedback\<close>. The rejections are grouped by source repository, the keys in
  the order of their first occurrence (a \<open>Map\<close> iterates in insertion order).
\<close>

definition groupByRepo :: "(GeneratedIdea \<times> JudgeVerdict) list
    \<Rightarrow> (string \<times> (GeneratedIdea \<times> JudgeVerdict) list) list" where
  "groupByRepo rejections =
     foldl (\<lambda>byRepo entry.
              (let key = originalRepo (fst entry);
                   withKey = (if map_of byRepo key = None then byRepo @ [(key, [])] else byRepo)
               in map (\<lambda>(k, entries). if k = key then (k, entries @ [entry]) else (k, entries))
                    withKey))
           [] rejections"

definition regenerateTask :: "string \<Rightarrow> TrendingRepo \<Rightarrow> (GeneratedIdea \<times> JudgeVerdict) list \<Rightarrow> PiTask" where
  "regenerateTask repoKey repo entries =
     \<lparr>task = ''regenerate-idea-from-feedback'',
      instructions = RegeneratePrompt repoKey repo entries,
      timeout = 60000\<rparr>"

text \<open>
  \<open>JSON.parse(...) as GeneratedIdea\<close>: the object itself, so \<open>dependencies\<close> and
  \<open>coreFeatures\<close> are whatever the object holds there.
\<close>

definition parsedIdea :: "env \<Rightarrow> json \<Rightarrow> GeneratedIdea" where
  "parsedIdea env parsed =
     (castIdea env parsed)\<lparr>dependencies := getPropOpt (Some parsed) ''dependencies'',
                            coreFeatures := getPropOpt (Some parsed) ''coreFeatures''\<rparr>"

text \<open>
  The statements of the \<open>try\<close> block after \<open>pi.execute\<close> has returned: the idea to push, if
  any, or the error thrown.
\<close>

definition regenerateTry :: "env \<Rightarrow> PiResult \<Rightarrow> thrown + GeneratedIdea option" where
  "regenerateTry env result =
     (if PiResult.success result \<and> outputText result \<noteq> [] then
        (case matchBraces (outputText result) of
           None \<Rightarrow> Inr None
         | Some jsonMatch \<Rightarrow>
             (case jsonParse (ideaJudge env) jsonMatch of
                None \<Rightarrow> Inl (JsError ''Unexpected token in JSON'')
              | Some parsed \<Rightarrow>
                  (case getProp parsed ''name'' of
                     Inl e \<Rightarrow> Inl e
                   | Inr parsedName \<Rightarrow>
                       if truthy parsedName
                          \<and> truthy (getPropOpt (Some parsed) ''description'')
                          \<and> truthy (getPropOpt (Some parsed) ''coreFeatures'')
                       then Inr (Some (parsedIdea env parsed))
                       else Inr None)))
      else Inr None)"

fun regenerateLoop :: "env \<Rightarrow> (string \<rightharpoonup> TrendingRepo)
    \<Rightarrow> (string \<times> (GeneratedIdea \<times> JudgeVerdict) list) list \<Rightarrow> nat
    \<Rightarrow> GeneratedIdea list \<Rightarrow> GeneratedIdea list" where
  "regenerateLoop env repoMap [] k improved = improved"
| "regenerateLoop env repoMap ((repoKey, entries) # rest) k improved =
     (case repoMap repoKey of
        None \<Rightarrow> regenerateLoop env repoMap rest k improved
      | Some repo \<Rightarrow>
          (let t = regenerateTask repoKey repo entries;
               result = execute (jsRuntime (ideaJudge env)) t (regenSession env k t)
           in case regenerateTry env result of
                Inr (Some parsed) \<Rightarrow> regenerateLoop env repoMap rest (Suc k) (improved @ [parsed])
              | Inr None \<Rightarrow> regenerateLoop env repoMap rest (Suc k) improved
              | Inl e \<Rightarrow> regenerateLoop env repoMap rest (Suc k) improved))"

definition regenerateFromFeedback :: "env \<Rightarrow> (GeneratedIdea \<times> JudgeVerdict) list
    \<Rightarrow> (string \<rightharpoonup> TrendingRepo) \<Rightarrow> GeneratedIdea list" where
  "regenerateFromFeedback env rejections repoMap =
     regenerateLoop env repoMap (groupByRepo rejections) 0 []"

text \<open>
  \<open>phase2b_JudgeIdeas\<close>. \<open>filterIdeas\<close> is an async function: iterating an undefined idea
  list rejects its promise. \<open>judgeRounds\<close> is the \<open>for\<close> loop from a given round on and the
  \<open>throw\<close> after it; \<open>n0\<close> counts the judge calls of the earlier rounds.
\<close>

definition MAX_ROUNDS :: nat where
  "MAX_ROUNDS = 2"

definition buildRepoMap :: "TrendingRepo list option \<Rightarrow> (string \<rightharpoonup> TrendingRepo)" where
  "buildRepoMap found =
     foldl (\<lambda>repoMap trend. repoMap(owner trend @ ''/'' @ TrendingRepo.name trend \<mapsto> trend))
           Map.empty (case found of None \<Rightarrow> [] | Some ts \<Rightarrow> ts)"

definition filterCall :: "env \<Rightarrow> nat \<Rightarrow> nat \<Rightarrow> GeneratedIdea list option
    \<Rightarrow> (string \<rightharpoonup> TrendingRepo) \<Rightarrow> FilterResult behaviour" where
  "filterCall env roundNo n0 current repoMap =
     Settles (filterSettles env roundNo)
       (case current of
          None \<Rightarrow> Inl typeErrorNotIterable
        | Some xs \<Rightarrow> filterIdeas (ideaJudge env) n0 xs repoMap)"

function judgeRounds :: "env \<Rightarrow> (string \<rightharpoonup> TrendingRepo) \<Rightarrow> nat \<Rightarrow> nat \<Rightarrow> world \<Rightarrow> step" where
  "judgeRounds env repoMap roundNo n0 w =
     (if roundNo < MAX_ROUNDS then
        (let w1 = record_event (FilterCalled roundNo (ideas (world.state w))) w
         in case awaitBudget (jsRuntime (ideaJudge env))
                   (''judge-ideas-round-'' @ numToString (jsRuntime (ideaJudge env)) roundNo)
                   (TimeBudgets.ideaJudge timeBudgets)
                   (filterCall env roundNo n0 (ideas (world.state w)) repoMap) of
              Inl e \<Rightarrow> Inl (e, w1)
            | Inr res \<Rightarrow>
                if length (FilterResult.approved res) > 0
                then Inr (w1\<lparr>state := (world.state w1)\<lparr>ideas := Some (FilterResult.approved res)\<rparr>\<rparr>)
                else if roundNo < MAX_ROUNDS - 1 then
                  (let w2 = record_event (RegenerateCalled (rejected res)) w1;
                       improved = regenerateFromFeedback env (rejected res) repoMap
                   in if length improved > 0
                      then judgeRounds env repoMap (roundNo + 1) (n0 + length (judged res))
                             (w2\<lparr>state := (world.state w2)\<lparr>ideas := Some improved\<rparr>\<rparr>)
                      else judgeRounds env repoMap (roundNo + 1) (n0 + length (judged res)) w2)
                else judgeRounds env repoMap (roundNo + 1) (n0 + length (judged res)) w1)
      else Inl (JsError (''All ideas rejected by the differentiation judge after ''
                         @ numToString (jsRuntime (ideaJudge env)) MAX_ROUNDS @ '' rounds''), w))"
  by pat_completeness auto
termination
  by (relation "measure (\<lambda>(env, repoMap, roundNo, n0, w). MAX_ROUNDS - roundNo)") auto

declare judgeRounds.simps [simp del]

definition phase2b_JudgeIdeas :: "env \<Rightarrow> world \<Rightarrow> step" where
  "phase2b_JudgeIdeas env w =
     (let w1 = enterPhase ''judge-ideas'' w
      in judgeRounds env (buildRepoMap (trends (world.state w1))) 0 0 w1)"

text \<open>
  \<open>phase3_ResearchIdeas\<close>. \<open>researchLoop\<close> is the \<open>for\<close> loop over the remaining ideas,
  the \<open>n\<close>th call of the researcher coming next, and the \<open>throw\<close> after the loop. An error
  of the awaited call is caught inside the loop and only logged.
\<close>

fun researchLoop :: "env \<Rightarrow> nat \<Rightarrow> GeneratedIdea list \<Rightarrow> world \<Rightarrow> step" where
  "researchLoop env n [] w = Inl (JsError ''No shippable ideas after research'', w)"
| "researchLoop env n (candidate # rest) w =
     (let w1 = record_event (ResearchCalled candidate) w
      in case awaitBudget (jsRuntime (ideaJudge env)) (''research-'' @ GeneratedIdea.name candidate)
                (TimeBudgets.researcher timeBudgets) (researcher env n candidate) of
           Inr report \<Rightarrow>
             if recommendation report = SHIP
             then Inr (w1\<lparr>state := (world.state w1)\<lparr>selectedIdea := Some candidate,
                                                    research := Some report\<rparr>\<rparr>)
             else researchLoop env (Suc n) rest w1
         | Inl e \<Rightarrow>
             researchLoop env (Suc n) rest
               (record_event (Logged (LogWarn (''Research failed for ''
                                               @ GeneratedIdea.name candidate))) w1))"

definition phase3_ResearchIdeas :: "env \<Rightarrow> world \<Rightarrow> step" where
  "phase3_ResearchIdeas env w =
     (let w1 = enterPhase ''research'' w
      in case ideas (world.state w1) of
           None \<Rightarrow> Inl (typeErrorNotIterable, w1)
         | Some candidates \<Rightarrow> researchLoop env 0 candidates w1)"

definition phase4_Implement :: "env \<Rightarrow> world \<Rightarrow> step" where
  "phase4_Implement env w =
     (let w0 = enterPhase ''implement'' w;
          w1 = record_event (ImplementCalled (selectedIdea (world.state w0))
                                             (research (world.state w0))) w0
      in case awaitBudget (jsRuntime (ideaJudge env)) ''implement''
                (TimeBudgets.implementer timeBudgets)
                (implementer env (selectedIdea (world.state w0)) (research (world.state w0))) of
           Inl e \<Rightarrow> Inl (e, w1)
         | Inr impl \<Rightarrow>
             if status impl = Failed then Inl (JsError ''Implementation failed'', w1)
             else Inr (w1\<lparr>state := (world.state w1)\<lparr>implementation := Some impl\<rparr>\<rparr>))"

fun joinWith :: "string \<Rightarrow> string list \<Rightarrow> string" where
  "joinWith sep [] = []"
| "joinWith sep [x] = x"
| "joinWith sep (x # y # ys) = x @ sep @ joinWith sep (y # ys)"

definition phase5_Deploy :: "env \<Rightarrow> world \<Rightarrow> step" where
  "phase5_Deploy env w =
     (let w0 = enterPhase ''deploy'' w;
          w1 = record_event (DeployCalled (implementation (world.state w0))
                                          (selectedIdea (world.state w0))) w0
      in case awaitBudget (jsRuntime (ideaJudge env)) ''deploy''
                (TimeBudgets.deployer timeBudgets)
                (deployer env (implementation (world.state w0)) (selectedIdea (world.state w0))) of
           Inl e \<Rightarrow> Inl (e, w1)
         | Inr dep \<Rightarrow>
             if \<not> DeploymentResult.success dep
             then Inl (JsError (''Deployment failed: ''
                                @ joinWith '', '' (DeploymentResult.errors dep)), w1)
             else Inr (w1\<lparr>state := (world.state w1)\<lparr>deployment := Some dep\<rparr>\<rparr>))"

definition phase6_Announce :: "env \<Rightarrow> world \<Rightarrow> step" where
  "phase6_Announce env w =
     (let w0 = enterPhase ''announce'' w;
          w1 = record_event (AnnounceCalled (deployment (world.state w0))
                               (selectedIdea (world.state w0))
                               (implementation (world.state w0))) w0
      in case awaitBudget (jsRuntime (ideaJudge env)) ''announce''
                (TimeBudgets.announcer timeBudgets)
                (announcer env (deployment (world.state w0)) (selectedIdea (world.state w0))
                   (implementation (world.state w0))) of
           Inl e \<Rightarrow> Inl (e, w1)
         | Inr tweet \<Rightarrow>
             (let w2 = w1\<lparr>state := (world.state w1)\<lparr>announcement := Some tweet\<rparr>\<rparr>
              in if TweetResult.success tweet then Inr w2
                 else Inr (record_event (Logged (LogWarn ''Tweet failed (non-fatal)'')) w2)))"

text \<open>\<open>run\<close>: the \<open>try\<close> block, then the two ways out of it.\<close>

definition tryBlock :: "env \<Rightarrow> world \<Rightarrow> step" where
  "tryBlock env =
     block [phase1_ScoutTrends env, saveState env,
            phase2_GenerateIdeas env, saveState env,
            phase2b_JudgeIdeas env, saveState env,
            phase3_ResearchIdeas env, saveState env,
            phase4_Implement env, saveState env,
            (\<lambda>w. if dryRun (system env) then Inr w
                 else block
                   [(\<lambda>w. if skipGithub (system env) then Inr w
                         else block [phase5_Deploy env, saveState env] w),
                    (\<lambda>w. if skipTwitter (system env) then Inr w
                         else block [phase6_Announce env, saveState env] w)] w)]"

fun thrownMessage :: "thrown \<Rightarrow> string" where
  "thrownMessage (JsError m) = m"
| "thrownMessage (NonError r) = ''Unknown error''"

definition elapsedSeconds :: "env \<Rightarrow> OrchestratorState \<Rightarrow> real" where
  "elapsedSeconds env st = (real (dateNow env) - real (startTime st)) / 1000"

definition run :: "env \<Rightarrow> world \<Rightarrow> thrown + (RunResult \<times> world)" where
  "run env w =
     (case tryBlock env w of
        Inr w1 \<Rightarrow>
          Inr (\<lparr>RunResult.success = True,
                idea = selectedIdea (world.state w1),
                repoUrl = map_option DeploymentResult.repoUrl (deployment (world.state w1)),
                tweetUrl = Option.bind (announcement (world.state w1)) TweetResult.tweetUrl,
                totalTime = elapsedSeconds env (world.state w1),
                state = world.state w1,
                error = None\<rparr>, w1)
      | Inl (e, w1) \<Rightarrow>
          (let msg = thrownMessage e;
               st = (world.state w1)\<lparr>errors := OrchestratorState.errors (world.state w1)
                      @ [\<lparr>phase = currentPhase (world.state w1), error = msg,
                          timestamp = dateNow env\<rparr>]\<rparr>
           in case saveState env (w1\<lparr>state := st\<rparr>) of
                Inl (e2, w2) \<Rightarrow> Inl e2
              | Inr w2 \<Rightarrow>
                  Inr (\<lparr>RunResult.success = False, idea = None, repoUrl = None, tweetUrl = None,
                        totalTime = elapsedSeconds env (world.state w2),
                        state = world.state w2,
                        error = Some msg\<rparr>, w2)))"

section \<open>Reading a trace\<close>

text \<open>
  The phases entered, in order; the phase that an event belongs to (a save and a log line
  belong to none); the world a statement ends in, whether it completes or throws; and the
  phases of \<open>run\<close> under a configuration, each with its tag, in the order of the \<open>try\<close> block.
\<close>

fun startedPhases :: "event list \<Rightarrow> string list" where
  "startedPhases [] = []"
| "startedPhases (PhaseStarted tag # evs) = tag # startedPhases evs"
| "startedPhases (ev # evs) = startedPhases evs"

fun eventPhase :: "event \<Rightarrow> string option" where
  "eventPhase (PhaseStarted tag) = Some tag"
| "eventPhase (ScoutCalled options) = Some ''scout-trends''"
| "eventPhase (GenerateCalled found) = Some ''generate-ideas''"
| "eventPhase (FilterCalled roundNo current) = Some ''judge-ideas''"
| "eventPhase (RegenerateCalled rejections) = Some ''judge-ideas''"
| "eventPhase (ResearchCalled candidate) = Some ''research''"
| "eventPhase (ImplementCalled chosen report) = Some ''implement''"
| "eventPhase (DeployCalled impl chosen) = Some ''deploy''"
| "eventPhase (AnnounceCalled dep chosen impl) = Some ''announce''"
| "eventPhase (SaveCalled st) = None"
| "eventPhase (Logged line) = None"

fun worldOf :: "step \<Rightarrow> world" where
  "worldOf (Inl (e, w)) = w"
| "worldOf (Inr w) = w"

definition pipeline :: "env \<Rightarrow> (string \<times> (world \<Rightarrow> step)) list" where
  "pipeline env =
     [(''scout-trends'', phase1_ScoutTrends env),
      (''generate-ideas'', phase2_GenerateIdeas env),
      (''judge-ideas'', phase2b_JudgeIdeas env),
      (''research'', phase3_ResearchIdeas env),
      (''implement'', phase4_Implement env)]
     @ (if dryRun (system env) then []
        else (if skipGithub (system env) then [] else [(''deploy'', phase5_Deploy env)])
           @ (if skipTwitter (system env) then [] else [(''announce'', phase6_Announce env)]))"

text \<open>
  A phase is framed by its tag when, from every world and whether it completes or throws,
  it first enters the phase, then leaves only events of that phase or of none, and ends
  with the tag as the current phase.
\<close>

definition framed :: "string \<Rightarrow> (world \<Rightarrow> step) \<Rightarrow> bool" where
  "framed tag P \<longleftrightarrow>
     (\<forall>w. \<exists>evs. trace (worldOf (P w)) = trace w @ PhaseStarted tag # evs
          \<and> (\<forall>ev \<in> set evs. eventPhase ev = None \<or> eventPhase ev = Some tag)
          \<and> startedPhases evs = []
          \<and> currentPhase (world.state (worldOf (P w))) = tag)"

text \<open>
  The ideas researched and the judging rounds (with the idea list each was given), in the
  order of the calls; and whether the \<open>n\<close>th research call, for a candidate, comes back
  within its budget with a report that recommends shipping.
\<close>

fun researched :: "event list \<Rightarrow> GeneratedIdea list" where
  "researched [] = []"
| "researched (ResearchCalled candidate # evs) = candidate # researched evs"
| "researched (ev # evs) = researched evs"

fun filterCalls :: "event list \<Rightarrow> (nat \<times> GeneratedIdea list option) list" where
  "filterCalls [] = []"
| "filterCalls (FilterCalled roundNo current # evs) = (roundNo, current) # filterCalls evs"
| "filterCalls (ev # evs) = filterCalls evs"

definition researchOutcome :: "env \<Rightarrow> nat \<Rightarrow> GeneratedIdea \<Rightarrow> thrown + ResearchReport" where
  "researchOutcome env n candidate =
     awaitBudget (jsRuntime (ideaJudge env)) (''research-'' @ GeneratedIdea.name candidate)
       (TimeBudgets.researcher timeBudgets) (researcher env n candidate)"

definition ships :: "env \<Rightarrow> nat \<Rightarrow> GeneratedIdea \<Rightarrow> bool" where
  "ships env n candidate =
     (case researchOutcome env n candidate of
        Inr report \<Rightarrow> recommendation report = SHIP
      | Inl e \<Rightarrow> False)"

text \<open>
  Two statements agree when both complete or both throw the same value, and the states
  of the worlds they end in are equal (their traces and disks may differ).
\<close>

fun agree :: "step \<Rightarrow> step \<Rightarrow> bool" where
  "agree (Inl (x, w)) (Inl (y, v)) = (x = y \<and> world.state w = world.state v)"
| "agree (Inr w) (Inr v) = (world.state w = world.state v)"
| "agree a b = False"

section \<open>Example inputs\<close>

text \<open>Concrete collaborators and values on which the properties below are exercised.\<close>

fun decimal :: "nat \<Rightarrow> string" where
  "decimal n = (if n < 10 then [''0123456789'' ! n]
                else decimal (n div 10) @ [''0123456789'' ! (n mod 10)])"

declare decimal.simps [simp del]

definition demoRuntime :: runtime where
  "demoRuntime = \<lparr>timerFiresAt = (\<lambda>delay. delay), numToString = decimal,
     toFixed0 = (\<lambda>ms. decimal ((ms + 500) div 1000)),
     toFixed1 = (\<lambda>ms. decimal ((ms + 50) div 100 div 10) @ ''.''
                       @ decimal ((ms + 50) div 100 mod 10))\<rparr>"

definition demoRepo :: TrendingRepo where
  "demoRepo = \<lparr>url = ''https://github.com/acme/lib'', name = ''lib'', owner = ''acme'',
     description = ''a library'', topics = Some (JArr [])\<rparr>"

definition demoIdea :: GeneratedIdea where
  "demoIdea = \<lparr>name = ''tool'', tagline = ''t'', description = ''a tool'',
     originalRepo = ''acme/lib'', strategy = Transfer, dependencies = Some (JArr []),
     coreFeatures = Some (JArr [JObj [(''name'', JStr ''cli'')]]), mvpDefinition = ''m''\<rparr>"

definition orphanIdea :: GeneratedIdea where
  "orphanIdea = \<lparr>name = ''orphan'', tagline = ''t'', description = ''no source'',
     originalRepo = ''nobody/nothing'', strategy = Niche, dependencies = Some (JArr []),
     coreFeatures = Some (JArr [JObj [(''name'', JStr ''cli'')]]), mvpDefinition = ''m''\<rparr>"

definition cloneIdea :: GeneratedIdea where
  "cloneIdea = \<lparr>name = ''lib-lite'', tagline = ''t'', description = ''a clone'',
     originalRepo = ''acme/lib'', strategy = Adjacent, dependencies = Some (JArr []),
     coreFeatures = Some (JArr [JObj [(''name'', JStr ''cli'')]]), mvpDefinition = ''m''\<rparr>"

definition demoJson :: json where
  "demoJson = JObj [(''differentiationScore'', JNum 45),
     (''axes'', JObj [(''problemDivergence'', JStr ''high''), (''runnability'', JStr ''medium'')]),
     (''reasoning'', JStr ''distinct'')]"

definition demoJudgeEnv :: judgeEnv where
  "demoJudgeEnv = \<lparr>jsonParse = (\<lambda>s. if s = ''{v}'' then Some demoJson else None),
     jsRuntime = demoRuntime,
     session = (\<lambda>n t. if n = 0 then PromptDone ''ok {v} end'' None
                       else if n = 1 then CreateThrows (JsError ''no session'')
                       else if n = 2 then PromptDone ''no verdict here'' None
                       else if n = 3 then PromptDone ''{bad}'' None
                       else PromptTimesOut ''slow'' None)\<rparr>"

definition demoVerdict :: JudgeVerdict where
  "demoVerdict = \<lparr>JudgeVerdict.approved = True, differentiationScore = 45,
     axes = \<lparr>problemDivergence = High, technicalNovelty = LNone, audienceShift = LNone,
             addedValue = LNone, runnability = Medium\<rparr>,
     reasoning = JStr ''distinct'', suggestions = []\<rparr>"

definition demoRepos :: "string \<rightharpoonup> TrendingRepo" where
  "demoRepos = [''acme/lib'' \<mapsto> demoRepo]"

definition shipReport :: ResearchReport where
  "shipReport = \<lparr>recommendation = SHIP, visitedUrls = [''https://example.org'']\<rparr>"

definition pivotReport :: ResearchReport where
  "pivotReport = \<lparr>recommendation = PIVOT, visitedUrls = []\<rparr>"

definition partialImpl :: ImplementationResult where
  "partialImpl = \<lparr>status = Partial, repoPath = ''/tmp/orphan''\<rparr>"

definition goodDeployment :: DeploymentResult where
  "goodDeployment = \<lparr>DeploymentResult.success = True, repoUrl = ''https://github.com/me/orphan'',
     errors = []\<rparr>"

definition failedDeployment :: DeploymentResult where
  "failedDeployment = \<lparr>DeploymentResult.success = False, repoUrl = [],
     errors = [''push rejected'', ''no token'']\<rparr>"

definition failedTweet :: TweetResult where
  "failedTweet = \<lparr>TweetResult.success = False, tweetUrl = None\<rparr>"

definition okFs :: fsRun where
  "okFs = \<lparr>mkdirThrows = None, stringifyThrows = None, writeFileThrows = None\<rparr>"

definition brokenFs :: fsRun where
  "brokenFs = \<lparr>mkdirThrows = None, stringifyThrows = None,
     writeFileThrows = Some (JsError ''ENOSPC'')\<rparr>"

text \<open>
  A run in which the scout finds one repository, the generator proposes three ideas, the
  judge rejects one of them, research times out on the first candidate and recommends
  shipping the second, the implementation is partial, the deployment succeeds and the
  announcement fails.
\<close>

definition demoEnv :: env where
  "demoEnv =
     \<lparr>system = \<lparr>dryRun = False, skipGithub = False, skipTwitter = False\<rparr>,
      trendScout = (\<lambda>options. Settles 100 (Inr [demoRepo])),
      ideaGenerator = (\<lambda>found. Settles 100 (Inr [demoIdea, orphanIdea, cloneIdea])),
      ideaJudge = demoJudgeEnv,
      filterSettles = (\<lambda>roundNo. 100),
      regenSession = (\<lambda>n t. PromptDone ''new {idea}'' None),
      castIdea = (\<lambda>parsed. demoIdea),
      researcher = (\<lambda>n candidate.
         if GeneratedIdea.name candidate = ''tool'' then NeverSettles
         else if GeneratedIdea.name candidate = ''lib-lite'' then Settles 100 (Inr pivotReport)
         else Settles 100 (Inr shipReport)),
      implementer = (\<lambda>chosen report. Settles 100 (Inr partialImpl)),
      deployer = (\<lambda>impl chosen. Settles 100 (Inr goodDeployment)),
      announcer = (\<lambda>dep chosen impl. Settles 100 (Inr failedTweet)),
      fs = (\<lambda>n. okFs),
      dateNow = 9000\<rparr>"

definition implFailEnv :: env where
  "implFailEnv = demoEnv\<lparr>implementer := (\<lambda>chosen report. Settles 100 (Inl (JsError ''agent crashed'')))\<rparr>"

definition dryEnv :: env where
  "dryEnv = demoEnv\<lparr>system := \<lparr>dryRun = True, skipGithub = False, skipTwitter = False\<rparr>\<rparr>"

definition deployFailEnv :: env where
  "deployFailEnv = demoEnv\<lparr>deployer := (\<lambda>impl chosen. Settles 100 (Inr failedDeployment))\<rparr>"

definition brokenDiskEnv :: env where
  "brokenDiskEnv = demoEnv\<lparr>fs := (\<lambda>n. brokenFs)\<rparr>"

definition demoWorld :: world where
  "demoWorld = newOrchestrator ''run-1'' 1000"

definition researchWorld :: world where
  "researchWorld = demoWorld\<lparr>state := (world.state demoWorld)
     \<lparr>ideas := Some [demoIdea, cloneIdea, orphanIdea, demoIdea]\<rparr>\<rparr>"

definition researchedState :: OrchestratorState where
  "researchedState =
     \<lparr>runId = ''run-1'', startTime = 1000, trends = Some [demoRepo],
      ideas = Some [demoIdea, orphanIdea], selectedIdea = Some orphanIdea,
      research = Some shipReport, implementation = None, deployment = None,
      announcement = None, currentPhase = ''research'', errors = []\<rparr>"

definition judgedState :: OrchestratorState where
  "judgedState =
     \<lparr>runId = ''run-1'', startTime = 1000, trends = Some [demoRepo],
      ideas = Some [demoIdea, orphanIdea], selectedIdea = None,
      research = None, implementation = None, deployment = None,
      announcement = None, currentPhase = ''judge-ideas'', errors = []\<rparr>"

definition exhaustEnv :: env where
  "exhaustEnv = demoEnv\<lparr>researcher := (\<lambda>n candidate. NeverSettles)\<rparr>"

definition implementedState :: OrchestratorState where
  "implementedState = researchedState\<lparr>implementation := Some partialImpl,
     currentPhase := ''implement''\<rparr>"

definition deployedState :: OrchestratorState where
  "deployedState = implementedState\<lparr>deployment := Some goodDeployment,
     currentPhase := ''deploy''\<rparr>"

definition ideaJson :: json where
  "ideaJson = JObj [(''name'', JStr ''tool''), (''description'', JStr ''a tool''),
     (''dependencies'', JArr []),
     (''coreFeatures'', JArr [JObj [(''name'', JStr ''cli'')]])]"

text \<open>
  A judge whose first call fails and whose later calls approve, and one whose calls all
  fail; with the first, a batch that is rejected as a whole is regenerated and approved in
  the second round.
\<close>

definition retryJudgeEnv :: judgeEnv where
  "retryJudgeEnv = \<lparr>jsonParse = (\<lambda>s. if s = ''{v}'' then Some demoJson
                                     else if s = ''{idea}'' then Some ideaJson else None),
     jsRuntime = demoRuntime,
     session = (\<lambda>n t. if n = 0 then CreateThrows (JsError ''no session'')
                       else PromptDone ''ok {v} end'' None)\<rparr>"




definition generatedState :: OrchestratorState where
  "generatedState =
     \<lparr>runId = ''run-1'', startTime = 1000, trends = Some [demoRepo],
      ideas = Some [cloneIdea], selectedIdea = None,
      research = None, implementation = None, deployment = None,
      announcement = None, currentPhase = ''generate-ideas'', errors = []\<rparr>"



text \<open>
  An object that passes the test of \<open>regenerateFromFeedback\<close> (its name, description and
  core features are truthy) and has no dependencies, and the idea that it is cast to.
\<close>

definition bareJson :: json where
  "bareJson = JObj [(''name'', JStr ''tool''), (''description'', JStr ''a tool''),
     (''coreFeatures'', JArr [JObj [(''name'', JStr ''cli'')]])]"

definition bareIdea :: GeneratedIdea where
  "bareIdea = parsedIdea demoEnv bareJson"

section \<open>Properties of the judge\<close>

lemma verdictOf_rule:
  "verdictOf parsed = Inr v \<Longrightarrow>
     JudgeVerdict.approved v =
       (adjustedScore (differentiationScore v) (axes v) \<ge> 50 \<and> strongAxes (axes v) \<ge> 2)"
  by (auto simp: verdictOf_def Let_def MIN_DIFFERENTIATION_SCORE_def MIN_STRONG_AXES_def
      split: sum.splits)

lemma failedVerdict_rule:
  "JudgeVerdict.approved (failedVerdict r) =
     (adjustedScore (differentiationScore (failedVerdict r)) (axes (failedVerdict r)) \<ge> 50
      \<and> strongAxes (axes (failedVerdict r)) \<ge> 2)"
  by (simp add: failedVerdict_def strongAxes_def axisValues_def)

lemma parseVerdict_rule:
  "JudgeVerdict.approved (parseVerdict jp raw) =
     (adjustedScore (differentiationScore (parseVerdict jp raw)) (axes (parseVerdict jp raw)) \<ge> 50
      \<and> strongAxes (axes (parseVerdict jp raw)) \<ge> 2)"
  unfolding parseVerdict_def parseVerdictTry_def
  using verdictOf_rule failedVerdict_rule
  by (auto split: option.splits sum.splits)

text \<open>When the prompt can be built, and what \<open>judge\<close> does in either case.\<close>

lemma arrayReceiver_Inr: "arrayReceiver v = Inr xs \<longleftrightarrow> v = Some (JArr xs)"
  by (cases v rule: arrayReceiver.cases) simp_all

lemma getProp_Inl: "(\<exists>e. getProp f k = Inl e) \<longleftrightarrow> f = JNull"
  by (cases f) simp_all


lemma featureTexts_Inr: "(\<exists>texts. featureTexts feats = Inr texts) \<longleftrightarrow> JNull \<notin> set feats"
proof (induction feats)
  case Nil show ?case by simp
next
  case (Cons f feats)
  show ?case
  proof (cases "f = JNull")
    case True then show ?thesis by simp
  next
    case False
    then have "\<not> (\<exists>e. getProp f ''name'' = Inl e)" "\<not> (\<exists>e. getProp f ''description'' = Inl e)"
      by (simp_all add: getProp_Inl)
    then obtain a b where "getProp f ''name'' = Inr a" "getProp f ''description'' = Inr b"
      by (metis sum.exhaust)
    with False Cons.IH show ?thesis by (auto split: sum.splits)
  qed
qed

lemma buildJudgePrompt_Inr:
  "buildJudgePrompt i src = Inr p \<longleftrightarrow>
     p = JudgePrompt i src
     \<and> (\<exists>ts feats ds. topics src = Some (JArr ts) \<and> coreFeatures i = Some (JArr feats)
           \<and> JNull \<notin> set feats \<and> dependencies i = Some (JArr ds))"
proof -
  have "JNull \<notin> set feats" if "featureTexts feats = Inr texts" for feats texts
    using that featureTexts_Inr by blast
  moreover have "JNull \<in> set feats" if "featureTexts feats = Inl x" for feats x
    using that featureTexts_Inr [of feats] by auto
  ultimately show ?thesis
    unfolding buildJudgePrompt_def
    by (auto simp: arrayReceiver_Inr split: sum.splits)
qed

lemma buildJudgePrompt_builds:
  "topics src = Some (JArr ts) \<Longrightarrow> coreFeatures i = Some (JArr feats) \<Longrightarrow> JNull \<notin> set feats \<Longrightarrow>
     dependencies i = Some (JArr ds) \<Longrightarrow> buildJudgePrompt i src = Inr (JudgePrompt i src)"
  by (simp add: buildJudgePrompt_Inr)

lemma buildJudgePrompt_cases:
  "(\<exists>e. buildJudgePrompt i src = Inl e) \<or> buildJudgePrompt i src = Inr (JudgePrompt i src)"
proof (cases "buildJudgePrompt i src")
  case (Inl e) then show ?thesis by simp
next
  case (Inr p) then show ?thesis by (simp add: buildJudgePrompt_Inr)
qed


lemma judge_built:
  "buildJudgePrompt i src = Inr p \<Longrightarrow>
     judge env n i src =
       (if \<not> PiResult.success (execute (jsRuntime env) (judgeTask (JudgePrompt i src))
                                 (session env n (judgeTask (JudgePrompt i src))))
           \<or> outputText (execute (jsRuntime env) (judgeTask (JudgePrompt i src))
                           (session env n (judgeTask (JudgePrompt i src)))) = []
        then Inr (failedVerdict
               (''LLM evaluation failed '' @ emDash @ '' erring on the side of rejection''))
        else Inr (parseVerdict (jsonParse env)
               (outputText (execute (jsRuntime env) (judgeTask (JudgePrompt i src))
                              (session env n (judgeTask (JudgePrompt i src)))))))"
proof -
  assume b: "buildJudgePrompt i src = Inr p"
  then have "p = JudgePrompt i src" by (simp add: buildJudgePrompt_Inr)
  with b show ?thesis by (simp add: judge_def Let_def)
qed

lemma judge_returns: "buildJudgePrompt i src = Inr p \<Longrightarrow> \<exists>v. judge env n i src = Inr v"
  by (simp add: judge_built)

lemma judge_Inr_built: "judge env n i src = Inr v \<Longrightarrow> buildJudgePrompt i src = Inr (JudgePrompt i src)"
  using buildJudgePrompt_cases [of i src] by (auto simp: judge_def)







lemma match_demo: "matchBraces ''ok {v} end'' = Some ''{v}''"
  by (simp add: matchBraces_def)

lemma demo_builds:
  "buildJudgePrompt demoIdea demoRepo = Inr (JudgePrompt demoIdea demoRepo)"
  "buildJudgePrompt cloneIdea demoRepo = Inr (JudgePrompt cloneIdea demoRepo)"
  by (simp_all add: buildJudgePrompt_def demoIdea_def cloneIdea_def demoRepo_def)

lemma judge_demo: "judge demoJudgeEnv 0 demoIdea demoRepo = Inr demoVerdict"
  by (simp add: judge_built [OF demo_builds(1)] demoJudgeEnv_def judgeTask_def match_demo
    parseVerdict_def parseVerdictTry_def
    demoJson_def verdictOf_def adjustedScore_def runnabilityBonus_def strongAxes_def axisValues_def
    MIN_DIFFERENTIATION_SCORE_def MIN_STRONG_AXES_def demoVerdict_def)

lemma judge_demo1: "judge demoJudgeEnv (Suc 0) cloneIdea demoRepo =
    Inr (failedVerdict (''LLM evaluation failed '' @ emDash @ '' erring on the side of rejection''))"
  by (simp add: judge_built [OF demo_builds(2)] demoJudgeEnv_def)

lemma demo_origins:
  "originalRepo demoIdea = ''acme/lib''" "originalRepo orphanIdea = ''nobody/nothing''"
  "originalRepo cloneIdea = ''acme/lib''"
  by (simp_all add: demoIdea_def orphanIdea_def cloneIdea_def)

lemma filter_demo: "filterIdeas demoJudgeEnv 0 [demoIdea, orphanIdea, cloneIdea] demoRepos =
   Inr \<lparr>approved = [demoIdea, orphanIdea],
        rejected = [(cloneIdea, failedVerdict (''LLM evaluation failed '' @ emDash @ '' erring on the side of rejection''))],
        judged = [(demoIdea, demoRepo), (cloneIdea, demoRepo)]\<rparr>"
  by (simp add: filterIdeas_def demoRepos_def judge_demo judge_demo1 demoVerdict_def Let_def
      demo_origins failedVerdict_def)


lemma regenerate_keeps_bare:
  "regenerateTry (demoEnv\<lparr>ideaJudge := demoJudgeEnv\<lparr>jsonParse := (\<lambda>s. Some bareJson)\<rparr>\<rparr>)
     \<lparr>PiResult.success = True, exitCode = 0, outputText = ''{}'', errors = []\<rparr>
   = Inr (Some bareIdea)"
  by (simp add: regenerateTry_def matchBraces_def bareJson_def bareIdea_def parsedIdea_def
      demoEnv_def)

text \<open>
  Claim C1. For every idea and source repository, and whatever the collaborator does,
  every verdict that \<open>judge\<close> returns is approved exactly when the adjusted score is at
  least 50 and at least two of the five axes are rated medium or high; the adjusted score
  is the verdict's score plus the runnability bonus (10 for high, 5 for medium, 0
  otherwise), capped at 100; the score lies in 0-100 and, when the collaborator's output
  parses to a value whose \<open>differentiationScore\<close> is a number, is that number clamped to
  0-100. \<open>judge\<close> returns a verdict whenever its prompt can be built, that is, when the
  repository's topics and the idea's core features and dependencies are arrays and no
  core feature is \<open>null\<close>.
\<close>

theorem judge_approved_iff_thresholds:
  fixes env :: judgeEnv and n :: nat and idea :: GeneratedIdea and sourceRepo :: TrendingRepo
  shows "(\<forall>v. judge env n idea sourceRepo = Inr v \<longrightarrow>
       (JudgeVerdict.approved v \<longleftrightarrow>
          min 100 (differentiationScore v
                   + (if runnability (axes v) = High then 10
                      else if runnability (axes v) = Medium then 5 else 0)) \<ge> 50
          \<and> length (filter (\<lambda>l. l = Medium \<or> l = High)
                [problemDivergence (axes v), technicalNovelty (axes v), audienceShift (axes v),
                 addedValue (axes v), runnability (axes v)]) \<ge> 2)
     \<and> 0 \<le> differentiationScore v \<and> differentiationScore v \<le> 100
     \<and> (\<forall>result jsonMatch parsed s.
           result = execute (jsRuntime env) (judgeTask (JudgePrompt idea sourceRepo))
                      (session env n (judgeTask (JudgePrompt idea sourceRepo)))
           \<and> PiResult.success result \<and> outputText result \<noteq> []
           \<and> matchBraces (outputText result) = Some jsonMatch
           \<and> jsonParse env jsonMatch = Some parsed
           \<and> getProp parsed ''differentiationScore'' = Inr (Some (JNum s))
           \<longrightarrow> differentiationScore v = max 0 (min 100 s)))
   \<and> ((\<exists>ts feats ds. topics sourceRepo = Some (JArr ts) \<and> coreFeatures idea = Some (JArr feats)
          \<and> JNull \<notin> set feats \<and> dependencies idea = Some (JArr ds))
       \<longrightarrow> (\<exists>v. judge env n idea sourceRepo = Inr v))"
proof -
  let ?t = "judgeTask (JudgePrompt idea sourceRepo)"
  let ?r = "execute (jsRuntime env) ?t (session env n ?t)"
  let ?fail = "failedVerdict (''LLM evaluation failed '' @ emDash @ '' erring on the side of rejection'')"
  let ?P = "\<lambda>v. (JudgeVerdict.approved v \<longleftrightarrow>
          min 100 (differentiationScore v
                   + (if runnability (axes v) = High then 10
                      else if runnability (axes v) = Medium then 5 else 0)) \<ge> 50
          \<and> length (filter (\<lambda>l. l = Medium \<or> l = High)
                [problemDivergence (axes v), technicalNovelty (axes v), audienceShift (axes v),
                 addedValue (axes v), runnability (axes v)]) \<ge> 2)"
  let ?Q = "\<lambda>v. ?P v \<and> 0 \<le> differentiationScore v \<and> differentiationScore v \<le> 100
     \<and> (\<forall>result jsonMatch parsed s.
           result = ?r
           \<and> PiResult.success result \<and> outputText result \<noteq> []
           \<and> matchBraces (outputText result) = Some jsonMatch
           \<and> jsonParse env jsonMatch = Some parsed
           \<and> getProp parsed ''differentiationScore'' = Inr (Some (JNum s))
           \<longrightarrow> differentiationScore v = max 0 (min 100 s))"
  have rule: "?P v" if "JudgeVerdict.approved v =
       (adjustedScore (differentiationScore v) (axes v) \<ge> 50 \<and> strongAxes (axes v) \<ge> 2)" for v
    using that by (simp add: adjustedScore_def runnabilityBonus_def strongAxes_def axisValues_def)
  have range_failed: "differentiationScore (failedVerdict r) = 0" for r
    by (simp add: failedVerdict_def)
  have range_of: "0 \<le> differentiationScore v \<and> differentiationScore v \<le> 100"
    if "verdictOf parsed = Inr v" for parsed v
  proof (cases "getProp parsed ''differentiationScore''")
    case (Inl e)
    with that show ?thesis by (simp add: verdictOf_def)
  next
    case (Inr raw)
    with that have "differentiationScore v = clampScore raw"
      by (auto simp: verdictOf_def Let_def)
    then show ?thesis by (cases raw rule: clampScore.cases) auto
  qed
  have range_parse: "0 \<le> differentiationScore (parseVerdict jp raw)
      \<and> differentiationScore (parseVerdict jp raw) \<le> 100" for jp raw
    unfolding parseVerdict_def parseVerdictTry_def
    using range_of by (auto simp: range_failed split: option.splits sum.splits)
  have returned: "?Q v" if jv: "judge env n idea sourceRepo = Inr v" for v
  proof -
    note built = judge_built [OF judge_Inr_built [OF jv], of env n]
    show ?thesis
    proof (cases "\<not> PiResult.success ?r \<or> outputText ?r = []")
      case True
      with built jv have v: "v = ?fail" by simp
      have "?P ?fail" by (rule rule) (rule failedVerdict_rule)
      with v True show ?thesis by (auto simp: range_failed)
    next
      case False
      let ?v = "parseVerdict (jsonParse env) (outputText ?r)"
      from False built jv have v: "v = ?v" by simp
      have p: "?P ?v" by (rule rule) (rule parseVerdict_rule)
      have s: "differentiationScore ?v = max 0 (min 100 s)"
        if "matchBraces (outputText ?r) = Some jsonMatch" "jsonParse env jsonMatch = Some parsed"
           "getProp parsed ''differentiationScore'' = Inr (Some (JNum s))" for jsonMatch parsed s
        using that by (simp add: parseVerdict_def parseVerdictTry_def verdictOf_def Let_def)
      from p s range_parse show ?thesis unfolding v by blast
    qed
  qed
  have total: "\<exists>v. judge env n idea sourceRepo = Inr v"
    if "\<exists>ts feats ds. topics sourceRepo = Some (JArr ts) \<and> coreFeatures idea = Some (JArr feats)
          \<and> JNull \<notin> set feats \<and> dependencies idea = Some (JArr ds)"
  proof -
    from that have "buildJudgePrompt idea sourceRepo = Inr (JudgePrompt idea sourceRepo)"
      by (simp add: buildJudgePrompt_Inr)
    then show ?thesis by (rule judge_returns)
  qed
  from returned total show ?thesis by blast
qed

theorem judge_approved_iff_thresholds_witness:
  "topics demoRepo = Some (JArr []) \<and> coreFeatures demoIdea = Some (JArr [JObj [(''name'', JStr ''cli'')]])
   \<and> JNull \<notin> set [JObj [(''name'', JStr ''cli'')]] \<and> dependencies demoIdea = Some (JArr [])
   \<and> judge demoJudgeEnv 0 demoIdea demoRepo = Inr demoVerdict
   \<and> JudgeVerdict.approved demoVerdict
   \<and> differentiationScore demoVerdict = max 0 (min 100 45)
   \<and> getProp demoJson ''differentiationScore'' = Inr (Some (JNum 45))"
proof -
  let ?t = "judgeTask (JudgePrompt demoIdea demoRepo)"
  let ?r = "execute (jsRuntime demoJudgeEnv) ?t (session demoJudgeEnv 0 ?t)"
  have w: "topics demoRepo = Some (JArr [])"
      "coreFeatures demoIdea = Some (JArr [JObj [(''name'', JStr ''cli'')]])"
      "JNull \<notin> set [JObj [(''name'', JStr ''cli'')]]" "dependencies demoIdea = Some (JArr [])"
    by (simp_all add: demoRepo_def demoIdea_def)
  have r: "PiResult.success ?r \<and> outputText ?r = ''ok {v} end''"
    by (simp add: demoJudgeEnv_def)
  have m: "matchBraces (outputText ?r) = Some ''{v}''"
    using r by (simp add: matchBraces_def)
  have p: "jsonParse demoJudgeEnv ''{v}'' = Some demoJson"
    by (simp add: demoJudgeEnv_def)
  have g: "getProp demoJson ''differentiationScore'' = Inr (Some (JNum 45))"
    by (simp add: demoJson_def)
  note inst = judge_approved_iff_thresholds [where env = demoJudgeEnv and n = "0" and idea = demoIdea and sourceRepo = demoRepo]
  from inst w obtain v where j0: "judge demoJudgeEnv 0 demoIdea demoRepo = Inr v"
    by blast
  with judge_demo have j: "judge demoJudgeEnv 0 demoIdea demoRepo = Inr demoVerdict" by simp
  from inst j
  have "\<forall>result jsonMatch parsed s.
           result = ?r \<and> PiResult.success result \<and> outputText result \<noteq> []
           \<and> matchBraces (outputText result) = Some jsonMatch
           \<and> jsonParse demoJudgeEnv jsonMatch = Some parsed
           \<and> getProp parsed ''differentiationScore'' = Inr (Some (JNum s))
           \<longrightarrow> differentiationScore demoVerdict = max 0 (min 100 s)"
    by blast
  with r m p g have "differentiationScore demoVerdict = max 0 (min 100 45)"
    by (metis list.distinct(1))
  with w j g show ?thesis by (simp add: demoVerdict_def)
qed






section \<open>Properties of the time budget\<close>

lemma TimeBudget_run_eq:
  "TimeBudget_run rt label budgetSeconds fn =
     (case fn of
        NeverSettles \<Rightarrow>
          Rejected (timeoutError rt label (timerFiresAt rt (budgetSeconds * 1000)) budgetSeconds)
      | Settles t outcome \<Rightarrow>
          if t < timerFiresAt rt (budgetSeconds * 1000)
          then (case outcome of Inr v \<Rightarrow> Fulfilled v | Inl e \<Rightarrow> Rejected e)
          else Rejected (timeoutError rt label (timerFiresAt rt (budgetSeconds * 1000)) budgetSeconds))"
  by (simp add: TimeBudget_run_def callbacks_def Let_def resolve_def reject_def clearTimeout_def
      split: behaviour.splits sum.splits)

lemma TimeBudget_run_settles: "TimeBudget_run rt label budgetSeconds fn \<noteq> Pending"
  by (simp add: TimeBudget_run_eq split: behaviour.splits sum.splits)

lemma awaitBudget_eq:
  "awaitBudget rt label budgetSeconds fn =
     (case fn of
        NeverSettles \<Rightarrow>
          Inl (timeoutError rt label (timerFiresAt rt (budgetSeconds * 1000)) budgetSeconds)
      | Settles t outcome \<Rightarrow>
          if t < timerFiresAt rt (budgetSeconds * 1000) then outcome
          else Inl (timeoutError rt label (timerFiresAt rt (budgetSeconds * 1000)) budgetSeconds))"
  by (simp add: awaitBudget_def TimeBudget_run_eq split: behaviour.splits sum.splits)

text \<open>
  Claim C5. For every label, budget and operation: when the operation settles before the
  timer's callback is due, the promise of \<open>TimeBudget.run\<close> is fulfilled with the
  operation's value, or rejected with the operation's own error, unchanged; when the timer
  comes first (the operation settles at or after that time, or never), the promise is
  rejected with an error whose message carries the label, the elapsed time and the budget.
\<close>

theorem TimeBudget_run_race:
  "(\<forall>t v. fn = Settles t (Inr v) \<and> t < timerFiresAt rt (budgetSeconds * 1000)
       \<longrightarrow> TimeBudget_run rt label budgetSeconds fn = Fulfilled v)
   \<and> (\<forall>t e. fn = Settles t (Inl e) \<and> t < timerFiresAt rt (budgetSeconds * 1000)
       \<longrightarrow> TimeBudget_run rt label budgetSeconds fn = Rejected e)
   \<and> (fn = NeverSettles \<or> (\<exists>t outcome. fn = Settles t outcome
                                \<and> timerFiresAt rt (budgetSeconds * 1000) \<le> t)
       \<longrightarrow> TimeBudget_run rt label budgetSeconds fn =
             Rejected (JsError (''TimeBudget exceeded for '' @ dquote @ label @ dquote @ '': ''
                @ toFixed1 rt (timerFiresAt rt (budgetSeconds * 1000)) @ ''s / ''
                @ numToString rt budgetSeconds @ ''s'')))"
  by (auto simp: TimeBudget_run_eq timeoutError_def)

theorem TimeBudget_run_race_witness:
  "(10::nat) < timerFiresAt demoRuntime (10 * 1000)
   \<and> TimeBudget_run demoRuntime ''test-fast'' 10 (Settles 10 (Inr (42::nat))) = Fulfilled 42
   \<and> TimeBudget_run demoRuntime ''test-fail'' 10 (Settles 10 (Inl (JsError ''boom'') :: thrown + nat))
       = Rejected (JsError ''boom'')
   \<and> timerFiresAt demoRuntime (1 * 1000) \<le> 5000
   \<and> TimeBudget_run demoRuntime ''test-slow'' 1 (Settles 5000 (Inr ''too late''))
       = Rejected (JsError (''TimeBudget exceeded for '' @ dquote @ ''test-slow'' @ dquote
                            @ '': 1.0s / 1s''))"
proof -
  have f: "timerFiresAt demoRuntime (10 * 1000) = 10000" "timerFiresAt demoRuntime (1 * 1000) = 1000"
    by (simp_all add: demoRuntime_def)
  have a: "TimeBudget_run demoRuntime ''test-fast'' 10 (Settles 10 (Inr (42::nat))) = Fulfilled 42"
    using TimeBudget_run_race [of "Settles 10 (Inr (42::nat))" demoRuntime 10 "''test-fast''"] f
    by simp
  have b: "TimeBudget_run demoRuntime ''test-fail'' 10 (Settles 10 (Inl (JsError ''boom'') :: thrown + nat))
       = Rejected (JsError ''boom'')"
    using TimeBudget_run_race [of "Settles 10 (Inl (JsError ''boom'') :: thrown + nat)" demoRuntime 10 "''test-fail''"] f
    by simp
  have c: "TimeBudget_run demoRuntime ''test-slow'' 1 (Settles 5000 (Inr ''too late''))
       = Rejected (JsError (''TimeBudget exceeded for '' @ dquote @ ''test-slow'' @ dquote
                            @ '': 1.0s / 1s''))"
    using TimeBudget_run_race [of "Settles 5000 (Inr ''too late'')" demoRuntime 1 "''test-slow''"] f
    by (simp add: demoRuntime_def decimal.simps)
  from f a b c show ?thesis by simp
qed

section \<open>Properties of the orchestrator\<close>

lemma startedPhases_append: "startedPhases (xs @ ys) = startedPhases xs @ startedPhases ys"
  by (induction xs rule: startedPhases.induct) simp_all

lemma startedPhases_none:
  "(\<forall>ev \<in> set evs. \<forall>tag. ev \<noteq> PhaseStarted tag) \<Longrightarrow> startedPhases evs = []"
  by (induction evs rule: startedPhases.induct) simp_all

lemma StateManager_save_total: "\<exists>d l. StateManager_save r f st d0 = Inr (d, l)"
  by (simp add: StateManager_save_def split: sum.splits)

lemma saveState_Inr:
  "\<exists>d l. saveState e w =
     Inr (w\<lparr>trace := trace w @ [SaveCalled (world.state w), Logged l], disk := d\<rparr>)"
proof -
  obtain d l where "StateManager_save (fs e (saveCount (trace w)))
      (stateFile (runId (world.state w))) (world.state w) (disk w) = Inr (d, l)"
    using StateManager_save_total by blast
  then show ?thesis
    by (intro exI [of _ d] exI [of _ l]) (simp add: saveState_def Let_def record_event_def)
qed

lemma phase1_frame:
  "\<exists>evs. trace (worldOf (phase1_ScoutTrends e w)) = trace w @ PhaseStarted ''scout-trends'' # evs
     \<and> (\<forall>ev \<in> set evs. eventPhase ev = Some ''scout-trends'') \<and> startedPhases evs = []
     \<and> currentPhase (world.state (worldOf (phase1_ScoutTrends e w))) = ''scout-trends''"
  by (auto simp: phase1_ScoutTrends_def Let_def enterPhase_def record_event_def split: sum.splits)

lemma phase2_frame:
  "\<exists>evs. trace (worldOf (phase2_GenerateIdeas e w)) = trace w @ PhaseStarted ''generate-ideas'' # evs
     \<and> (\<forall>ev \<in> set evs. eventPhase ev = Some ''generate-ideas'') \<and> startedPhases evs = []
     \<and> currentPhase (world.state (worldOf (phase2_GenerateIdeas e w))) = ''generate-ideas''"
  by (auto simp: phase2_GenerateIdeas_def Let_def enterPhase_def record_event_def split: sum.splits)

lemma phase4_frame:
  "\<exists>evs. trace (worldOf (phase4_Implement e w)) = trace w @ PhaseStarted ''implement'' # evs
     \<and> (\<forall>ev \<in> set evs. eventPhase ev = Some ''implement'') \<and> startedPhases evs = []
     \<and> currentPhase (world.state (worldOf (phase4_Implement e w))) = ''implement''"
  by (auto simp: phase4_Implement_def Let_def enterPhase_def record_event_def split: sum.splits)

lemma phase5_frame:
  "\<exists>evs. trace (worldOf (phase5_Deploy e w)) = trace w @ PhaseStarted ''deploy'' # evs
     \<and> (\<forall>ev \<in> set evs. eventPhase ev = Some ''deploy'') \<and> startedPhases evs = []
     \<and> currentPhase (world.state (worldOf (phase5_Deploy e w))) = ''deploy''"
  by (auto simp: phase5_Deploy_def Let_def enterPhase_def record_event_def split: sum.splits)

lemma phase6_frame:
  "\<exists>evs. trace (worldOf (phase6_Announce e w)) = trace w @ PhaseStarted ''announce'' # evs
     \<and> (\<forall>ev \<in> set evs. eventPhase ev = None \<or> eventPhase ev = Some ''announce'')
     \<and> startedPhases evs = []
     \<and> currentPhase (world.state (worldOf (phase6_Announce e w))) = ''announce''"
  by (auto simp: phase6_Announce_def Let_def enterPhase_def record_event_def split: sum.splits)

lemma researchLoop_frame:
  "\<exists>evs. trace (worldOf (researchLoop e n xs w)) = trace w @ evs
     \<and> (\<forall>ev \<in> set evs. eventPhase ev = None \<or> eventPhase ev = Some ''research'')
     \<and> startedPhases evs = []
     \<and> currentPhase (world.state (worldOf (researchLoop e n xs w))) = currentPhase (world.state w)"
proof (induction xs arbitrary: n w)
  case Nil
  show ?case by simp
next
  case (Cons c rest)
  let ?w1 = "record_event (ResearchCalled c) w"
  let ?a = "awaitBudget (jsRuntime (ideaJudge e)) (''research-'' @ GeneratedIdea.name c)
                (TimeBudgets.researcher timeBudgets) (researcher e n c)"
  show ?case
  proof (cases ?a)
    case (Inl err)
    let ?w2 = "record_event (Logged (LogWarn (''Research failed for '' @ GeneratedIdea.name c))) ?w1"
    from Inl have eq: "researchLoop e n (c # rest) w = researchLoop e (Suc n) rest ?w2"
      by (simp add: Let_def)
    from Cons.IH [of "Suc n" ?w2] obtain evs where
      "trace (worldOf (researchLoop e (Suc n) rest ?w2)) = trace ?w2 @ evs"
      "\<forall>ev \<in> set evs. eventPhase ev = None \<or> eventPhase ev = Some ''research''"
      "startedPhases evs = []"
      "currentPhase (world.state (worldOf (researchLoop e (Suc n) rest ?w2))) = currentPhase (world.state ?w2)"
      by blast
    then show ?thesis
      unfolding eq
      by (intro exI [of _ "ResearchCalled c # Logged (LogWarn (''Research failed for '' @ GeneratedIdea.name c)) # evs"])
         (simp add: record_event_def)
  next
    case (Inr report)
    show ?thesis
    proof (cases "recommendation report = SHIP")
      case True
      with Inr show ?thesis
        by (intro exI [of _ "[ResearchCalled c]"]) (simp add: Let_def record_event_def)
    next
      case False
      with Inr have eq: "researchLoop e n (c # rest) w = researchLoop e (Suc n) rest ?w1"
        by (simp add: Let_def)
      from Cons.IH [of "Suc n" ?w1] obtain evs where
        "trace (worldOf (researchLoop e (Suc n) rest ?w1)) = trace ?w1 @ evs"
        "\<forall>ev \<in> set evs. eventPhase ev = None \<or> eventPhase ev = Some ''research''"
        "startedPhases evs = []"
        "currentPhase (world.state (worldOf (researchLoop e (Suc n) rest ?w1))) = currentPhase (world.state ?w1)"
        by blast
      then show ?thesis
        unfolding eq
        by (intro exI [of _ "ResearchCalled c # evs"]) (simp add: record_event_def)
    qed
  qed
qed

lemma phase3_frame:
  "\<exists>evs. trace (worldOf (phase3_ResearchIdeas e w)) = trace w @ PhaseStarted ''research'' # evs
     \<and> (\<forall>ev \<in> set evs. eventPhase ev = None \<or> eventPhase ev = Some ''research'')
     \<and> startedPhases evs = []
     \<and> currentPhase (world.state (worldOf (phase3_ResearchIdeas e w))) = ''research''"
proof (cases "ideas (world.state w)")
  case None
  then show ?thesis
    by (simp add: phase3_ResearchIdeas_def Let_def enterPhase_def)
next
  case (Some xs)
  let ?w1 = "enterPhase ''research'' w"
  from Some have eq: "phase3_ResearchIdeas e w = researchLoop e 0 xs ?w1"
    by (simp add: phase3_ResearchIdeas_def Let_def enterPhase_def)
  from researchLoop_frame [of e 0 xs ?w1] show ?thesis
    unfolding eq by (auto simp: enterPhase_def)
qed

lemma judgeRounds_frame:
  "\<exists>evs. trace (worldOf (judgeRounds e rm r n0 w)) = trace w @ evs
     \<and> (\<forall>ev \<in> set evs. eventPhase ev = Some ''judge-ideas'')
     \<and> startedPhases evs = []
     \<and> currentPhase (world.state (worldOf (judgeRounds e rm r n0 w))) = currentPhase (world.state w)"
proof (induction "MAX_ROUNDS - r" arbitrary: r n0 w)
  case 0
  then have "\<not> r < MAX_ROUNDS" by simp
  then show ?case by (simp add: judgeRounds.simps)
next
  case (Suc k)
  then have lt: "r < MAX_ROUNDS" and k: "k = MAX_ROUNDS - (r + 1)" by simp_all
  let ?w1 = "record_event (FilterCalled r (ideas (world.state w))) w"
  let ?a = "awaitBudget (jsRuntime (ideaJudge e))
              (''judge-ideas-round-'' @ numToString (jsRuntime (ideaJudge e)) r)
              (TimeBudgets.ideaJudge timeBudgets)
              (filterCall e r n0 (ideas (world.state w)) rm)"
  have ih: "\<exists>evs. trace (worldOf (judgeRounds e rm (r + 1) m v)) = trace v @ evs
     \<and> (\<forall>ev \<in> set evs. eventPhase ev = Some ''judge-ideas'')
     \<and> startedPhases evs = []
     \<and> currentPhase (world.state (worldOf (judgeRounds e rm (r + 1) m v))) = currentPhase (world.state v)"
    for m v using Suc.hyps(1) [OF k] .
  have next_round: "\<exists>evs. trace (worldOf (judgeRounds e rm (r + 1) m v)) = trace w @ evs
     \<and> (\<forall>ev \<in> set evs. eventPhase ev = Some ''judge-ideas'')
     \<and> startedPhases evs = []
     \<and> currentPhase (world.state (worldOf (judgeRounds e rm (r + 1) m v))) = currentPhase (world.state w)"
    if "trace v = trace w @ pre" "\<forall>ev \<in> set pre. eventPhase ev = Some ''judge-ideas''"
       "startedPhases pre = []" "currentPhase (world.state v) = currentPhase (world.state w)"
    for m v pre
  proof -
    from ih [of m v] obtain evs where
      "trace (worldOf (judgeRounds e rm (r + 1) m v)) = trace v @ evs"
      "\<forall>ev \<in> set evs. eventPhase ev = Some ''judge-ideas''"
      "startedPhases evs = []"
      "currentPhase (world.state (worldOf (judgeRounds e rm (r + 1) m v))) = currentPhase (world.state v)"
      by blast
    with that show ?thesis
      by (intro exI [of _ "pre @ evs"]) (auto simp: startedPhases_append)
  qed
  show ?case
  proof (cases ?a)
    case (Inl err)
    with lt have "judgeRounds e rm r n0 w = Inl (err, ?w1)"
      by (simp add: judgeRounds.simps [of e rm r n0 w] Let_def)
    then show ?thesis
      by (intro exI [of _ "[FilterCalled r (ideas (world.state w))]"]) (simp add: record_event_def)
  next
    case (Inr res)
    show ?thesis
    proof (cases "length (FilterResult.approved res) > 0")
      case True
      with lt Inr have "judgeRounds e rm r n0 w =
          Inr (?w1\<lparr>state := (world.state ?w1)\<lparr>ideas := Some (FilterResult.approved res)\<rparr>\<rparr>)"
        by (simp add: judgeRounds.simps [of e rm r n0 w] Let_def)
      then show ?thesis
        by (intro exI [of _ "[FilterCalled r (ideas (world.state w))]"]) (simp add: record_event_def)
    next
      case False
      show ?thesis
      proof (cases "r < MAX_ROUNDS - 1")
        case True
        let ?w2 = "record_event (RegenerateCalled (rejected res)) ?w1"
        let ?improved = "regenerateFromFeedback e (rejected res) rm"
        have pre: "\<forall>ev \<in> set [FilterCalled r (ideas (world.state w)), RegenerateCalled (rejected res)].
            eventPhase ev = Some ''judge-ideas''"
          "startedPhases [FilterCalled r (ideas (world.state w)), RegenerateCalled (rejected res)] = []"
          by simp_all
        show ?thesis
        proof (cases "length ?improved > 0")
          case True
          let ?w3 = "?w2\<lparr>state := (world.state ?w2)\<lparr>ideas := Some ?improved\<rparr>\<rparr>"
          from lt Inr False \<open>r < MAX_ROUNDS - 1\<close> True
          have eq: "judgeRounds e rm r n0 w = judgeRounds e rm (r + 1) (n0 + length (judged res)) ?w3"
            by (simp add: judgeRounds.simps [of e rm r n0 w] Let_def)
          show ?thesis unfolding eq
            by (rule next_round [OF _ pre]) (simp_all add: record_event_def)
        next
          case F2: False
          from lt Inr False \<open>r < MAX_ROUNDS - 1\<close> F2
          have eq: "judgeRounds e rm r n0 w = judgeRounds e rm (r + 1) (n0 + length (judged res)) ?w2"
            by (simp add: judgeRounds.simps [of e rm r n0 w] Let_def)
          show ?thesis unfolding eq
            by (rule next_round [OF _ pre]) (simp_all add: record_event_def)
        qed
      next
        case F1: False
        from lt Inr False F1
        have eq: "judgeRounds e rm r n0 w = judgeRounds e rm (r + 1) (n0 + length (judged res)) ?w1"
          by (simp add: judgeRounds.simps [of e rm r n0 w] Let_def)
        show ?thesis unfolding eq
          by (rule next_round [where pre = "[FilterCalled r (ideas (world.state w))]"])
             (simp_all add: record_event_def)
      qed
    qed
  qed
qed

lemma phase2b_frame:
  "\<exists>evs. trace (worldOf (phase2b_JudgeIdeas e w)) = trace w @ PhaseStarted ''judge-ideas'' # evs
     \<and> (\<forall>ev \<in> set evs. eventPhase ev = Some ''judge-ideas'')
     \<and> startedPhases evs = []
     \<and> currentPhase (world.state (worldOf (phase2b_JudgeIdeas e w))) = ''judge-ideas''"
  using judgeRounds_frame [of e "buildRepoMap (trends (world.state (enterPhase ''judge-ideas'' w)))"
      0 0 "enterPhase ''judge-ideas'' w"]
  by (auto simp: phase2b_JudgeIdeas_def Let_def enterPhase_def)

lemma block_append:
  "block (xs @ ys) w = (case block xs w of Inl x \<Rightarrow> Inl x | Inr w1 \<Rightarrow> block ys w1)"
  by (induction xs arbitrary: w) (auto split: sum.splits)

lemma tryBlock_pipeline:
  "tryBlock e w = block (concat (map (\<lambda>(tag, P). [P, saveState e]) (pipeline e))) w"
  by (simp add: tryBlock_def pipeline_def split: sum.splits)

lemma pipeline_framed: "list_all (\<lambda>(tag, P). framed tag P) (pipeline e)"
proof -
  have "framed ''scout-trends'' (phase1_ScoutTrends e)"
    unfolding framed_def using phase1_frame [of e] by blast
  moreover have "framed ''generate-ideas'' (phase2_GenerateIdeas e)"
    unfolding framed_def using phase2_frame [of e] by blast
  moreover have "framed ''judge-ideas'' (phase2b_JudgeIdeas e)"
    unfolding framed_def using phase2b_frame [of e] by blast
  moreover have "framed ''research'' (phase3_ResearchIdeas e)"
    unfolding framed_def using phase3_frame [of e] by blast
  moreover have "framed ''implement'' (phase4_Implement e)"
    unfolding framed_def using phase4_frame [of e] by blast
  moreover have "framed ''deploy'' (phase5_Deploy e)"
    unfolding framed_def using phase5_frame [of e] by blast
  moreover have "framed ''announce'' (phase6_Announce e)"
    unfolding framed_def using phase6_frame [of e] by blast
  ultimately show ?thesis by (simp add: pipeline_def)
qed

lemma pipeline_frames:
  assumes "(tag, P) \<in> set (pipeline e)"
  shows "\<exists>evs. trace (worldOf (P w)) = trace w @ PhaseStarted tag # evs
       \<and> (\<forall>ev \<in> set evs. eventPhase ev = None \<or> eventPhase ev = Some tag)
       \<and> startedPhases evs = []
       \<and> currentPhase (world.state (worldOf (P w))) = tag"
proof -
  from pipeline_framed [of e] assms have "framed tag P"
    unfolding list_all_iff by blast
  then show ?thesis unfolding framed_def by blast
qed

lemma phases_run:
  assumes "list_all (\<lambda>(tag, P). framed tag P) ps"
  shows "(\<forall>w1. block (concat (map (\<lambda>(tag, P). [P, saveState e]) ps)) w = Inr w1 \<longrightarrow>
            (\<exists>evs. trace w1 = trace w @ evs \<and> startedPhases evs = map fst ps
               \<and> (\<forall>ev \<in> set evs. eventPhase ev = None \<or> eventPhase ev \<in> Some ` set (map fst ps))))
       \<and> (\<forall>err w1. block (concat (map (\<lambda>(tag, P). [P, saveState e]) ps)) w = Inl (err, w1) \<longrightarrow>
            (\<exists>k evs. k < length ps \<and> trace w1 = trace w @ evs
               \<and> startedPhases evs = map fst (take (Suc k) ps)
               \<and> (\<forall>ev \<in> set evs. eventPhase ev = None
                     \<or> eventPhase ev \<in> Some ` set (map fst (take (Suc k) ps)))
               \<and> currentPhase (world.state w1) = fst (ps ! k)
               \<and> (\<exists>w0. snd (ps ! k) w0 = Inl (err, w1))))"
  using assms
proof (induction ps arbitrary: w)
  case Nil
  show ?case by simp
next
  case (Cons p rest)
  obtain tag P where p: "p = (tag, P)" by (cases p)
  let ?stmts = "concat (map (\<lambda>(tag, P). [P, saveState e]) rest)"
  from Cons.prems p have "framed tag P" by simp
  then obtain evs0 where f:
    "trace (worldOf (P w)) = trace w @ PhaseStarted tag # evs0"
    "\<forall>ev \<in> set evs0. eventPhase ev = None \<or> eventPhase ev = Some tag"
    "startedPhases evs0 = []"
    "currentPhase (world.state (worldOf (P w))) = tag"
    unfolding framed_def by blast
  have ih: "(\<forall>w1. block ?stmts v = Inr w1 \<longrightarrow>
            (\<exists>evs. trace w1 = trace v @ evs \<and> startedPhases evs = map fst rest
               \<and> (\<forall>ev \<in> set evs. eventPhase ev = None \<or> eventPhase ev \<in> Some ` set (map fst rest))))
       \<and> (\<forall>err w1. block ?stmts v = Inl (err, w1) \<longrightarrow>
            (\<exists>k evs. k < length rest \<and> trace w1 = trace v @ evs
               \<and> startedPhases evs = map fst (take (Suc k) rest)
               \<and> (\<forall>ev \<in> set evs. eventPhase ev = None
                     \<or> eventPhase ev \<in> Some ` set (map fst (take (Suc k) rest)))
               \<and> currentPhase (world.state w1) = fst (rest ! k)
               \<and> (\<exists>w0. snd (rest ! k) w0 = Inl (err, w1))))" for v
    by (rule Cons.IH) (use Cons.prems in simp)
  show ?case
  proof (cases "P w")
    case (Inl x)
    obtain err wx where x: "x = (err, wx)" by (cases x)
    with Inl p have b: "block (concat (map (\<lambda>(tag, P). [P, saveState e]) (p # rest))) w = Inl (err, wx)"
      by simp
    from Inl x f have "trace wx = trace w @ PhaseStarted tag # evs0"
      "currentPhase (world.state wx) = tag" by simp_all
    with f(2,3) Inl x p have "\<exists>k evs. k < length (p # rest) \<and> trace wx = trace w @ evs
               \<and> startedPhases evs = map fst (take (Suc k) (p # rest))
               \<and> (\<forall>ev \<in> set evs. eventPhase ev = None
                     \<or> eventPhase ev \<in> Some ` set (map fst (take (Suc k) (p # rest))))
               \<and> currentPhase (world.state wx) = fst ((p # rest) ! k)
               \<and> (\<exists>w0. snd ((p # rest) ! k) w0 = Inl (err, wx))"
      by (intro exI [of _ 0] exI [of _ "PhaseStarted tag # evs0"]) auto
    with b show ?thesis by simp
  next
    case (Inr wa)
    from saveState_Inr [of e wa] obtain d l where
      s: "saveState e wa = Inr (wa\<lparr>trace := trace wa @ [SaveCalled (world.state wa), Logged l], disk := d\<rparr>)"
      by blast
    let ?wb = "wa\<lparr>trace := trace wa @ [SaveCalled (world.state wa), Logged l], disk := d\<rparr>"
    let ?pre = "PhaseStarted tag # evs0 @ [SaveCalled (world.state wa), Logged l]"
    from Inr s p have b: "block (concat (map (\<lambda>(tag, P). [P, saveState e]) (p # rest))) w = block ?stmts ?wb"
      by simp
    from Inr f have tb: "trace ?wb = trace w @ ?pre" by simp
    have sp: "startedPhases ?pre = [tag]" using f(3) by (simp add: startedPhases_append)
    have ep: "\<forall>ev \<in> set ?pre. eventPhase ev = None \<or> eventPhase ev = Some tag"
      using f(2) by auto
    show ?thesis
    proof (intro conjI allI impI)
      fix w1 assume "block (concat (map (\<lambda>(tag, P). [P, saveState e]) (p # rest))) w = Inr w1"
      with b ih [of ?wb] obtain evs where
        "trace w1 = trace ?wb @ evs" "startedPhases evs = map fst rest"
        "\<forall>ev \<in> set evs. eventPhase ev = None \<or> eventPhase ev \<in> Some ` set (map fst rest)"
        by auto
      with tb sp ep p show "\<exists>evs. trace w1 = trace w @ evs \<and> startedPhases evs = map fst (p # rest)
               \<and> (\<forall>ev \<in> set evs. eventPhase ev = None \<or> eventPhase ev \<in> Some ` set (map fst (p # rest)))"
        by (intro exI [of _ "?pre @ evs"]) (auto simp: startedPhases_append)
    next
      fix err w1 assume "block (concat (map (\<lambda>(tag, P). [P, saveState e]) (p # rest))) w = Inl (err, w1)"
      with b ih [of ?wb] obtain k evs where k:
        "k < length rest" "trace w1 = trace ?wb @ evs"
        "startedPhases evs = map fst (take (Suc k) rest)"
        "\<forall>ev \<in> set evs. eventPhase ev = None
                     \<or> eventPhase ev \<in> Some ` set (map fst (take (Suc k) rest))"
        "currentPhase (world.state w1) = fst (rest ! k)"
        "\<exists>w0. snd (rest ! k) w0 = Inl (err, w1)"
        by auto
      with tb sp ep p show "\<exists>k evs. k < length (p # rest) \<and> trace w1 = trace w @ evs
               \<and> startedPhases evs = map fst (take (Suc k) (p # rest))
               \<and> (\<forall>ev \<in> set evs. eventPhase ev = None
                     \<or> eventPhase ev \<in> Some ` set (map fst (take (Suc k) (p # rest))))
               \<and> currentPhase (world.state w1) = fst ((p # rest) ! k)
               \<and> (\<exists>w0. snd ((p # rest) ! k) w0 = Inl (err, w1))"
        by (intro exI [of _ "Suc k"] exI [of _ "?pre @ evs"]) (auto simp: startedPhases_append)
    qed
  qed
qed

lemma saveState_ok:
  assumes "mkdirThrows (fs e (saveCount (trace w))) = None"
    and "stringifyThrows (fs e (saveCount (trace w))) = None"
    and "writeFileThrows (fs e (saveCount (trace w))) = None"
  shows "saveState e w =
     Inr (w\<lparr>trace := trace w @ [SaveCalled (world.state w),
                Logged (LogDebug (''State saved to '' @ stateFile (runId (world.state w))))],
           disk := (disk w)(stateFile (runId (world.state w)) \<mapsto> world.state w)\<rparr>)"
  using assms
  by (simp add: saveState_def StateManager_save_def saveTry_def Let_def record_event_def)

lemma statements_append:
  "concat (map (\<lambda>(tag, P). [P, saveState e]) (xs @ ys)) =
     concat (map (\<lambda>(tag, P). [P, saveState e]) xs) @ concat (map (\<lambda>(tag, P). [P, saveState e]) ys)"
  by simp

lemma tryBlock_throws:
  assumes k: "k < length (pipeline e)"
    and reached: "block (concat (map (\<lambda>(tag, P). [P, saveState e]) (take k (pipeline e)))) w = Inr w'"
    and throws: "snd (pipeline e ! k) w' = Inl (err, w1)"
  shows "tryBlock e w = Inl (err, w1)"
proof -
  obtain tag P where p: "pipeline e ! k = (tag, P)" by (cases "pipeline e ! k")
  from k have split: "pipeline e = take k (pipeline e) @ (tag, P) # drop (Suc k) (pipeline e)"
    using p by (metis id_take_nth_drop)
  have "tryBlock e w = block (concat (map (\<lambda>(tag, P). [P, saveState e])
      (take k (pipeline e) @ (tag, P) # drop (Suc k) (pipeline e)))) w"
    using tryBlock_pipeline [of e w] split by simp
  also have "\<dots> = block (concat (map (\<lambda>(tag, P). [P, saveState e])
      ((tag, P) # drop (Suc k) (pipeline e)))) w'"
    unfolding statements_append block_append using reached by simp
  also have "\<dots> = Inl (err, w1)"
    using throws p by simp
  finally show ?thesis .
qed

lemma run_abort:
  fixes env :: env and w w' w1 :: world and k :: nat and e :: thrown
  assumes "k < length (pipeline env)"
    and "block (concat (map (\<lambda>(tag, P). [P, saveState env]) (take k (pipeline env)))) w = Inr w'"
    and "snd (pipeline env ! k) w' = Inl (e, w1)"
  shows "\<exists>r wf evs line.
      run env w = Inr (r, wf)
    \<and> RunResult.success r = False
    \<and> RunResult.error r = Some (thrownMessage e)
    \<and> currentPhase (RunResult.state r) = fst (pipeline env ! k)
    \<and> RunResult.state r = (world.state w1)\<lparr>errors := OrchestratorState.errors (world.state w1)
          @ [\<lparr>phase = fst (pipeline env ! k), error = thrownMessage e, timestamp = dateNow env\<rparr>]\<rparr>
    \<and> trace wf = trace w @ evs @ [SaveCalled (RunResult.state r), Logged line]
    \<and> startedPhases evs = map fst (take (Suc k) (pipeline env))
    \<and> (\<forall>ev \<in> set evs. eventPhase ev = None
          \<or> eventPhase ev \<in> Some ` set (map fst (take (Suc k) (pipeline env))))
    \<and> (mkdirThrows (fs env (saveCount (trace w1))) = None
        \<and> stringifyThrows (fs env (saveCount (trace w1))) = None
        \<and> writeFileThrows (fs env (saveCount (trace w1))) = None
        \<longrightarrow> disk wf (stateFile (runId (RunResult.state r))) = Some (RunResult.state r))"
proof -
  let ?ps = "pipeline env"
  let ?tag = "fst (?ps ! k)"
  let ?msg = "thrownMessage e"
  let ?st = "(world.state w1)\<lparr>errors := OrchestratorState.errors (world.state w1)
          @ [\<lparr>phase = currentPhase (world.state w1), error = ?msg, timestamp = dateNow env\<rparr>]\<rparr>"
  let ?w2 = "w1\<lparr>state := ?st\<rparr>"
  have tb: "tryBlock env w = Inl (e, w1)"
    using tryBlock_throws [OF assms] .
  \<comment> \<open>the phases before the failing one\<close>
  have "list_all (\<lambda>(tag, P). framed tag P) (take k ?ps)"
    using pipeline_framed [of env] unfolding list_all_iff by (blast dest: in_set_takeD)
  from phases_run [of "take k ?ps" env w, OF this] assms(2) obtain evs1 where e1:
    "trace w' = trace w @ evs1" "startedPhases evs1 = map fst (take k ?ps)"
    "\<forall>ev \<in> set evs1. eventPhase ev = None \<or> eventPhase ev \<in> Some ` set (map fst (take k ?ps))"
    by blast
  \<comment> \<open>the failing phase\<close>
  have mem: "(?tag, snd (?ps ! k)) \<in> set ?ps"
    using assms(1) by (metis nth_mem prod.collapse)
  from pipeline_frames [OF mem, of w'] assms(3) obtain evs0 where e0:
    "trace w1 = trace w' @ PhaseStarted ?tag # evs0"
    "\<forall>ev \<in> set evs0. eventPhase ev = None \<or> eventPhase ev = Some ?tag"
    "startedPhases evs0 = []"
    "currentPhase (world.state w1) = ?tag"
    by auto
  let ?evs = "evs1 @ PhaseStarted ?tag # evs0"
  have tk: "take (Suc k) ?ps = take k ?ps @ [?ps ! k]"
    using assms(1) by (simp add: take_Suc_conv_app_nth)
  have sp: "startedPhases ?evs = map fst (take (Suc k) ?ps)"
    using e1(2) e0(3) by (simp add: startedPhases_append tk)
  have ep: "\<forall>ev \<in> set ?evs. eventPhase ev = None
          \<or> eventPhase ev \<in> Some ` set (map fst (take (Suc k) ?ps))"
    using e1(3) e0(2) unfolding tk by auto
  \<comment> \<open>the catch block\<close>
  from saveState_Inr [of env ?w2] obtain d l where
    sv: "saveState env ?w2 =
       Inr (?w2\<lparr>trace := trace ?w2 @ [SaveCalled (world.state ?w2), Logged l], disk := d\<rparr>)"
    by blast
  let ?wf = "?w2\<lparr>trace := trace ?w2 @ [SaveCalled (world.state ?w2), Logged l], disk := d\<rparr>"
  let ?r = "\<lparr>RunResult.success = False, idea = None, repoUrl = None, tweetUrl = None,
             totalTime = elapsedSeconds env (world.state ?wf), state = world.state ?wf,
             error = Some ?msg\<rparr>"
  have rn: "run env w = Inr (?r, ?wf)"
    by (simp add: run_def tb Let_def sv)
  have st: "RunResult.state ?r = ?st" by simp
  have tr: "trace ?wf = trace w @ ?evs @ [SaveCalled (RunResult.state ?r), Logged l]"
    using e1(1) e0(1) by simp
  have dk: "disk ?wf (stateFile (runId (RunResult.state ?r))) = Some (RunResult.state ?r)"
    if "mkdirThrows (fs env (saveCount (trace w1))) = None"
       "stringifyThrows (fs env (saveCount (trace w1))) = None"
       "writeFileThrows (fs env (saveCount (trace w1))) = None"
  proof -
    from that have "saveState env ?w2 =
      Inr (?w2\<lparr>trace := trace ?w2 @ [SaveCalled (world.state ?w2),
                Logged (LogDebug (''State saved to '' @ stateFile (runId (world.state ?w2))))],
           disk := (disk ?w2)(stateFile (runId (world.state ?w2)) \<mapsto> world.state ?w2)\<rparr>)"
      by (intro saveState_ok) simp_all
    with sv have "Inr ?wf = (Inr (?w2\<lparr>trace := trace ?w2 @ [SaveCalled (world.state ?w2),
                Logged (LogDebug (''State saved to '' @ stateFile (runId (world.state ?w2))))],
           disk := (disk ?w2)(stateFile (runId (world.state ?w2)) \<mapsto> world.state ?w2)\<rparr>) :: step)"
      by (rule trans [OF sym])
    then have "disk ?wf = disk (?w2\<lparr>trace := trace ?w2 @ [SaveCalled (world.state ?w2),
                Logged (LogDebug (''State saved to '' @ stateFile (runId (world.state ?w2))))],
           disk := (disk ?w2)(stateFile (runId (world.state ?w2)) \<mapsto> world.state ?w2)\<rparr>)"
      by (simp only: sum.inject)
    then have "d = (disk ?w2)(stateFile (runId (world.state ?w2)) \<mapsto> world.state ?w2)"
      by simp
    then show ?thesis by simp
  qed
  show ?thesis
    apply (intro exI [of _ ?r] exI [of _ ?wf] exI [of _ ?evs] exI [of _ l] conjI)
    subgoal by (rule rn)
    subgoal by simp
    subgoal by simp
    subgoal using e0(4) by simp
    subgoal using e0(4) by simp
    subgoal by (rule tr)
    subgoal by (rule sp)
    subgoal by (rule ep)
    subgoal using dk by blast
    done
qed

text \<open>
  Claim C4. Let the run reach its \<open>k\<close>th phase (every earlier phase and the save after it
  having completed) and let that phase throw: an error of its oracle, a timeout of its time
  budget, or its own \<open>throw\<close>. Then \<open>run\<close> returns a result with \<open>success = false\<close> and the
  message of the thrown value as \<open>error\<close>; the final state is the state at the throw with
  one record appended to \<open>errors\<close>, holding the tag of the failing phase, the message and
  the time; \<open>currentPhase\<close> is the tag of the failing phase; the phases entered are the
  first \<open>k + 1\<close> of the pipeline and every oracle call made belongs to one of them, so no
  later phase runs; and the last thing the run does is to save that final state, which is
  on disk whenever the file system does not fail.
\<close>

theorem run_aborts_at_throwing_phase:
  fixes env :: env and w w' w1 :: world and k :: nat and e :: thrown
  assumes "k < length (pipeline env)"
    and "block (concat (map (\<lambda>(tag, P). [P, saveState env]) (take k (pipeline env)))) w = Inr w'"
    and "snd (pipeline env ! k) w' = Inl (e, w1)"
  shows "\<exists>r wf evs line.
      run env w = Inr (r, wf)
    \<and> RunResult.success r = False
    \<and> RunResult.error r = Some (thrownMessage e)
    \<and> currentPhase (RunResult.state r) = fst (pipeline env ! k)
    \<and> RunResult.state r = (world.state w1)\<lparr>errors := OrchestratorState.errors (world.state w1)
          @ [\<lparr>phase = fst (pipeline env ! k), error = thrownMessage e, timestamp = dateNow env\<rparr>]\<rparr>
    \<and> trace wf = trace w @ evs @ [SaveCalled (RunResult.state r), Logged line]
    \<and> startedPhases evs = map fst (take (Suc k) (pipeline env))
    \<and> (\<forall>ev \<in> set evs. eventPhase ev = None
          \<or> eventPhase ev \<in> Some ` set (map fst (take (Suc k) (pipeline env))))
    \<and> (mkdirThrows (fs env (saveCount (trace w1))) = None
        \<and> stringifyThrows (fs env (saveCount (trace w1))) = None
        \<and> writeFileThrows (fs env (saveCount (trace w1))) = None
        \<longrightarrow> disk wf (stateFile (runId (RunResult.state r))) = Some (RunResult.state r))"
  using assms by (rule run_abort)

lemma researched_append: "researched (xs @ ys) = researched xs @ researched ys"
  by (induction xs rule: researched.induct) simp_all

lemma researchLoop_skip:
  "(\<forall>i < length pre. \<not> ships e (n + i) (pre ! i)) \<Longrightarrow>
     \<exists>v. researchLoop e n (pre @ rest) w = researchLoop e (n + length pre) rest v
       \<and> world.state v = world.state w
       \<and> researched (trace v) = researched (trace w) @ pre"
proof (induction pre arbitrary: n w)
  case Nil
  show ?case by (intro exI [of _ w]) simp
next
  case (Cons c cs)
  let ?w1 = "record_event (ResearchCalled c) w"
  let ?w2 = "record_event (Logged (LogWarn (''Research failed for '' @ GeneratedIdea.name c))) ?w1"
  from Cons.prems have c: "\<not> ships e n c" by fastforce
  from Cons.prems have cs: "\<forall>i < length cs. \<not> ships e (Suc n + i) (cs ! i)" by fastforce
  obtain v0 where v0: "researchLoop e n ((c # cs) @ rest) w = researchLoop e (Suc n) (cs @ rest) v0"
    "world.state v0 = world.state w" "researched (trace v0) = researched (trace w) @ [c]"
  proof (cases "researchOutcome e n c")
    case (Inl err)
    then have "researchLoop e n ((c # cs) @ rest) w = researchLoop e (Suc n) (cs @ rest) ?w2"
      by (simp add: researchOutcome_def Let_def)
    then show ?thesis
      by (rule that) (simp_all add: record_event_def researched_append)
  next
    case (Inr report)
    with c have "recommendation report \<noteq> SHIP" by (simp add: ships_def)
    with Inr have "researchLoop e n ((c # cs) @ rest) w = researchLoop e (Suc n) (cs @ rest) ?w1"
      by (simp add: researchOutcome_def Let_def)
    then show ?thesis
      by (rule that) (simp_all add: record_event_def researched_append)
  qed
  from Cons.IH [OF cs, of v0] obtain v where
    "researchLoop e (Suc n) (cs @ rest) v0 = researchLoop e (Suc n + length cs) rest v"
    "world.state v = world.state v0" "researched (trace v) = researched (trace v0) @ cs"
    by blast
  with v0 show ?case by (intro exI [of _ v]) simp
qed

lemma researchLoop_ship:
  assumes "researchOutcome e n c = Inr report" "recommendation report = SHIP"
  shows "researchLoop e n (c # post) w =
     Inr (w\<lparr>state := (world.state w)\<lparr>selectedIdea := Some c, research := Some report\<rparr>,
           trace := trace w @ [ResearchCalled c]\<rparr>)"
  using assms by (simp add: researchOutcome_def Let_def record_event_def)

lemma phase3_selects:
  assumes ideas: "ideas (world.state w) = Some (pre @ chosen # post)"
    and skip: "\<forall>i < length pre. \<not> ships e i (pre ! i)"
    and ship: "ships e (length pre) chosen"
  shows "\<exists>w1 report. phase3_ResearchIdeas e w = Inr w1
     \<and> researchOutcome e (length pre) chosen = Inr report \<and> recommendation report = SHIP
     \<and> world.state w1 = (world.state w)\<lparr>currentPhase := ''research'',
          selectedIdea := Some chosen, research := Some report\<rparr>
     \<and> researched (trace w1) = researched (trace w) @ pre @ [chosen]"
proof -
  let ?w0 = "enterPhase ''research'' w"
  from ship obtain report where r: "researchOutcome e (length pre) chosen = Inr report"
    "recommendation report = SHIP"
    by (auto simp: ships_def split: sum.splits)
  from skip have "\<forall>i < length pre. \<not> ships e (0 + i) (pre ! i)" by simp
  from researchLoop_skip [OF this, of "chosen # post" ?w0] obtain v where v:
    "researchLoop e 0 (pre @ chosen # post) ?w0 = researchLoop e (length pre) (chosen # post) v"
    "world.state v = world.state ?w0" "researched (trace v) = researched (trace ?w0) @ pre"
    by auto
  have "phase3_ResearchIdeas e w = researchLoop e 0 (pre @ chosen # post) ?w0"
    using ideas by (simp add: phase3_ResearchIdeas_def Let_def enterPhase_def)
  also have "\<dots> = Inr (v\<lparr>state := (world.state v)\<lparr>selectedIdea := Some chosen, research := Some report\<rparr>,
           trace := trace v @ [ResearchCalled chosen]\<rparr>)"
    unfolding v(1) using r by (rule researchLoop_ship)
  finally show ?thesis
    using v(2,3) r
    by (intro exI [of _ "v\<lparr>state := (world.state v)\<lparr>selectedIdea := Some chosen, research := Some report\<rparr>,
           trace := trace v @ [ResearchCalled chosen]\<rparr>"] exI [of _ report])
       (simp add: enterPhase_def researched_append)
qed

lemma phase3_exhausts:
  assumes ideas: "ideas (world.state w) = Some xs"
    and skip: "\<forall>i < length xs. \<not> ships e i (xs ! i)"
  shows "\<exists>w1. phase3_ResearchIdeas e w = Inl (JsError ''No shippable ideas after research'', w1)
     \<and> world.state w1 = (world.state w)\<lparr>currentPhase := ''research''\<rparr>
     \<and> researched (trace w1) = researched (trace w) @ xs"
proof -
  let ?w0 = "enterPhase ''research'' w"
  from skip have "\<forall>i < length xs. \<not> ships e (0 + i) (xs ! i)" by simp
  from researchLoop_skip [OF this, of "[]" ?w0] obtain v where v:
    "researchLoop e 0 xs ?w0 = researchLoop e (length xs) [] v"
    "world.state v = world.state ?w0" "researched (trace v) = researched (trace ?w0) @ xs"
    by auto
  have "phase3_ResearchIdeas e w = researchLoop e 0 xs ?w0"
    using ideas by (simp add: phase3_ResearchIdeas_def Let_def enterPhase_def)
  with v show ?thesis
    by (intro exI [of _ v]) (simp add: enterPhase_def researched_append)
qed

lemma saveState_state:
  "\<exists>w1. saveState e w = Inr w1 \<and> world.state w1 = world.state w"
  using saveState_Inr [of e w] by auto

lemma phase1_resolves:
  assumes "awaitBudget (jsRuntime (ideaJudge e)) ''scout-trends'' (TimeBudgets.trendScout timeBudgets)
      (trendScout e \<lparr>period = Daily, language = Some [''TypeScript'', ''JavaScript''],
                     minStars = Some 100\<rparr>) = Inr found"
    and "found \<noteq> []"
  shows "\<exists>w1. phase1_ScoutTrends e w = Inr w1
    \<and> world.state w1 = (world.state w)\<lparr>currentPhase := ''scout-trends'', trends := Some found\<rparr>"
  using assms by (simp add: phase1_ScoutTrends_def Let_def enterPhase_def record_event_def)

lemma phase2_resolves:
  assumes "awaitBudget (jsRuntime (ideaJudge e)) ''generate-ideas''
      (TimeBudgets.ideaGenerator timeBudgets) (ideaGenerator e (trends (world.state w))) = Inr allIdeas"
    and "allIdeas \<noteq> []"
  shows "\<exists>w1. phase2_GenerateIdeas e w = Inr w1
    \<and> world.state w1 = (world.state w)\<lparr>currentPhase := ''generate-ideas'', ideas := Some allIdeas\<rparr>"
  using assms by (simp add: phase2_GenerateIdeas_def Let_def enterPhase_def record_event_def)

lemma phase2b_first_round:
  assumes "awaitBudget (jsRuntime (ideaJudge e))
      (''judge-ideas-round-'' @ numToString (jsRuntime (ideaJudge e)) 0)
      (TimeBudgets.ideaJudge timeBudgets)
      (filterCall e 0 0 (ideas (world.state w)) (buildRepoMap (trends (world.state w)))) = Inr res"
    and "FilterResult.approved res \<noteq> []"
  shows "\<exists>w1. phase2b_JudgeIdeas e w = Inr w1
    \<and> world.state w1 = (world.state w)\<lparr>currentPhase := ''judge-ideas'',
          ideas := Some (FilterResult.approved res)\<rparr>
    \<and> filterCalls (trace w1) = filterCalls (trace w) @ [(0, ideas (world.state w))]"
proof -
  have fc: "filterCalls (xs @ ys) = filterCalls xs @ filterCalls ys" for xs ys
    by (induction xs rule: filterCalls.induct) simp_all
  show ?thesis
    using assms
    by (simp add: phase2b_JudgeIdeas_def Let_def enterPhase_def record_event_def
        judgeRounds.simps [of _ _ 0] MAX_ROUNDS_def fc)
qed

lemma phase4_resolves:
  assumes "awaitBudget (jsRuntime (ideaJudge e)) ''implement''
      (TimeBudgets.implementer timeBudgets)
      (implementer e (selectedIdea (world.state w)) (research (world.state w))) = Inr impl"
    and "status impl \<noteq> Failed"
  shows "\<exists>w1. phase4_Implement e w = Inr w1
    \<and> world.state w1 = (world.state w)\<lparr>currentPhase := ''implement'', implementation := Some impl\<rparr>"
  using assms by (simp add: phase4_Implement_def Let_def enterPhase_def record_event_def)

lemma phase5_resolves:
  assumes "awaitBudget (jsRuntime (ideaJudge e)) ''deploy''
      (TimeBudgets.deployer timeBudgets)
      (deployer e (implementation (world.state w)) (selectedIdea (world.state w))) = Inr dep"
    and "DeploymentResult.success dep"
  shows "\<exists>w1. phase5_Deploy e w = Inr w1
    \<and> world.state w1 = (world.state w)\<lparr>currentPhase := ''deploy'', deployment := Some dep\<rparr>"
  using assms by (simp add: phase5_Deploy_def Let_def enterPhase_def record_event_def)

lemma phase5_failed_result:
  assumes "awaitBudget (jsRuntime (ideaJudge e)) ''deploy''
      (TimeBudgets.deployer timeBudgets)
      (deployer e (implementation (world.state w)) (selectedIdea (world.state w))) = Inr dep"
    and "\<not> DeploymentResult.success dep"
  shows "\<exists>w1. phase5_Deploy e w =
      Inl (JsError (''Deployment failed: '' @ joinWith '', '' (DeploymentResult.errors dep)), w1)
    \<and> world.state w1 = (world.state w)\<lparr>currentPhase := ''deploy''\<rparr>"
  using assms by (simp add: phase5_Deploy_def Let_def enterPhase_def record_event_def)

lemma phase6_resolves:
  assumes "awaitBudget (jsRuntime (ideaJudge e)) ''announce''
      (TimeBudgets.announcer timeBudgets)
      (announcer e (deployment (world.state w)) (selectedIdea (world.state w))
         (implementation (world.state w))) = Inr tweet"
  shows "\<exists>w1. phase6_Announce e w = Inr w1
    \<and> world.state w1 = (world.state w)\<lparr>currentPhase := ''announce'', announcement := Some tweet\<rparr>
    \<and> (\<not> TweetResult.success tweet \<longrightarrow>
          trace w1 = trace w @ [PhaseStarted ''announce'',
             AnnounceCalled (deployment (world.state w)) (selectedIdea (world.state w))
               (implementation (world.state w)),
             Logged (LogWarn ''Tweet failed (non-fatal)'')])"
  using assms by (simp add: phase6_Announce_def Let_def enterPhase_def record_event_def)

lemma demo_names:
  "GeneratedIdea.name demoIdea = ''tool''" "GeneratedIdea.name orphanIdea = ''orphan''"
  "GeneratedIdea.name cloneIdea = ''lib-lite''"
  by (simp_all add: demoIdea_def orphanIdea_def cloneIdea_def)

lemma buildRepoMap_demo: "buildRepoMap (Some [demoRepo]) = demoRepos"
  by (simp add: buildRepoMap_def demoRepos_def demoRepo_def)

lemma demo_budget: "jsRuntime demoJudgeEnv = demoRuntime" "timerFiresAt demoRuntime d = d"
  by (simp_all add: demoJudgeEnv_def demoRuntime_def)

lemma demo_core:
  assumes "trendScout E = trendScout demoEnv" "ideaGenerator E = ideaGenerator demoEnv"
    "ideaJudge E = demoJudgeEnv" "filterSettles E = filterSettles demoEnv"
    "researcher E = researcher demoEnv"
  shows "\<exists>w4. block [phase1_ScoutTrends E, saveState E, phase2_GenerateIdeas E, saveState E,
                     phase2b_JudgeIdeas E, saveState E, phase3_ResearchIdeas E, saveState E]
                demoWorld = Inr w4
           \<and> world.state w4 = researchedState"
proof -
  have "awaitBudget (jsRuntime (ideaJudge E)) ''scout-trends'' (TimeBudgets.trendScout timeBudgets)
      (trendScout E \<lparr>period = Daily, language = Some [''TypeScript'', ''JavaScript''],
                     minStars = Some 100\<rparr>) = Inr [demoRepo]"
    by (simp add: assms awaitBudget_eq demoEnv_def demo_budget timeBudgets_def)
  from phase1_resolves [OF this, of demoWorld] obtain w1 where w1:
    "phase1_ScoutTrends E demoWorld = Inr w1"
    "world.state w1 = (world.state demoWorld)\<lparr>currentPhase := ''scout-trends'', trends := Some [demoRepo]\<rparr>"
    by auto
  from saveState_state [of E w1] obtain v1 where v1:
    "saveState E w1 = Inr v1" "world.state v1 = world.state w1" by blast
  have "awaitBudget (jsRuntime (ideaJudge E)) ''generate-ideas''
      (TimeBudgets.ideaGenerator timeBudgets) (ideaGenerator E (trends (world.state v1)))
      = Inr [demoIdea, orphanIdea, cloneIdea]"
    by (simp add: assms awaitBudget_eq demoEnv_def demo_budget timeBudgets_def)
  from phase2_resolves [OF this] obtain w2 where w2:
    "phase2_GenerateIdeas E v1 = Inr w2"
    "world.state w2 = (world.state v1)\<lparr>currentPhase := ''generate-ideas'',
        ideas := Some [demoIdea, orphanIdea, cloneIdea]\<rparr>"
    by auto
  from saveState_state [of E w2] obtain v2 where v2:
    "saveState E w2 = Inr v2" "world.state v2 = world.state w2" by blast
  have "awaitBudget (jsRuntime (ideaJudge E))
      (''judge-ideas-round-'' @ numToString (jsRuntime (ideaJudge E)) 0)
      (TimeBudgets.ideaJudge timeBudgets)
      (filterCall E 0 0 (ideas (world.state v2)) (buildRepoMap (trends (world.state v2))))
     = Inr \<lparr>approved = [demoIdea, orphanIdea],
        rejected = [(cloneIdea, failedVerdict (''LLM evaluation failed '' @ emDash @ '' erring on the side of rejection''))],
        judged = [(demoIdea, demoRepo), (cloneIdea, demoRepo)]\<rparr>"
    by (simp add: assms awaitBudget_eq demoEnv_def demo_budget timeBudgets_def filterCall_def
        v2 w2 v1 w1 buildRepoMap_demo filter_demo)
  from phase2b_first_round [OF this] obtain w3 where w3:
    "phase2b_JudgeIdeas E v2 = Inr w3"
    "world.state w3 = (world.state v2)\<lparr>currentPhase := ''judge-ideas'',
        ideas := Some [demoIdea, orphanIdea]\<rparr>"
    by auto
  from saveState_state [of E w3] obtain v3 where v3:
    "saveState E w3 = Inr v3" "world.state v3 = world.state w3" by blast
  have i3: "ideas (world.state v3) = Some ([demoIdea] @ orphanIdea # [])"
    by (simp add: v3 w3)
  have skip: "\<forall>i < length [demoIdea]. \<not> ships E i ([demoIdea] ! i)"
    by (simp add: ships_def researchOutcome_def awaitBudget_eq assms demoEnv_def demo_names)
  have ship: "ships E (length [demoIdea]) orphanIdea"
    "researchOutcome E (length [demoIdea]) orphanIdea = Inr shipReport"
    by (simp_all add: ships_def researchOutcome_def awaitBudget_eq assms demoEnv_def demo_names
        demo_budget timeBudgets_def shipReport_def)
  from phase3_selects [OF i3 skip ship(1)] ship(2) obtain w4 where w4:
    "phase3_ResearchIdeas E v3 = Inr w4"
    "world.state w4 = (world.state v3)\<lparr>currentPhase := ''research'',
          selectedIdea := Some orphanIdea, research := Some shipReport\<rparr>"
    by auto
  from saveState_state [of E w4] obtain v4 where v4:
    "saveState E w4 = Inr v4" "world.state v4 = world.state w4" by blast
  have "world.state v4 = researchedState"
    by (simp add: v4 w4 v3 w3 v2 w2 v1 w1 demoWorld_def newOrchestrator_def researchedState_def)
  moreover have "block [phase1_ScoutTrends E, saveState E, phase2_GenerateIdeas E, saveState E,
                     phase2b_JudgeIdeas E, saveState E, phase3_ResearchIdeas E, saveState E]
                demoWorld = Inr v4"
    by (simp add: w1 v1 w2 v2 w3 v3 w4 v4)
  ultimately show ?thesis by blast
qed

lemma phase4_rejects:
  assumes "awaitBudget (jsRuntime (ideaJudge e)) ''implement''
      (TimeBudgets.implementer timeBudgets)
      (implementer e (selectedIdea (world.state w)) (research (world.state w))) = Inl err"
  shows "\<exists>w1. phase4_Implement e w = Inl (err, w1)
    \<and> world.state w1 = (world.state w)\<lparr>currentPhase := ''implement''\<rparr>"
  using assms by (simp add: phase4_Implement_def Let_def enterPhase_def record_event_def)

lemma pipeline_take4:
  "take 4 (pipeline e) = [(''scout-trends'', phase1_ScoutTrends e),
      (''generate-ideas'', phase2_GenerateIdeas e),
      (''judge-ideas'', phase2b_JudgeIdeas e),
      (''research'', phase3_ResearchIdeas e)]"
  "4 < length (pipeline e)" "pipeline e ! 4 = (''implement'', phase4_Implement e)"
  "map fst (take 5 (pipeline e)) =
     [''scout-trends'', ''generate-ideas'', ''judge-ideas'', ''research'', ''implement'']"
  by (simp_all add: pipeline_def)

theorem run_aborts_at_throwing_phase_witness:
  "4 < length (pipeline implFailEnv)
   \<and> fst (pipeline implFailEnv ! 4) = ''implement''
   \<and> (\<exists>r wf. run implFailEnv demoWorld = Inr (r, wf)
        \<and> RunResult.success r = False
        \<and> RunResult.error r = Some ''agent crashed''
        \<and> currentPhase (RunResult.state r) = ''implement''
        \<and> OrchestratorState.errors (RunResult.state r) =
            [\<lparr>phase = ''implement'', error = ''agent crashed'', timestamp = 9000\<rparr>]
        \<and> startedPhases (trace wf) =
            [''scout-trends'', ''generate-ideas'', ''judge-ideas'', ''research'', ''implement'']
        \<and> disk wf (stateFile ''run-1'') = Some (RunResult.state r))"
proof -
  let ?E = implFailEnv
  have fields: "trendScout ?E = trendScout demoEnv" "ideaGenerator ?E = ideaGenerator demoEnv"
    "ideaJudge ?E = demoJudgeEnv" "filterSettles ?E = filterSettles demoEnv"
    "researcher ?E = researcher demoEnv"
    by (simp_all add: implFailEnv_def demoEnv_def)
  from demo_core [OF fields] obtain w4 where w4:
    "block [phase1_ScoutTrends ?E, saveState ?E, phase2_GenerateIdeas ?E, saveState ?E,
            phase2b_JudgeIdeas ?E, saveState ?E, phase3_ResearchIdeas ?E, saveState ?E]
       demoWorld = Inr w4"
    "world.state w4 = researchedState"
    by blast
  have h1: "4 < length (pipeline ?E)" by (rule pipeline_take4)
  have h2: "block (concat (map (\<lambda>(tag, P). [P, saveState ?E]) (take 4 (pipeline ?E)))) demoWorld
      = Inr w4"
    using w4(1) by (simp add: pipeline_take4)
  have "awaitBudget (jsRuntime (ideaJudge ?E)) ''implement''
      (TimeBudgets.implementer timeBudgets)
      (implementer ?E (selectedIdea (world.state w4)) (research (world.state w4)))
      = Inl (JsError ''agent crashed'')"
    by (simp add: implFailEnv_def demoEnv_def awaitBudget_eq demo_budget timeBudgets_def)
  from phase4_rejects [OF this] obtain w5 where w5:
    "phase4_Implement ?E w4 = Inl (JsError ''agent crashed'', w5)"
    "world.state w5 = (world.state w4)\<lparr>currentPhase := ''implement''\<rparr>"
    by blast
  have h3: "snd (pipeline ?E ! 4) w4 = Inl (JsError ''agent crashed'', w5)"
    using w5(1) by (simp add: pipeline_take4)
  from run_aborts_at_throwing_phase [OF h1 h2 h3] obtain r wf evs line where c:
    "run ?E demoWorld = Inr (r, wf)"
    "RunResult.success r = False"
    "RunResult.error r = Some (thrownMessage (JsError ''agent crashed''))"
    "currentPhase (RunResult.state r) = fst (pipeline ?E ! 4)"
    "RunResult.state r = (world.state w5)\<lparr>errors := OrchestratorState.errors (world.state w5)
          @ [\<lparr>phase = fst (pipeline ?E ! 4), error = thrownMessage (JsError ''agent crashed''),
              timestamp = dateNow ?E\<rparr>]\<rparr>"
    "trace wf = trace demoWorld @ evs @ [SaveCalled (RunResult.state r), Logged line]"
    "startedPhases evs = map fst (take (Suc 4) (pipeline ?E))"
    "mkdirThrows (fs ?E (saveCount (trace w5))) = None
        \<and> stringifyThrows (fs ?E (saveCount (trace w5))) = None
        \<and> writeFileThrows (fs ?E (saveCount (trace w5))) = None
        \<longrightarrow> disk wf (stateFile (runId (RunResult.state r))) = Some (RunResult.state r)"
    by blast
  have e: "OrchestratorState.errors (RunResult.state r) =
            [\<lparr>phase = ''implement'', error = ''agent crashed'', timestamp = 9000\<rparr>]"
    by (simp add: c(5) w5(2) w4(2) researchedState_def pipeline_take4 implFailEnv_def demoEnv_def)
  have s: "startedPhases (trace wf) =
            [''scout-trends'', ''generate-ideas'', ''judge-ideas'', ''research'', ''implement'']"
    using c(7) by (simp add: c(6) startedPhases_append pipeline_take4 demoWorld_def newOrchestrator_def)
  have rid: "runId (RunResult.state r) = ''run-1''"
    by (simp add: c(5) w5(2) w4(2) researchedState_def)
  have d: "disk wf (stateFile ''run-1'') = Some (RunResult.state r)"
    using c(8) by (simp add: rid implFailEnv_def demoEnv_def okFs_def)
  from h1 c(1,2,3,4) e s d show ?thesis
    by (intro conjI exI [of _ r] exI [of _ wf]) (simp_all add: pipeline_take4)
qed

lemma demo_judged:
  assumes "trendScout E = trendScout demoEnv" "ideaGenerator E = ideaGenerator demoEnv"
    "ideaJudge E = demoJudgeEnv" "filterSettles E = filterSettles demoEnv"
  shows "\<exists>w3. block [phase1_ScoutTrends E, saveState E, phase2_GenerateIdeas E, saveState E,
                     phase2b_JudgeIdeas E, saveState E]
                demoWorld = Inr w3
           \<and> world.state w3 = judgedState"
proof -
  have "awaitBudget (jsRuntime (ideaJudge E)) ''scout-trends'' (TimeBudgets.trendScout timeBudgets)
      (trendScout E \<lparr>period = Daily, language = Some [''TypeScript'', ''JavaScript''],
                     minStars = Some 100\<rparr>) = Inr [demoRepo]"
    by (simp add: assms awaitBudget_eq demoEnv_def demo_budget timeBudgets_def)
  from phase1_resolves [OF this, of demoWorld] obtain w1 where w1:
    "phase1_ScoutTrends E demoWorld = Inr w1"
    "world.state w1 = (world.state demoWorld)\<lparr>currentPhase := ''scout-trends'', trends := Some [demoRepo]\<rparr>"
    by auto
  from saveState_state [of E w1] obtain v1 where v1:
    "saveState E w1 = Inr v1" "world.state v1 = world.state w1" by blast
  have "awaitBudget (jsRuntime (ideaJudge E)) ''generate-ideas''
      (TimeBudgets.ideaGenerator timeBudgets) (ideaGenerator E (trends (world.state v1)))
      = Inr [demoIdea, orphanIdea, cloneIdea]"
    by (simp add: assms awaitBudget_eq demoEnv_def demo_budget timeBudgets_def)
  from phase2_resolves [OF this] obtain w2 where w2:
    "phase2_GenerateIdeas E v1 = Inr w2"
    "world.state w2 = (world.state v1)\<lparr>currentPhase := ''generate-ideas'',
        ideas := Some [demoIdea, orphanIdea, cloneIdea]\<rparr>"
    by auto
  from saveState_state [of E w2] obtain v2 where v2:
    "saveState E w2 = Inr v2" "world.state v2 = world.state w2" by blast
  have "awaitBudget (jsRuntime (ideaJudge E))
      (''judge-ideas-round-'' @ numToString (jsRuntime (ideaJudge E)) 0)
      (TimeBudgets.ideaJudge timeBudgets)
      (filterCall E 0 0 (ideas (world.state v2)) (buildRepoMap (trends (world.state v2))))
     = Inr \<lparr>approved = [demoIdea, orphanIdea],
        rejected = [(cloneIdea, failedVerdict (''LLM evaluation failed '' @ emDash @ '' erring on the side of rejection''))],
        judged = [(demoIdea, demoRepo), (cloneIdea, demoRepo)]\<rparr>"
    by (simp add: assms awaitBudget_eq demoEnv_def demo_budget timeBudgets_def filterCall_def
        v2 w2 v1 w1 buildRepoMap_demo filter_demo)
  from phase2b_first_round [OF this] obtain w3 where w3:
    "phase2b_JudgeIdeas E v2 = Inr w3"
    "world.state w3 = (world.state v2)\<lparr>currentPhase := ''judge-ideas'',
        ideas := Some [demoIdea, orphanIdea]\<rparr>"
    by auto
  from saveState_state [of E w3] obtain v3 where v3:
    "saveState E w3 = Inr v3" "world.state v3 = world.state w3" by blast
  have "world.state v3 = judgedState"
    by (simp add: v3 w3 v2 w2 v1 w1 demoWorld_def newOrchestrator_def judgedState_def)
  moreover have "block [phase1_ScoutTrends E, saveState E, phase2_GenerateIdeas E, saveState E,
                     phase2b_JudgeIdeas E, saveState E]
                demoWorld = Inr v3"
    by (simp add: w1 v1 w2 v2 w3 v3)
  ultimately show ?thesis by blast
qed

lemma pipeline_take3:
  "take 3 (pipeline e) = [(''scout-trends'', phase1_ScoutTrends e),
      (''generate-ideas'', phase2_GenerateIdeas e),
      (''judge-ideas'', phase2b_JudgeIdeas e)]"
  "3 < length (pipeline e)" "pipeline e ! 3 = (''research'', phase3_ResearchIdeas e)"
  by (simp_all add: pipeline_def)

text \<open>
  Claim C3. In the research phase the candidates are researched one at a time, in list
  order. If the ideas before some candidate do not ship (the research call fails, times
  out, or recommends something else than SHIP) and that candidate does, the phase completes
  with that candidate as the selected idea and its report stored, and the ideas researched
  are exactly those up to and including it: the ones after it are never researched. If no
  candidate ships, every one has been researched, the phase throws, and a run that has
  reached the phase returns a failure with that error.
\<close>

theorem research_first_ship_short_circuits:
  fixes env :: env and w :: world
  shows
   "(\<forall>pre chosen post.
        ideas (world.state w) = Some (pre @ chosen # post)
        \<and> (\<forall>i < length pre. \<not> ships env i (pre ! i))
        \<and> ships env (length pre) chosen
        \<longrightarrow> (\<exists>w1 report. phase3_ResearchIdeas env w = Inr w1
               \<and> researchOutcome env (length pre) chosen = Inr report
               \<and> recommendation report = SHIP
               \<and> selectedIdea (world.state w1) = Some chosen
               \<and> research (world.state w1) = Some report
               \<and> researched (trace w1) = researched (trace w) @ pre @ [chosen]))
    \<and> (\<forall>xs. ideas (world.state w) = Some xs
            \<and> (\<forall>i < length xs. \<not> ships env i (xs ! i))
        \<longrightarrow> (\<exists>w1. phase3_ResearchIdeas env w =
                      Inl (JsError ''No shippable ideas after research'', w1)
               \<and> researched (trace w1) = researched (trace w) @ xs
               \<and> (\<forall>w0. block (concat (map (\<lambda>(tag, P). [P, saveState env])
                                  (take 3 (pipeline env)))) w0 = Inr w
                    \<longrightarrow> (\<exists>r wf. run env w0 = Inr (r, wf)
                           \<and> RunResult.success r = False
                           \<and> RunResult.error r = Some ''No shippable ideas after research''
                           \<and> currentPhase (RunResult.state r) = ''research''))))"
proof (intro conjI allI impI)
  fix pre chosen post
  assume a: "ideas (world.state w) = Some (pre @ chosen # post)
        \<and> (\<forall>i < length pre. \<not> ships env i (pre ! i))
        \<and> ships env (length pre) chosen"
  then have "\<exists>w1 report. phase3_ResearchIdeas env w = Inr w1
     \<and> researchOutcome env (length pre) chosen = Inr report \<and> recommendation report = SHIP
     \<and> world.state w1 = (world.state w)\<lparr>currentPhase := ''research'',
          selectedIdea := Some chosen, research := Some report\<rparr>
     \<and> researched (trace w1) = researched (trace w) @ pre @ [chosen]"
    by (intro phase3_selects) simp_all
  then obtain w1 report where "phase3_ResearchIdeas env w = Inr w1"
     "researchOutcome env (length pre) chosen = Inr report" "recommendation report = SHIP"
     "world.state w1 = (world.state w)\<lparr>currentPhase := ''research'',
          selectedIdea := Some chosen, research := Some report\<rparr>"
     "researched (trace w1) = researched (trace w) @ pre @ [chosen]"
    by blast
  then show "\<exists>w1 report. phase3_ResearchIdeas env w = Inr w1
               \<and> researchOutcome env (length pre) chosen = Inr report
               \<and> recommendation report = SHIP
               \<and> selectedIdea (world.state w1) = Some chosen
               \<and> research (world.state w1) = Some report
               \<and> researched (trace w1) = researched (trace w) @ pre @ [chosen]"
    by (intro exI [of _ w1] exI [of _ report]) simp
next
  fix xs
  assume a: "ideas (world.state w) = Some xs \<and> (\<forall>i < length xs. \<not> ships env i (xs ! i))"
  then have "\<exists>w1. phase3_ResearchIdeas env w = Inl (JsError ''No shippable ideas after research'', w1)
     \<and> world.state w1 = (world.state w)\<lparr>currentPhase := ''research''\<rparr>
     \<and> researched (trace w1) = researched (trace w) @ xs"
    by (intro phase3_exhausts) simp_all
  then obtain w1 where w1:
    "phase3_ResearchIdeas env w = Inl (JsError ''No shippable ideas after research'', w1)"
    "researched (trace w1) = researched (trace w) @ xs"
    by blast
  have "\<exists>r wf. run env w0 = Inr (r, wf)
                           \<and> RunResult.success r = False
                           \<and> RunResult.error r = Some ''No shippable ideas after research''
                           \<and> currentPhase (RunResult.state r) = ''research''"
    if "block (concat (map (\<lambda>(tag, P). [P, saveState env]) (take 3 (pipeline env)))) w0 = Inr w"
    for w0
  proof -
    have t: "snd (pipeline env ! 3) w = Inl (JsError ''No shippable ideas after research'', w1)"
      using w1(1) by (simp add: pipeline_take3)
    from run_abort [OF pipeline_take3(2) that t] show ?thesis
      by (auto simp: pipeline_take3)
  qed
  with w1 show "\<exists>w1. phase3_ResearchIdeas env w =
                      Inl (JsError ''No shippable ideas after research'', w1)
               \<and> researched (trace w1) = researched (trace w) @ xs
               \<and> (\<forall>w0. block (concat (map (\<lambda>(tag, P). [P, saveState env])
                                  (take 3 (pipeline env)))) w0 = Inr w
                    \<longrightarrow> (\<exists>r wf. run env w0 = Inr (r, wf)
                           \<and> RunResult.success r = False
                           \<and> RunResult.error r = Some ''No shippable ideas after research''
                           \<and> currentPhase (RunResult.state r) = ''research''))"
    by (intro exI [of _ w1]) blast
qed

theorem research_first_ship_short_circuits_witness:
  "ideas (world.state researchWorld) = Some ([demoIdea, cloneIdea] @ orphanIdea # [demoIdea])
   \<and> \<not> ships demoEnv 0 demoIdea \<and> \<not> ships demoEnv 1 cloneIdea \<and> ships demoEnv 2 orphanIdea
   \<and> (\<exists>w1. phase3_ResearchIdeas demoEnv researchWorld = Inr w1
        \<and> selectedIdea (world.state w1) = Some orphanIdea
        \<and> research (world.state w1) = Some shipReport
        \<and> researched (trace w1) = [demoIdea, cloneIdea, orphanIdea])
   \<and> (\<exists>w. world.state w = judgedState
        \<and> \<not> ships exhaustEnv 0 demoIdea \<and> \<not> ships exhaustEnv 1 orphanIdea
        \<and> block (concat (map (\<lambda>(tag, P). [P, saveState exhaustEnv])
                   (take 3 (pipeline exhaustEnv)))) demoWorld = Inr w
        \<and> (\<exists>r wf. run exhaustEnv demoWorld = Inr (r, wf)
              \<and> RunResult.success r = False
              \<and> RunResult.error r = Some ''No shippable ideas after research''
              \<and> currentPhase (RunResult.state r) = ''research''))"
proof -
  have i: "ideas (world.state researchWorld) = Some ([demoIdea, cloneIdea] @ orphanIdea # [demoIdea])"
    by (simp add: researchWorld_def)
  have s: "\<not> ships demoEnv 0 demoIdea" "\<not> ships demoEnv 1 cloneIdea" "ships demoEnv 2 orphanIdea"
    "researchOutcome demoEnv 2 orphanIdea = Inr shipReport"
    by (simp_all add: ships_def researchOutcome_def awaitBudget_eq demoEnv_def demo_names
        demo_budget timeBudgets_def shipReport_def pivotReport_def)
  have sk: "\<forall>i < length [demoIdea, cloneIdea]. \<not> ships demoEnv i ([demoIdea, cloneIdea] ! i)"
    using s(1,2) by (simp add: less_Suc_eq)
  from research_first_ship_short_circuits [of researchWorld demoEnv] i sk s(3)
  have "\<exists>w1 report. phase3_ResearchIdeas demoEnv researchWorld = Inr w1
               \<and> researchOutcome demoEnv (length [demoIdea, cloneIdea]) orphanIdea = Inr report
               \<and> recommendation report = SHIP
               \<and> selectedIdea (world.state w1) = Some orphanIdea
               \<and> research (world.state w1) = Some report
               \<and> researched (trace w1) = researched (trace researchWorld) @ [demoIdea, cloneIdea] @ [orphanIdea]"
    by (metis length_Cons list.size(3) numeral_2_eq_2)
  then obtain w1 report where w1: "phase3_ResearchIdeas demoEnv researchWorld = Inr w1"
    "researchOutcome demoEnv (length [demoIdea, cloneIdea]) orphanIdea = Inr report"
    "selectedIdea (world.state w1) = Some orphanIdea" "research (world.state w1) = Some report"
    "researched (trace w1) = researched (trace researchWorld) @ [demoIdea, cloneIdea] @ [orphanIdea]"
    by blast
  from w1(2) s(4) have "report = shipReport" by (simp add: numeral_2_eq_2)
  with w1 have first: "\<exists>w1. phase3_ResearchIdeas demoEnv researchWorld = Inr w1
        \<and> selectedIdea (world.state w1) = Some orphanIdea
        \<and> research (world.state w1) = Some shipReport
        \<and> researched (trace w1) = [demoIdea, cloneIdea, orphanIdea]"
    by (intro exI [of _ w1])
       (simp add: researchWorld_def demoWorld_def newOrchestrator_def)
  have fields: "trendScout exhaustEnv = trendScout demoEnv"
    "ideaGenerator exhaustEnv = ideaGenerator demoEnv"
    "ideaJudge exhaustEnv = demoJudgeEnv" "filterSettles exhaustEnv = filterSettles demoEnv"
    by (simp_all add: exhaustEnv_def demoEnv_def)
  from demo_judged [OF fields] obtain w where w:
    "block [phase1_ScoutTrends exhaustEnv, saveState exhaustEnv, phase2_GenerateIdeas exhaustEnv,
            saveState exhaustEnv, phase2b_JudgeIdeas exhaustEnv, saveState exhaustEnv]
       demoWorld = Inr w"
    "world.state w = judgedState"
    by blast
  have b: "block (concat (map (\<lambda>(tag, P). [P, saveState exhaustEnv])
                   (take 3 (pipeline exhaustEnv)))) demoWorld = Inr w"
    using w(1) by (simp add: pipeline_take3)
  have x: "\<not> ships exhaustEnv 0 demoIdea" "\<not> ships exhaustEnv 1 orphanIdea"
    by (simp_all add: ships_def researchOutcome_def awaitBudget_eq exhaustEnv_def demoEnv_def)
  have xi: "ideas (world.state w) = Some [demoIdea, orphanIdea]"
    by (simp add: w(2) judgedState_def)
  have xs: "\<forall>i < length [demoIdea, orphanIdea]. \<not> ships exhaustEnv i ([demoIdea, orphanIdea] ! i)"
    using x by (simp add: less_Suc_eq)
  from research_first_ship_short_circuits [of w exhaustEnv] xi xs b
  have "\<exists>r wf. run exhaustEnv demoWorld = Inr (r, wf)
              \<and> RunResult.success r = False
              \<and> RunResult.error r = Some ''No shippable ideas after research''
              \<and> currentPhase (RunResult.state r) = ''research''"
    by blast
  with w(2) x b have second: "\<exists>w. world.state w = judgedState
        \<and> \<not> ships exhaustEnv 0 demoIdea \<and> \<not> ships exhaustEnv 1 orphanIdea
        \<and> block (concat (map (\<lambda>(tag, P). [P, saveState exhaustEnv])
                   (take 3 (pipeline exhaustEnv)))) demoWorld = Inr w
        \<and> (\<exists>r wf. run exhaustEnv demoWorld = Inr (r, wf)
              \<and> RunResult.success r = False
              \<and> RunResult.error r = Some ''No shippable ideas after research''
              \<and> currentPhase (RunResult.state r) = ''research'')"
    by (intro exI [of _ w]) blast
  from i s(1,2,3) first second show ?thesis by blast
qed

lemma run_success:
  assumes "tryBlock e w = Inr w1"
  shows "run e w = Inr (\<lparr>RunResult.success = True,
                idea = selectedIdea (world.state w1),
                repoUrl = map_option DeploymentResult.repoUrl (deployment (world.state w1)),
                tweetUrl = Option.bind (announcement (world.state w1)) TweetResult.tweetUrl,
                totalTime = elapsedSeconds e (world.state w1),
                state = world.state w1,
                error = None\<rparr>, w1)"
  using assms by (simp add: run_def)

lemma run_returns:
  "\<exists>r wf evs. run e w = Inr (r, wf) \<and> trace wf = trace w @ evs
     \<and> (\<forall>ev \<in> set evs. eventPhase ev = None
           \<or> eventPhase ev \<in> Some ` set (map fst (pipeline e)))"
proof (cases "tryBlock e w")
  case (Inr w1)
  then have b: "block (concat (map (\<lambda>(tag, P). [P, saveState e]) (pipeline e))) w = Inr w1"
    by (simp add: tryBlock_pipeline)
  from phases_run [OF pipeline_framed, of e e w] b obtain evs where
    "trace w1 = trace w @ evs"
    "\<forall>ev \<in> set evs. eventPhase ev = None \<or> eventPhase ev \<in> Some ` set (map fst (pipeline e))"
    by blast
  with run_success [OF Inr] show ?thesis by blast
next
  case (Inl x)
  obtain err w1 where x: "x = (err, w1)" by (cases x)
  with Inl have b: "block (concat (map (\<lambda>(tag, P). [P, saveState e]) (pipeline e))) w = Inl (err, w1)"
    by (simp add: tryBlock_pipeline)
  from phases_run [OF pipeline_framed, of e e w] b obtain k evs where k:
    "trace w1 = trace w @ evs"
    "\<forall>ev \<in> set evs. eventPhase ev = None
        \<or> eventPhase ev \<in> Some ` set (map fst (take (Suc k) (pipeline e)))"
    by blast
  have sub: "set (map fst (take (Suc k) (pipeline e))) \<subseteq> set (map fst (pipeline e))"
    by (metis set_take_subset take_map)
  let ?st = "(world.state w1)\<lparr>errors := OrchestratorState.errors (world.state w1)
          @ [\<lparr>phase = currentPhase (world.state w1), error = thrownMessage err,
              timestamp = dateNow e\<rparr>]\<rparr>"
  let ?w2 = "w1\<lparr>state := ?st\<rparr>"
  from saveState_Inr [of e ?w2] obtain d l where
    sv: "saveState e ?w2 =
       Inr (?w2\<lparr>trace := trace ?w2 @ [SaveCalled (world.state ?w2), Logged l], disk := d\<rparr>)"
    by blast
  let ?wf = "?w2\<lparr>trace := trace ?w2 @ [SaveCalled (world.state ?w2), Logged l], disk := d\<rparr>"
  let ?r = "\<lparr>RunResult.success = False, idea = None, repoUrl = None, tweetUrl = None,
             totalTime = elapsedSeconds e (world.state ?wf), state = world.state ?wf,
             error = Some (thrownMessage err)\<rparr>"
  have rn: "run e w = Inr (?r, ?wf)"
    using Inl x by (simp add: run_def Let_def sv)
  have tr: "trace ?wf = trace w @ (evs @ [SaveCalled (world.state ?w2), Logged l])"
    using k(1) by simp
  have ep: "\<forall>ev \<in> set (evs @ [SaveCalled (world.state ?w2), Logged l]). eventPhase ev = None
           \<or> eventPhase ev \<in> Some ` set (map fst (pipeline e))"
    using k(2) sub by auto
  from rn tr ep show ?thesis by blast
qed

lemma pipeline_dry:
  "dryRun (system e) \<Longrightarrow> map fst (pipeline e) =
     [''scout-trends'', ''generate-ideas'', ''judge-ideas'', ''research'', ''implement'']"
  by (simp add: pipeline_def)

text \<open>
  Claim C7. With the dry-run flag set, and whatever the flags \<open>skipGithub\<close> and
  \<open>skipTwitter\<close> are, \<open>run\<close> returns and nothing it does is a call of the deploy oracle or
  of the announce oracle; neither of the two phases is entered.
\<close>

theorem dry_run_never_delivers:
  fixes env :: env and w :: world
  assumes "dryRun (system env)"
  shows "\<exists>r wf evs. run env w = Inr (r, wf) \<and> trace wf = trace w @ evs
     \<and> (\<forall>ev \<in> set evs.
           (\<forall>impl chosen. ev \<noteq> DeployCalled impl chosen)
         \<and> (\<forall>dep chosen impl. ev \<noteq> AnnounceCalled dep chosen impl)
         \<and> ev \<noteq> PhaseStarted ''deploy'' \<and> ev \<noteq> PhaseStarted ''announce'')"
proof -
  from run_returns [of env w] obtain r wf evs where r:
    "run env w = Inr (r, wf)" "trace wf = trace w @ evs"
    "\<forall>ev \<in> set evs. eventPhase ev = None
           \<or> eventPhase ev \<in> Some ` set (map fst (pipeline env))"
    by blast
  have "(\<forall>impl chosen. ev \<noteq> DeployCalled impl chosen)
         \<and> (\<forall>dep chosen impl. ev \<noteq> AnnounceCalled dep chosen impl)
         \<and> ev \<noteq> PhaseStarted ''deploy'' \<and> ev \<noteq> PhaseStarted ''announce''"
    if "ev \<in> set evs" for ev
  proof -
    from r(3) that have "eventPhase ev = None
        \<or> eventPhase ev \<in> Some ` set [''scout-trends'', ''generate-ideas'', ''judge-ideas'',
              ''research'', ''implement'']"
      using pipeline_dry [OF assms] by simp
    then have "eventPhase ev \<noteq> Some ''deploy'' \<and> eventPhase ev \<noteq> Some ''announce''"
      by auto
    then show ?thesis by auto
  qed
  with r(1,2) show ?thesis by blast
qed

lemma block_append_Inr:
  "block xs w = Inr w1 \<Longrightarrow> block (xs @ ys) w = block ys w1"
  by (simp add: block_append)

lemma demo_implemented:
  assumes "trendScout E = trendScout demoEnv" "ideaGenerator E = ideaGenerator demoEnv"
    "ideaJudge E = demoJudgeEnv" "filterSettles E = filterSettles demoEnv"
    "researcher E = researcher demoEnv" "implementer E = implementer demoEnv"
  shows "\<exists>w5. block [phase1_ScoutTrends E, saveState E, phase2_GenerateIdeas E, saveState E,
                     phase2b_JudgeIdeas E, saveState E, phase3_ResearchIdeas E, saveState E,
                     phase4_Implement E, saveState E]
                demoWorld = Inr w5
           \<and> world.state w5 = implementedState"
proof -
  from demo_core [OF assms(1-5)] obtain w4 where w4:
    "block [phase1_ScoutTrends E, saveState E, phase2_GenerateIdeas E, saveState E,
            phase2b_JudgeIdeas E, saveState E, phase3_ResearchIdeas E, saveState E]
       demoWorld = Inr w4"
    "world.state w4 = researchedState"
    by blast
  have "awaitBudget (jsRuntime (ideaJudge E)) ''implement''
      (TimeBudgets.implementer timeBudgets)
      (implementer E (selectedIdea (world.state w4)) (research (world.state w4))) = Inr partialImpl"
    by (simp add: assms awaitBudget_eq demoEnv_def demo_budget timeBudgets_def)
  from phase4_resolves [OF this] obtain w5 where w5:
    "phase4_Implement E w4 = Inr w5"
    "world.state w5 = (world.state w4)\<lparr>currentPhase := ''implement'',
        implementation := Some partialImpl\<rparr>"
    by (auto simp: partialImpl_def)
  from saveState_state [of E w5] obtain v5 where v5:
    "saveState E w5 = Inr v5" "world.state v5 = world.state w5" by blast
  have "block ([phase1_ScoutTrends E, saveState E, phase2_GenerateIdeas E, saveState E,
            phase2b_JudgeIdeas E, saveState E, phase3_ResearchIdeas E, saveState E]
          @ [phase4_Implement E, saveState E]) demoWorld = Inr v5"
    unfolding block_append_Inr [OF w4(1)] by (simp add: w5 v5)
  moreover have "world.state v5 = implementedState"
    by (simp add: v5 w5 w4 implementedState_def)
  ultimately show ?thesis by (intro exI [of _ v5]) simp
qed

lemma demo_deployed:
  assumes "trendScout E = trendScout demoEnv" "ideaGenerator E = ideaGenerator demoEnv"
    "ideaJudge E = demoJudgeEnv" "filterSettles E = filterSettles demoEnv"
    "researcher E = researcher demoEnv" "implementer E = implementer demoEnv"
    "deployer E = deployer demoEnv"
  shows "\<exists>w6. block [phase1_ScoutTrends E, saveState E, phase2_GenerateIdeas E, saveState E,
                     phase2b_JudgeIdeas E, saveState E, phase3_ResearchIdeas E, saveState E,
                     phase4_Implement E, saveState E, phase5_Deploy E, saveState E]
                demoWorld = Inr w6
           \<and> world.state w6 = deployedState"
proof -
  from demo_implemented [OF assms(1-6)] obtain w5 where w5:
    "block [phase1_ScoutTrends E, saveState E, phase2_GenerateIdeas E, saveState E,
            phase2b_JudgeIdeas E, saveState E, phase3_ResearchIdeas E, saveState E,
            phase4_Implement E, saveState E]
       demoWorld = Inr w5"
    "world.state w5 = implementedState"
    by blast
  have "awaitBudget (jsRuntime (ideaJudge E)) ''deploy''
      (TimeBudgets.deployer timeBudgets)
      (deployer E (implementation (world.state w5)) (selectedIdea (world.state w5)))
      = Inr goodDeployment"
    by (simp add: assms awaitBudget_eq demoEnv_def demo_budget timeBudgets_def)
  from phase5_resolves [OF this] obtain w6 where w6:
    "phase5_Deploy E w5 = Inr w6"
    "world.state w6 = (world.state w5)\<lparr>currentPhase := ''deploy'',
        deployment := Some goodDeployment\<rparr>"
    by (auto simp: goodDeployment_def)
  from saveState_state [of E w6] obtain v6 where v6:
    "saveState E w6 = Inr v6" "world.state v6 = world.state w6" by blast
  have "block ([phase1_ScoutTrends E, saveState E, phase2_GenerateIdeas E, saveState E,
            phase2b_JudgeIdeas E, saveState E, phase3_ResearchIdeas E, saveState E,
            phase4_Implement E, saveState E]
          @ [phase5_Deploy E, saveState E]) demoWorld = Inr v6"
    unfolding block_append_Inr [OF w5(1)] by (simp add: w6 v6)
  moreover have "world.state v6 = deployedState"
    by (simp add: v6 w6 w5 deployedState_def)
  ultimately show ?thesis by (intro exI [of _ v6]) simp
qed

theorem dry_run_never_delivers_witness:
  "dryRun (system dryEnv) \<and> \<not> skipGithub (system dryEnv) \<and> \<not> skipTwitter (system dryEnv)
   \<and> (\<exists>r wf. run dryEnv demoWorld = Inr (r, wf)
        \<and> RunResult.success r
        \<and> world.state wf = implementedState
        \<and> (\<forall>ev \<in> set (trace wf).
              (\<forall>impl chosen. ev \<noteq> DeployCalled impl chosen)
            \<and> (\<forall>dep chosen impl. ev \<noteq> AnnounceCalled dep chosen impl)))"
proof -
  have flags: "dryRun (system dryEnv)" "\<not> skipGithub (system dryEnv)"
    "\<not> skipTwitter (system dryEnv)"
    by (simp_all add: dryEnv_def)
  have fields: "trendScout dryEnv = trendScout demoEnv" "ideaGenerator dryEnv = ideaGenerator demoEnv"
    "ideaJudge dryEnv = demoJudgeEnv" "filterSettles dryEnv = filterSettles demoEnv"
    "researcher dryEnv = researcher demoEnv" "implementer dryEnv = implementer demoEnv"
    by (simp_all add: dryEnv_def demoEnv_def)
  from demo_implemented [OF fields] obtain w5 where w5:
    "block [phase1_ScoutTrends dryEnv, saveState dryEnv, phase2_GenerateIdeas dryEnv,
            saveState dryEnv, phase2b_JudgeIdeas dryEnv, saveState dryEnv,
            phase3_ResearchIdeas dryEnv, saveState dryEnv, phase4_Implement dryEnv,
            saveState dryEnv]
       demoWorld = Inr w5"
    "world.state w5 = implementedState"
    by blast
  have tb: "tryBlock dryEnv demoWorld = Inr w5"
    using w5(1) flags(1) by (simp add: tryBlock_pipeline pipeline_def)
  from dry_run_never_delivers [OF flags(1), of demoWorld] obtain r wf evs where r:
    "run dryEnv demoWorld = Inr (r, wf)" "trace wf = trace demoWorld @ evs"
    "\<forall>ev \<in> set evs.
           (\<forall>impl chosen. ev \<noteq> DeployCalled impl chosen)
         \<and> (\<forall>dep chosen impl. ev \<noteq> AnnounceCalled dep chosen impl)
         \<and> ev \<noteq> PhaseStarted ''deploy'' \<and> ev \<noteq> PhaseStarted ''announce''"
    by blast
  from run_success [OF tb] r(1) have s: "RunResult.success r" "wf = w5" by simp_all
  have t: "trace wf = evs" using r(2) by (simp add: demoWorld_def newOrchestrator_def)
  from flags r(1) s w5(2) r(3) t show ?thesis
    by (intro conjI exI [of _ r] exI [of _ wf]) simp_all
qed

lemma pipeline_announce_last:
  assumes "\<not> dryRun (system e)" "\<not> skipTwitter (system e)"
  shows "pipeline e = butlast (pipeline e) @ [(''announce'', phase6_Announce e)]"
  using assms by (simp add: pipeline_def)

lemma pipeline_deploy:
  assumes "\<not> dryRun (system e)" "\<not> skipGithub (system e)"
  shows "5 < length (pipeline e)" "pipeline e ! 5 = (''deploy'', phase5_Deploy e)"
    "map fst (take (Suc 5) (pipeline e)) =
       [''scout-trends'', ''generate-ideas'', ''judge-ideas'', ''research'', ''implement'',
        ''deploy'']"
  using assms by (simp_all add: pipeline_def)

lemma announce_failure_lemma:
  assumes flags: "\<not> dryRun (system e)" "\<not> skipTwitter (system e)"
    and reached: "block (concat (map (\<lambda>(tag, P). [P, saveState e]) (butlast (pipeline e)))) w0 = Inr w"
    and tweet: "awaitBudget (jsRuntime (ideaJudge e)) ''announce''
      (TimeBudgets.announcer timeBudgets)
      (announcer e (deployment (world.state w)) (selectedIdea (world.state w))
         (implementation (world.state w))) = Inr tweet"
    and failed: "\<not> TweetResult.success tweet"
  shows "\<exists>r wf. run e w0 = Inr (r, wf)
     \<and> RunResult.success r = True \<and> RunResult.error r = None
     \<and> announcement (RunResult.state r) = Some tweet
     \<and> OrchestratorState.errors (RunResult.state r) = OrchestratorState.errors (world.state w)
     \<and> Logged (LogWarn ''Tweet failed (non-fatal)'') \<in> set (trace wf)"
proof -
  from phase6_resolves [OF tweet] failed obtain w1 where w1:
    "phase6_Announce e w = Inr w1"
    "world.state w1 = (world.state w)\<lparr>currentPhase := ''announce'', announcement := Some tweet\<rparr>"
    "trace w1 = trace w @ [PhaseStarted ''announce'',
             AnnounceCalled (deployment (world.state w)) (selectedIdea (world.state w))
               (implementation (world.state w)),
             Logged (LogWarn ''Tweet failed (non-fatal)'')]"
    by blast
  from saveState_Inr [of e w1] obtain d l where sv:
    "saveState e w1 = Inr (w1\<lparr>trace := trace w1 @ [SaveCalled (world.state w1), Logged l], disk := d\<rparr>)"
    by blast
  let ?wf = "w1\<lparr>trace := trace w1 @ [SaveCalled (world.state w1), Logged l], disk := d\<rparr>"
  have "tryBlock e w0 = block (concat (map (\<lambda>(tag, P). [P, saveState e])
      (butlast (pipeline e) @ [(''announce'', phase6_Announce e)]))) w0"
    using tryBlock_pipeline [of e w0] pipeline_announce_last [OF flags] by simp
  also have "\<dots> = block [phase6_Announce e, saveState e] w"
    unfolding statements_append block_append_Inr [OF reached] by simp
  also have "\<dots> = Inr ?wf"
    by (simp add: w1(1) sv)
  finally have tb: "tryBlock e w0 = Inr ?wf" .
  from run_success [OF tb] w1(2,3) show ?thesis
    by (intro exI conjI) (assumption, simp_all)
qed

lemma deploy_failure_lemma:
  assumes flags: "\<not> dryRun (system e)" "\<not> skipGithub (system e)"
    and reached: "block (concat (map (\<lambda>(tag, P). [P, saveState e]) (take 5 (pipeline e)))) w0 = Inr w"
    and dep: "awaitBudget (jsRuntime (ideaJudge e)) ''deploy''
      (TimeBudgets.deployer timeBudgets)
      (deployer e (implementation (world.state w)) (selectedIdea (world.state w))) = Inr dep"
    and failed: "\<not> DeploymentResult.success dep"
  shows "\<exists>r wf evs. run e w0 = Inr (r, wf)
     \<and> RunResult.success r = False
     \<and> RunResult.error r = Some (''Deployment failed: '' @ joinWith '', '' (DeploymentResult.errors dep))
     \<and> currentPhase (RunResult.state r) = ''deploy''
     \<and> deployment (RunResult.state r) = deployment (world.state w)
     \<and> announcement (RunResult.state r) = announcement (world.state w)
     \<and> trace wf = trace w0 @ evs
     \<and> (\<forall>ev \<in> set evs. \<forall>d chosen impl. ev \<noteq> AnnounceCalled d chosen impl)"
proof -
  let ?err = "JsError (''Deployment failed: '' @ joinWith '', '' (DeploymentResult.errors dep))"
  from phase5_failed_result [OF dep failed] obtain w1 where w1:
    "phase5_Deploy e w = Inl (?err, w1)"
    "world.state w1 = (world.state w)\<lparr>currentPhase := ''deploy''\<rparr>"
    by blast
  have t: "snd (pipeline e ! 5) w = Inl (?err, w1)"
    using w1(1) pipeline_deploy(2) [OF flags] by simp
  from run_abort [OF pipeline_deploy(1) [OF flags] reached t] obtain r wf evs line where c:
    "run e w0 = Inr (r, wf)"
    "RunResult.success r = False"
    "RunResult.error r = Some (thrownMessage ?err)"
    "currentPhase (RunResult.state r) = fst (pipeline e ! 5)"
    "RunResult.state r = (world.state w1)\<lparr>errors := OrchestratorState.errors (world.state w1)
          @ [\<lparr>phase = fst (pipeline e ! 5), error = thrownMessage ?err,
              timestamp = dateNow e\<rparr>]\<rparr>"
    "trace wf = trace w0 @ evs @ [SaveCalled (RunResult.state r), Logged line]"
    "\<forall>ev \<in> set evs. eventPhase ev = None
          \<or> eventPhase ev \<in> Some ` set (map fst (take (Suc 5) (pipeline e)))"
    by blast
  have na: "\<forall>d chosen impl. ev \<noteq> AnnounceCalled d chosen impl"
    if "ev \<in> set (evs @ [SaveCalled (RunResult.state r), Logged line])" for ev
  proof -
    from that c(7) have "eventPhase ev = None
        \<or> eventPhase ev \<in> Some ` set [''scout-trends'', ''generate-ideas'', ''judge-ideas'',
              ''research'', ''implement'', ''deploy'']"
      unfolding pipeline_deploy(3) [OF flags] by auto
    then have "eventPhase ev \<noteq> Some ''announce''" by auto
    then show ?thesis by auto
  qed
  show ?thesis
    apply (intro exI [of _ r] exI [of _ wf]
        exI [of _ "evs @ [SaveCalled (RunResult.state r), Logged line]"] conjI)
    subgoal by (rule c(1))
    subgoal by (rule c(2))
    subgoal using c(3) by simp
    subgoal using c(4) pipeline_deploy(2) [OF flags] by simp
    subgoal by (simp add: c(5) w1(2))
    subgoal by (simp add: c(5) w1(2))
    subgoal using c(6) by simp
    subgoal using na by blast
    done
qed

text \<open>
  Claim C9. Let the run reach the announce phase and let the announce oracle resolve,
  within its budget, with a result whose \<open>success\<close> is false: then the result is stored in
  \<open>state.announcement\<close>, no error is recorded, a warning is logged, and \<open>run\<close> returns
  \<open>success = true\<close>. Let the run reach the deploy phase and let the deploy oracle resolve
  with a result whose \<open>success\<close> is false: then \<open>run\<close> returns \<open>success = false\<close> with the
  deployment error, in phase \<open>deploy\<close>, the result is not stored and the announce oracle
  is not called.
\<close>

theorem announce_failure_is_not_fatal:
  fixes env :: env and w0 w :: world
  shows
   "(\<forall>tweet. \<not> dryRun (system env) \<and> \<not> skipTwitter (system env)
        \<and> block (concat (map (\<lambda>(tag, P). [P, saveState env]) (butlast (pipeline env)))) w0 = Inr w
        \<and> awaitBudget (jsRuntime (ideaJudge env)) ''announce'' (TimeBudgets.announcer timeBudgets)
            (announcer env (deployment (world.state w)) (selectedIdea (world.state w))
               (implementation (world.state w))) = Inr tweet
        \<and> \<not> TweetResult.success tweet
      \<longrightarrow> (\<exists>r wf. run env w0 = Inr (r, wf)
             \<and> RunResult.success r = True \<and> RunResult.error r = None
             \<and> announcement (RunResult.state r) = Some tweet
             \<and> OrchestratorState.errors (RunResult.state r) = OrchestratorState.errors (world.state w)
             \<and> Logged (LogWarn ''Tweet failed (non-fatal)'') \<in> set (trace wf)))
    \<and> (\<forall>dep. \<not> dryRun (system env) \<and> \<not> skipGithub (system env)
        \<and> block (concat (map (\<lambda>(tag, P). [P, saveState env]) (take 5 (pipeline env)))) w0 = Inr w
        \<and> awaitBudget (jsRuntime (ideaJudge env)) ''deploy'' (TimeBudgets.deployer timeBudgets)
            (deployer env (implementation (world.state w)) (selectedIdea (world.state w))) = Inr dep
        \<and> \<not> DeploymentResult.success dep
      \<longrightarrow> (\<exists>r wf evs. run env w0 = Inr (r, wf)
             \<and> RunResult.success r = False
             \<and> RunResult.error r =
                 Some (''Deployment failed: '' @ joinWith '', '' (DeploymentResult.errors dep))
             \<and> currentPhase (RunResult.state r) = ''deploy''
             \<and> deployment (RunResult.state r) = deployment (world.state w)
             \<and> announcement (RunResult.state r) = announcement (world.state w)
             \<and> trace wf = trace w0 @ evs
             \<and> (\<forall>ev \<in> set evs. \<forall>d chosen impl. ev \<noteq> AnnounceCalled d chosen impl)))"
  using announce_failure_lemma [of env w0 w] deploy_failure_lemma [of env w0 w]
  by blast

theorem announce_failure_is_not_fatal_witness:
  "\<not> dryRun (system demoEnv) \<and> \<not> skipTwitter (system demoEnv)
   \<and> \<not> TweetResult.success failedTweet
   \<and> (\<exists>r wf. run demoEnv demoWorld = Inr (r, wf)
        \<and> RunResult.success r = True
        \<and> announcement (RunResult.state r) = Some failedTweet
        \<and> implementation (RunResult.state r) = Some partialImpl
        \<and> OrchestratorState.errors (RunResult.state r) = [])
   \<and> \<not> dryRun (system deployFailEnv) \<and> \<not> skipGithub (system deployFailEnv)
   \<and> \<not> DeploymentResult.success failedDeployment
   \<and> (\<exists>r wf. run deployFailEnv demoWorld = Inr (r, wf)
        \<and> RunResult.success r = False
        \<and> RunResult.error r = Some ''Deployment failed: push rejected, no token''
        \<and> currentPhase (RunResult.state r) = ''deploy''
        \<and> deployment (RunResult.state r) = None
        \<and> announcement (RunResult.state r) = None)"
proof -
  have flags: "\<not> dryRun (system demoEnv)" "\<not> skipTwitter (system demoEnv)"
    "\<not> skipGithub (system demoEnv)"
    by (simp_all add: demoEnv_def)
  have ft: "\<not> TweetResult.success failedTweet" by (simp add: failedTweet_def)
  from demo_deployed [of demoEnv] obtain w6 where w6:
    "block [phase1_ScoutTrends demoEnv, saveState demoEnv, phase2_GenerateIdeas demoEnv,
            saveState demoEnv, phase2b_JudgeIdeas demoEnv, saveState demoEnv,
            phase3_ResearchIdeas demoEnv, saveState demoEnv, phase4_Implement demoEnv,
            saveState demoEnv, phase5_Deploy demoEnv, saveState demoEnv]
       demoWorld = Inr w6"
    "world.state w6 = deployedState"
    by (auto simp: demoEnv_def)
  have b6: "block (concat (map (\<lambda>(tag, P). [P, saveState demoEnv]) (butlast (pipeline demoEnv))))
      demoWorld = Inr w6"
    using w6(1) flags by (simp add: pipeline_def)
  have a6: "awaitBudget (jsRuntime (ideaJudge demoEnv)) ''announce'' (TimeBudgets.announcer timeBudgets)
            (announcer demoEnv (deployment (world.state w6)) (selectedIdea (world.state w6))
               (implementation (world.state w6))) = Inr failedTweet"
    by (simp add: awaitBudget_eq demoEnv_def demo_budget timeBudgets_def)
  from announce_failure_is_not_fatal [of demoEnv demoWorld w6] flags(1,2) b6 a6 ft
  obtain r wf where r: "run demoEnv demoWorld = Inr (r, wf)"
    "RunResult.success r = True" "announcement (RunResult.state r) = Some failedTweet"
    "OrchestratorState.errors (RunResult.state r) = OrchestratorState.errors (world.state w6)"
    by blast
  have tb: "\<exists>v. tryBlock demoEnv demoWorld = Inr v"
    using r(1,2) by (auto simp: run_def Let_def split: sum.splits prod.splits)
  then obtain v where v: "tryBlock demoEnv demoWorld = Inr v" by blast
  from run_success [OF v] r(1) have rs: "RunResult.state r = world.state v" by auto
  have "\<exists>d l v6. v = v6\<lparr>trace := trace v6 @ [SaveCalled (world.state v6), Logged l], disk := d\<rparr>
      \<and> phase6_Announce demoEnv w6 = Inr v6"
  proof -
    from phase6_resolves [OF a6] obtain v6 where v6: "phase6_Announce demoEnv w6 = Inr v6" by blast
    from saveState_Inr [of demoEnv v6] obtain d l where sv:
      "saveState demoEnv v6 = Inr (v6\<lparr>trace := trace v6 @ [SaveCalled (world.state v6), Logged l], disk := d\<rparr>)"
      by blast
    have "tryBlock demoEnv demoWorld = block (concat (map (\<lambda>(tag, P). [P, saveState demoEnv])
        (butlast (pipeline demoEnv) @ [(''announce'', phase6_Announce demoEnv)]))) demoWorld"
      using tryBlock_pipeline [of demoEnv demoWorld] pipeline_announce_last [OF flags(1,2)] by simp
    also have "\<dots> = block [phase6_Announce demoEnv, saveState demoEnv] w6"
      unfolding statements_append block_append_Inr [OF b6] by simp
    also have "\<dots> = Inr (v6\<lparr>trace := trace v6 @ [SaveCalled (world.state v6), Logged l], disk := d\<rparr>)"
      by (simp add: v6 sv)
    finally show ?thesis using v v6 by auto
  qed
  then obtain d l v6 where v6:
    "v = v6\<lparr>trace := trace v6 @ [SaveCalled (world.state v6), Logged l], disk := d\<rparr>"
    "phase6_Announce demoEnv w6 = Inr v6" by blast
  from phase6_resolves [OF a6, of ] v6(2) have
    s6: "world.state v6 = (world.state w6)\<lparr>currentPhase := ''announce'',
           announcement := Some failedTweet\<rparr>"
    by auto
  have im: "implementation (RunResult.state r) = Some partialImpl"
    by (simp add: rs v6(1) s6 w6(2) deployedState_def implementedState_def)
  have er: "OrchestratorState.errors (RunResult.state r) = []"
    by (simp add: r(4) w6(2) deployedState_def implementedState_def researchedState_def)
  have first: "\<exists>r wf. run demoEnv demoWorld = Inr (r, wf)
        \<and> RunResult.success r = True
        \<and> announcement (RunResult.state r) = Some failedTweet
        \<and> implementation (RunResult.state r) = Some partialImpl
        \<and> OrchestratorState.errors (RunResult.state r) = []"
    using r(1,2,3) im er by blast
  \<comment> \<open>the failed deployment\<close>
  let ?D = deployFailEnv
  have dflags: "\<not> dryRun (system ?D)" "\<not> skipGithub (system ?D)"
    by (simp_all add: deployFailEnv_def demoEnv_def)
  have fd: "\<not> DeploymentResult.success failedDeployment" by (simp add: failedDeployment_def)
  have fields: "trendScout ?D = trendScout demoEnv" "ideaGenerator ?D = ideaGenerator demoEnv"
    "ideaJudge ?D = demoJudgeEnv" "filterSettles ?D = filterSettles demoEnv"
    "researcher ?D = researcher demoEnv" "implementer ?D = implementer demoEnv"
    by (simp_all add: deployFailEnv_def demoEnv_def)
  from demo_implemented [OF fields] obtain w5 where w5:
    "block [phase1_ScoutTrends ?D, saveState ?D, phase2_GenerateIdeas ?D, saveState ?D,
            phase2b_JudgeIdeas ?D, saveState ?D, phase3_ResearchIdeas ?D, saveState ?D,
            phase4_Implement ?D, saveState ?D]
       demoWorld = Inr w5"
    "world.state w5 = implementedState"
    by blast
  have b5: "block (concat (map (\<lambda>(tag, P). [P, saveState ?D]) (take 5 (pipeline ?D))))
      demoWorld = Inr w5"
    using w5(1) by (simp add: pipeline_def)
  have a5: "awaitBudget (jsRuntime (ideaJudge ?D)) ''deploy'' (TimeBudgets.deployer timeBudgets)
            (deployer ?D (implementation (world.state w5)) (selectedIdea (world.state w5)))
          = Inr failedDeployment"
    by (simp add: awaitBudget_eq deployFailEnv_def demoEnv_def demo_budget timeBudgets_def)
  from announce_failure_is_not_fatal [of ?D demoWorld w5] dflags b5 a5 fd
  obtain r2 wf2 where r2: "run ?D demoWorld = Inr (r2, wf2)"
    "RunResult.success r2 = False"
    "RunResult.error r2 =
       Some (''Deployment failed: '' @ joinWith '', '' (DeploymentResult.errors failedDeployment))"
    "currentPhase (RunResult.state r2) = ''deploy''"
    "deployment (RunResult.state r2) = deployment (world.state w5)"
    "announcement (RunResult.state r2) = announcement (world.state w5)"
    by blast
  have second: "\<exists>r wf. run ?D demoWorld = Inr (r, wf)
        \<and> RunResult.success r = False
        \<and> RunResult.error r = Some ''Deployment failed: push rejected, no token''
        \<and> currentPhase (RunResult.state r) = ''deploy''
        \<and> deployment (RunResult.state r) = None
        \<and> announcement (RunResult.state r) = None"
    using r2
    by (intro exI [of _ r2] exI [of _ wf2])
       (simp add: failedDeployment_def w5(2) implementedState_def researchedState_def)
  from flags(1,2) ft first dflags fd second show ?thesis by blast
qed












lemma retry_round1:
  "filterIdeas retryJudgeEnv (Suc 0) [demoIdea] demoRepos =
     Inr \<lparr>approved = [demoIdea], rejected = [], judged = [(demoIdea, demoRepo)]\<rparr>"
proof -
  have "judge retryJudgeEnv (Suc 0) demoIdea demoRepo = Inr demoVerdict"
    by (simp add: judge_built [OF demo_builds(1)] retryJudgeEnv_def Let_def judgeTask_def match_demo
        parseVerdict_def parseVerdictTry_def demoJson_def verdictOf_def adjustedScore_def
        runnabilityBonus_def strongAxes_def axisValues_def MIN_DIFFERENTIATION_SCORE_def
        MIN_STRONG_AXES_def demoVerdict_def)
  then show ?thesis
    by (simp add: filterIdeas_def demoRepos_def demo_origins demoVerdict_def Let_def)
qed




section \<open>Properties of the state persistence\<close>

lemma agree_phase1:
  "world.state w = world.state v \<Longrightarrow>
     agree (phase1_ScoutTrends (e\<lparr>fs := f\<rparr>) w) (phase1_ScoutTrends e v)"
  by (simp add: phase1_ScoutTrends_def Let_def enterPhase_def record_event_def split: sum.splits)

lemma agree_phase2:
  "world.state w = world.state v \<Longrightarrow>
     agree (phase2_GenerateIdeas (e\<lparr>fs := f\<rparr>) w) (phase2_GenerateIdeas e v)"
  by (simp add: phase2_GenerateIdeas_def Let_def enterPhase_def record_event_def split: sum.splits)

lemma agree_phase4:
  "world.state w = world.state v \<Longrightarrow>
     agree (phase4_Implement (e\<lparr>fs := f\<rparr>) w) (phase4_Implement e v)"
  by (simp add: phase4_Implement_def Let_def enterPhase_def record_event_def split: sum.splits)

lemma agree_phase5:
  "world.state w = world.state v \<Longrightarrow>
     agree (phase5_Deploy (e\<lparr>fs := f\<rparr>) w) (phase5_Deploy e v)"
  by (simp add: phase5_Deploy_def Let_def enterPhase_def record_event_def split: sum.splits)

lemma agree_phase6:
  "world.state w = world.state v \<Longrightarrow>
     agree (phase6_Announce (e\<lparr>fs := f\<rparr>) w) (phase6_Announce e v)"
  by (simp add: phase6_Announce_def Let_def enterPhase_def record_event_def split: sum.splits)

lemma agree_researchLoop:
  "world.state w = world.state v \<Longrightarrow>
     agree (researchLoop (e\<lparr>fs := f\<rparr>) n xs w) (researchLoop e n xs v)"
proof (induction xs arbitrary: n w v)
  case Nil
  then show ?case by simp
next
  case (Cons c rest)
  have ih: "agree (researchLoop (e\<lparr>fs := f\<rparr>) (Suc n) rest a) (researchLoop e (Suc n) rest b)"
    if "world.state a = world.state b" for a b
    using Cons.IH [OF that] .
  show ?case
    using Cons.prems
    by (auto simp: Let_def record_event_def split: sum.splits intro!: ih)
qed

lemma agree_phase3:
  "world.state w = world.state v \<Longrightarrow>
     agree (phase3_ResearchIdeas (e\<lparr>fs := f\<rparr>) w) (phase3_ResearchIdeas e v)"
  by (auto simp: phase3_ResearchIdeas_def Let_def enterPhase_def split: option.splits
      intro!: agree_researchLoop)

lemma regenerateLoop_fs:
  "regenerateLoop (e\<lparr>fs := f\<rparr>) rm groups k improved = regenerateLoop e rm groups k improved"
  by (induction groups arbitrary: k improved)
     (auto simp: Let_def regenerateTry_def parsedIdea_def split: option.splits sum.splits)

lemma regenerateFromFeedback_fs:
  "regenerateFromFeedback (e\<lparr>fs := f\<rparr>) rejections rm = regenerateFromFeedback e rejections rm"
  by (simp add: regenerateFromFeedback_def regenerateLoop_fs)

lemma filterCall_fs: "filterCall (e\<lparr>fs := f\<rparr>) r n0 current rm = filterCall e r n0 current rm"
  by (simp add: filterCall_def split: option.splits)

lemma agree_judgeRounds:
  "world.state w = world.state v \<Longrightarrow>
     agree (judgeRounds (e\<lparr>fs := f\<rparr>) rm r n0 w) (judgeRounds e rm r n0 v)"
proof (induction "MAX_ROUNDS - r" arbitrary: r n0 w v)
  case 0
  then have "\<not> r < MAX_ROUNDS" by simp
  with 0 show ?case by (simp add: judgeRounds.simps)
next
  case (Suc k)
  then have lt: "r < MAX_ROUNDS" and k: "k = MAX_ROUNDS - (r + 1)" by simp_all
  have ih: "agree (judgeRounds (e\<lparr>fs := f\<rparr>) rm (Suc r) m a) (judgeRounds e rm (Suc r) m b)"
    if "world.state a = world.state b" for m a b
    using Suc.hyps(1) [of "Suc r", OF _ that] k by simp
  show ?case
    using lt Suc.prems
    by (auto simp: judgeRounds.simps [of _ rm r] Let_def record_event_def filterCall_fs
        regenerateFromFeedback_fs split: sum.splits intro!: ih)
qed

lemma agree_phase2b:
  "world.state w = world.state v \<Longrightarrow>
     agree (phase2b_JudgeIdeas (e\<lparr>fs := f\<rparr>) w) (phase2b_JudgeIdeas e v)"
  by (auto simp: phase2b_JudgeIdeas_def Let_def enterPhase_def intro!: agree_judgeRounds)

lemma agree_saveState:
  "world.state w = world.state v \<Longrightarrow> agree (saveState e1 w) (saveState e2 v)"
  using saveState_state [of e1 w] saveState_state [of e2 v] by auto

lemma agree_block:
  "list_all2 (\<lambda>s t. \<forall>w v. world.state w = world.state v \<longrightarrow> agree (s w) (t v)) ss ts \<Longrightarrow>
     world.state w = world.state v \<Longrightarrow> agree (block ss w) (block ts v)"
proof (induction ss ts arbitrary: w v rule: list_all2_induct)
  case Nil
  then show ?case by simp
next
  case (Cons s ss t ts)
  from Cons.hyps(1) Cons.prems have a: "agree (s w) (t v)" by blast
  show ?case
  proof (cases "s w")
    case (Inl x)
    with a show ?thesis by (cases "t v"; cases x) auto
  next
    case (Inr w1)
    with a obtain v1 where v1: "t v = Inr v1" "world.state w1 = world.state v1"
      by (cases "t v") auto
    with Inr Cons.IH [of w1 v1] show ?thesis by simp
  qed
qed

lemma agree_tryBlock:
  assumes "world.state w = world.state v"
  shows "agree (tryBlock (e\<lparr>fs := f\<rparr>) w) (tryBlock e v)"
proof -
  let ?e = "e\<lparr>fs := f\<rparr>"
  have dep: "agree (block [phase5_Deploy ?e, saveState ?e] a) (block [phase5_Deploy e, saveState e] b)"
    if "world.state a = world.state b" for a b
    by (rule agree_block [OF _ that]) (simp add: agree_phase5 agree_saveState)
  have ann: "agree (block [phase6_Announce ?e, saveState ?e] a) (block [phase6_Announce e, saveState e] b)"
    if "world.state a = world.state b" for a b
    by (rule agree_block [OF _ that]) (simp add: agree_phase6 agree_saveState)
  have opt: "agree
      (block [(\<lambda>w. if skipGithub (system e) then Inr w
                     else block [phase5_Deploy ?e, saveState ?e] w),
              (\<lambda>w. if skipTwitter (system e) then Inr w
                     else block [phase6_Announce ?e, saveState ?e] w)] a)
      (block [(\<lambda>w. if skipGithub (system e) then Inr w
                     else block [phase5_Deploy e, saveState e] w),
              (\<lambda>w. if skipTwitter (system e) then Inr w
                     else block [phase6_Announce e, saveState e] w)] b)"
    if "world.state a = world.state b" for a b
    by (rule agree_block [OF _ that]) (simp add: dep ann del: block.simps)
  show ?thesis
    unfolding tryBlock_def
    by (rule agree_block [OF _ assms])
       (simp add: agree_phase1 agree_phase2 agree_phase2b agree_phase3 agree_phase4
          agree_saveState opt del: block.simps)
qed

lemma run_ignores_fs:
  "map_sum id fst (run (e\<lparr>fs := f\<rparr>) w) = map_sum id fst (run e w)"
proof -
  let ?e = "e\<lparr>fs := f\<rparr>"
  have a: "agree (tryBlock ?e w) (tryBlock e w)"
    by (rule agree_tryBlock) simp
  have el: "elapsedSeconds ?e s = elapsedSeconds e s" for s
    by (simp add: elapsedSeconds_def)
  show ?thesis
  proof (cases "tryBlock e w")
    case (Inr v1)
    with a obtain w1 where w1: "tryBlock ?e w = Inr w1" "world.state w1 = world.state v1"
      by (cases "tryBlock ?e w") auto
    show ?thesis
      by (simp add: run_success [OF Inr] run_success [OF w1(1)] w1(2) el)
  next
    case (Inl y)
    obtain err v1 where y: "y = (err, v1)" by (cases y)
    with Inl a obtain w1 where w1: "tryBlock ?e w = Inl (err, w1)" "world.state w1 = world.state v1"
      by (cases "tryBlock ?e w") auto
    let ?st = "(world.state v1)\<lparr>errors := OrchestratorState.errors (world.state v1)
          @ [\<lparr>phase = currentPhase (world.state v1), error = thrownMessage err,
              timestamp = dateNow e\<rparr>]\<rparr>"
    from saveState_state [of ?e "w1\<lparr>state := ?st\<rparr>"] obtain w2 where w2:
      "saveState ?e (w1\<lparr>state := ?st\<rparr>) = Inr w2" "world.state w2 = ?st" by auto
    from saveState_state [of e "v1\<lparr>state := ?st\<rparr>"] obtain v2 where v2:
      "saveState e (v1\<lparr>state := ?st\<rparr>) = Inr v2" "world.state v2 = ?st" by auto
    show ?thesis
      using Inl y w1 w2 v2 by (simp add: run_def Let_def el)
  qed
qed

text \<open>
  Claim C10. \<open>StateManager.save\<close> never rejects. When creating the directory, serialising
  the state or writing the file throws, the error is caught and only logged: \<open>save\<close>
  resolves, and the disk is as before, so the checkpoint is lost without notice. Hence
  \<open>saveState\<close> always completes and leaves the state as it was, \<open>run\<close> always returns, and
  what \<open>run\<close> returns does not depend on what the file system does.
\<close>

theorem save_never_rejects:
  fixes fsr :: fsRun and path :: string and st :: OrchestratorState and d :: disk
    and env :: env and w :: world
  shows
   "(\<exists>d1 line. StateManager_save fsr path st d = Inr (d1, line))
    \<and> (\<forall>e. mkdirThrows fsr = Some e
            \<or> (mkdirThrows fsr = None \<and> stringifyThrows fsr = Some e)
            \<or> (mkdirThrows fsr = None \<and> stringifyThrows fsr = None
                \<and> writeFileThrows fsr = Some e)
          \<longrightarrow> StateManager_save fsr path st d = Inr (d, LogError ''Failed to save state'' e))
    \<and> (mkdirThrows fsr = None \<and> stringifyThrows fsr = None \<and> writeFileThrows fsr = None
          \<longrightarrow> StateManager_save fsr path st d
                = Inr (d(path \<mapsto> st), LogDebug (''State saved to '' @ path)))
    \<and> (\<exists>w1. saveState env w = Inr w1 \<and> world.state w1 = world.state w)
    \<and> (\<exists>r wf. run env w = Inr (r, wf))
    \<and> (\<forall>f. map_sum id fst (run (env\<lparr>fs := f\<rparr>) w) = map_sum id fst (run env w))"
proof (intro conjI allI impI)
  show "\<exists>d1 line. StateManager_save fsr path st d = Inr (d1, line)"
    by (rule StateManager_save_total)
next
  fix e
  assume "mkdirThrows fsr = Some e
            \<or> (mkdirThrows fsr = None \<and> stringifyThrows fsr = Some e)
            \<or> (mkdirThrows fsr = None \<and> stringifyThrows fsr = None
                \<and> writeFileThrows fsr = Some e)"
  then show "StateManager_save fsr path st d = Inr (d, LogError ''Failed to save state'' e)"
    by (auto simp: StateManager_save_def saveTry_def)
next
  assume "mkdirThrows fsr = None \<and> stringifyThrows fsr = None \<and> writeFileThrows fsr = None"
  then show "StateManager_save fsr path st d
                = Inr (d(path \<mapsto> st), LogDebug (''State saved to '' @ path))"
    by (simp add: StateManager_save_def saveTry_def)
next
  show "\<exists>w1. saveState env w = Inr w1 \<and> world.state w1 = world.state w"
    by (rule saveState_state)
next
  show "\<exists>r wf. run env w = Inr (r, wf)"
    using run_returns [of env w] by blast
next
  fix f
  show "map_sum id fst (run (env\<lparr>fs := f\<rparr>) w) = map_sum id fst (run env w)"
    by (rule run_ignores_fs)
qed

theorem save_never_rejects_witness:
  "mkdirThrows brokenFs = None \<and> stringifyThrows brokenFs = None
   \<and> writeFileThrows brokenFs = Some (JsError ''ENOSPC'')
   \<and> StateManager_save brokenFs (stateFile ''run-1'') generatedState Map.empty
       = Inr (Map.empty, LogError ''Failed to save state'' (JsError ''ENOSPC''))
   \<and> mkdirThrows okFs = None \<and> stringifyThrows okFs = None \<and> writeFileThrows okFs = None
   \<and> StateManager_save okFs (stateFile ''run-1'') generatedState Map.empty
       = Inr ([stateFile ''run-1'' \<mapsto> generatedState],
              LogDebug ''State saved to logs/state-run-1.json'')
   \<and> map_sum id fst (run brokenDiskEnv demoWorld) = map_sum id fst (run demoEnv demoWorld)"
proof -
  have b: "mkdirThrows brokenFs = None" "stringifyThrows brokenFs = None"
    "writeFileThrows brokenFs = Some (JsError ''ENOSPC'')"
    by (simp_all add: brokenFs_def)
  have o: "mkdirThrows okFs = None" "stringifyThrows okFs = None" "writeFileThrows okFs = None"
    by (simp_all add: okFs_def)
  from save_never_rejects [of brokenFs "stateFile ''run-1''" generatedState Map.empty demoEnv demoWorld] b
  have s1: "StateManager_save brokenFs (stateFile ''run-1'') generatedState Map.empty
       = Inr (Map.empty, LogError ''Failed to save state'' (JsError ''ENOSPC''))"
    by blast
  from save_never_rejects [of okFs "stateFile ''run-1''" generatedState Map.empty demoEnv demoWorld] o
  have s2: "StateManager_save okFs (stateFile ''run-1'') generatedState Map.empty
       = Inr ([stateFile ''run-1'' \<mapsto> generatedState],
              LogDebug (''State saved to '' @ stateFile ''run-1''))"
    by blast
  from save_never_rejects [of okFs "stateFile ''run-1''" generatedState Map.empty demoEnv demoWorld]
  have "map_sum id fst (run (demoEnv\<lparr>fs := (\<lambda>n. brokenFs)\<rparr>) demoWorld)
      = map_sum id fst (run demoEnv demoWorld)"
    by blast
  then have s3: "map_sum id fst (run brokenDiskEnv demoWorld) = map_sum id fst (run demoEnv demoWorld)"
    by (simp add: brokenDiskEnv_def)
  from b o s1 s2 s3 show ?thesis by (simp add: stateFile_def)
qed

end
